theory Spec2Isabelle
  imports Complex_Main "HOL-Library.Sublist" "HOL-Library.AList"
begin

section \<open>Strings\<close>

text \<open>
  A JavaScript string is a sequence of UTF-16 code units. The regular expressions of
  \<^verbatim>\<open>cleanCode\<close> have no \<^verbatim>\<open>u\<close> flag and \<^verbatim>\<open>trim\<close> works on code units too, so a
  string is modelled as the list of its code units, each a natural number (a code unit is
  below 65536; nothing below depends on that bound). \<open>js\<close> turns an ASCII literal into
  such a list.
\<close>

type_synonym jsstring = "nat list"

definition js :: "string \<Rightarrow> jsstring" where
  "js s = map of_char s"

text \<open>
  ECMAScript's LineTerminator set: what \<^verbatim>\<open>.\<close> does not match, and what \<^verbatim>\<open>^\<close> and
  \<^verbatim>\<open>$\<close> look at under the \<^verbatim>\<open>m\<close> flag.
\<close>

definition isLineTerminator :: "nat \<Rightarrow> bool" where
  "isLineTerminator c = (c = 0x0A \<or> c = 0x0D \<or> c = 0x2028 \<or> c = 0x2029)"

text \<open>
  The class \<^verbatim>\<open>\s\<close>, which is also the set \<^verbatim>\<open>String.prototype.trim\<close> strips:
  WhiteSpace (TAB, VT, FF, SP, NBSP, ZWNBSP and the Unicode space separators) together
  with the line terminators.
\<close>

definition isSpace :: "nat \<Rightarrow> bool" where
  "isSpace c = (c = 0x09 \<or> c = 0x0B \<or> c = 0x0C \<or> c = 0x20 \<or> c = 0xA0 \<or> c = 0x1680
     \<or> (0x2000 \<le> c \<and> c \<le> 0x200A) \<or> c = 0x202F \<or> c = 0x205F \<or> c = 0x3000
     \<or> c = 0xFEFF \<or> isLineTerminator c)"

text \<open>The class \<^verbatim>\<open>[\r\n]\<close>.\<close>

definition isCRLF :: "nat \<Rightarrow> bool" where
  "isCRLF c = (c = 0x0D \<or> c = 0x0A)"

abbreviation slash :: nat where "slash \<equiv> 0x2F"
abbreviation star :: nat where "star \<equiv> 0x2A"
abbreviation LF :: nat where "LF \<equiv> 0x0A"
abbreviation underscore :: nat where "underscore \<equiv> 0x5F"

text \<open>
  \<^verbatim>\<open>`${n}`\<close> for a number that is a non-negative integer (below \<open>10^21\<close>, where
  JavaScript switches to exponent notation): its decimal digits.
\<close>

function numberToString :: "nat \<Rightarrow> jsstring" where
  "numberToString n =
     (if n < 10 then [0x30 + n] else numberToString (n div 10) @ [0x30 + n mod 10])"
  by pat_completeness auto
termination
  by (relation "measure id") auto

declare numberToString.simps [simp del]


section \<open>The data model (types.ts)\<close>

datatype Difficulty = BEGINNER | INTERMEDIATE | ADVANCED

datatype TaskType = FILL_IN_BLANK | BUG_FIX | PREDICT_OUTPUT

datatype Topic = VARIABLES | LOOPS | ARRAYS | OOP | METHODS | EXCEPTIONS | STRINGS
  | FILE_IO | COLLECTIONS

datatype Language = English | Bulgarian

text \<open>The string values of the enums, as a template literal prints them.\<close>

fun DifficultyValue :: "Difficulty \<Rightarrow> jsstring" where
  "DifficultyValue BEGINNER = js ''Beginner''"
| "DifficultyValue INTERMEDIATE = js ''Intermediate''"
| "DifficultyValue ADVANCED = js ''Advanced''"

fun TaskTypeValue :: "TaskType \<Rightarrow> jsstring" where
  "TaskTypeValue FILL_IN_BLANK = js ''Fill in the Blank''"
| "TaskTypeValue BUG_FIX = js ''Bug Fix''"
| "TaskTypeValue PREDICT_OUTPUT = js ''Predict Output''"

fun TopicValue :: "Topic \<Rightarrow> jsstring" where
  "TopicValue VARIABLES = js ''Variables & Data Types''"
| "TopicValue LOOPS = js ''Loops (for, while)''"
| "TopicValue ARRAYS = js ''Arrays''"
| "TopicValue OOP = js ''OOP Concepts (Classes, Objects)''"
| "TopicValue METHODS = js ''Methods & Recursion''"
| "TopicValue EXCEPTIONS = js ''Exception Handling''"
| "TopicValue STRINGS = js ''String Manipulation''"
| "TopicValue FILE_IO = js ''File I/O''"
| "TopicValue COLLECTIONS = js ''Java Collections Framework''"

fun LanguageValue :: "Language \<Rightarrow> jsstring" where
  "LanguageValue English = js ''English''"
| "LanguageValue Bulgarian = js ''Bulgarian''"

record QuizConfig =
  difficulty :: Difficulty
  topic :: Topic
  taskType :: TaskType
  language :: Language

record GeneratedQuestion =
  title :: jsstring
  instructions :: jsstring
  codeSnippet :: jsstring
  initialCode :: jsstring
  solution :: jsstring
  explanation :: jsstring

record SimulationResult =
  output' :: jsstring
  isCorrect :: bool
  feedback :: jsstring

record ExamResult =
  grade :: int
  label :: jsstring
  feedback :: jsstring
  styleScore :: int
  correctnessScore :: int


section \<open>Regular expressions\<close>

text \<open>
  The regular expressions of \<^verbatim>\<open>cleanCode\<close> are sequences of these items: a class of
  code units once; a class repeated greedily, at least \<open>n\<close> times (\<^verbatim>\<open>*\<close> is \<open>n = 0\<close>,
  \<^verbatim>\<open>{3,}\<close> is \<open>n = 3\<close>); a class repeated lazily (\<^verbatim>\<open>*?\<close>); and the assertions
  \<^verbatim>\<open>^\<close> and \<^verbatim>\<open>$\<close> under the \<^verbatim>\<open>m\<close> flag.
\<close>

datatype item =
    One "nat \<Rightarrow> bool"
  | Greedy "nat \<Rightarrow> bool" nat
  | Lazy "nat \<Rightarrow> bool"
  | Bol
  | Eol

text \<open>The first alternative that succeeds, in the order the backtracking tries them.\<close>

fun firstSome :: "(nat \<Rightarrow> 'a option) \<Rightarrow> nat list \<Rightarrow> 'a option" where
  "firstSome f [] = None"
| "firstSome f (k # ks) = (case f k of Some r \<Rightarrow> Some r | None \<Rightarrow> firstSome f ks)"

text \<open>The code unit in front of the current position, after some more have been consumed.\<close>

definition lastOr :: "nat option \<Rightarrow> jsstring \<Rightarrow> nat option" where
  "lastOr prev consumed = (if consumed = [] then prev else Some (last consumed))"

text \<open>
  \<open>matchHere p prev s\<close> matches the pattern \<open>p\<close> at the start of \<open>s\<close>, where \<open>prev\<close> is the
  code unit in front of \<open>s\<close> (\<open>None\<close> at the start of the input), and returns what is left
  of \<open>s\<close> behind the match, or \<open>None\<close>. A greedy repetition tries the longest run first and
  gives back one code unit at a time; a lazy one tries the empty run first and takes one
  more at a time.
\<close>

primrec matchHere :: "item list \<Rightarrow> nat option \<Rightarrow> jsstring \<Rightarrow> jsstring option" where
  "matchHere [] = (\<lambda>prev s. Some s)"
| "matchHere (it # r) = (\<lambda>prev s.
     case it of
       One P \<Rightarrow>
         (case s of [] \<Rightarrow> None | c # cs \<Rightarrow> if P c then matchHere r (Some c) cs else None)
     | Greedy P n \<Rightarrow>
         firstSome (\<lambda>k. matchHere r (lastOr prev (take k s)) (drop k s))
           (rev [n ..< Suc (length (takeWhile P s))])
     | Lazy P \<Rightarrow>
         firstSome (\<lambda>k. matchHere r (lastOr prev (take k s)) (drop k s))
           [0 ..< Suc (length (takeWhile P s))]
     | Bol \<Rightarrow>
         (case prev of
            None \<Rightarrow> matchHere r prev s
          | Some p \<Rightarrow> if isLineTerminator p then matchHere r prev s else None)
     | Eol \<Rightarrow>
         (case s of
            [] \<Rightarrow> matchHere r prev s
          | c # cs \<Rightarrow> if isLineTerminator c then matchHere r prev s else None))"

text \<open>
  \<^verbatim>\<open>String.prototype.replace\<close> with a global regular expression and a replacement
  string without \<^verbatim>\<open>$\<close>: every match, found from left to right on the original string,
  is replaced, and the search goes on behind the match; behind an empty match it goes on
  one code unit further.
\<close>

function replaceAll :: "item list \<Rightarrow> jsstring \<Rightarrow> nat option \<Rightarrow> jsstring \<Rightarrow> jsstring" where
  "replaceAll p rep prev s =
     (case matchHere p prev s of
        Some rest \<Rightarrow>
          if length rest < length s
          then rep @ replaceAll p rep (lastOr prev (take (length s - length rest) s)) rest
          else rep @ (case s of [] \<Rightarrow> [] | c # cs \<Rightarrow> c # replaceAll p rep (Some c) cs)
      | None \<Rightarrow> (case s of [] \<Rightarrow> [] | c # cs \<Rightarrow> c # replaceAll p rep (Some c) cs))"
  by pat_completeness auto
termination
  by (relation "measure (\<lambda>(p, rep, prev, s). length s)") auto

declare replaceAll.simps [simp del]


section \<open>cleanCode (services/geminiService)\<close>

text \<open>\<^verbatim>\<open>/\/\/.*$/gm\<close>\<close>

definition lineCommentRe :: "item list" where
  "lineCommentRe = [One (\<lambda>c. c = slash), One (\<lambda>c. c = slash),
     Greedy (\<lambda>c. \<not> isLineTerminator c) 0, Eol]"

text \<open>\<^verbatim>\<open>/\/\*[\s\S]*?\*\//g\<close>\<close>

definition blockCommentRe :: "item list" where
  "blockCommentRe = [One (\<lambda>c. c = slash), One (\<lambda>c. c = star), Lazy (\<lambda>c. True),
     One (\<lambda>c. c = star), One (\<lambda>c. c = slash)]"

text \<open>\<^verbatim>\<open>/^\s*[\r\n]/gm\<close>\<close>

definition blankLineRe :: "item list" where
  "blankLineRe = [Bol, Greedy isSpace 0, One isCRLF]"

text \<open>\<^verbatim>\<open>/\n{3,}/g\<close>\<close>

definition newlinesRe :: "item list" where
  "newlinesRe = [Greedy (\<lambda>c. c = LF) 3]"

text \<open>\<^verbatim>\<open>.trim()\<close>: white space and line terminators go from both ends.\<close>

definition trim :: "jsstring \<Rightarrow> jsstring" where
  "trim s = rev (dropWhile isSpace (rev (dropWhile isSpace s)))"

definition cleanCode :: "jsstring \<Rightarrow> jsstring" where
  "cleanCode code =
     trim (replaceAll newlinesRe [LF, LF] None
       (replaceAll blankLineRe [LF] None
         (replaceAll blockCommentRe [] None
           (replaceAll lineCommentRe [] None code))))"


section \<open>The four replaces as scans\<close>

text \<open>
  Each replace of \<open>cleanCode\<close> is also written as a scan of its own, which the properties
  below work with; that a scan computes what its replace computes is proved there.
\<close>

text \<open>
  The first replace, \<open>lineCommentRe\<close>. The scan goes left to right. At \<^verbatim>\<open>//\<close> the
  greedy \<^verbatim>\<open>.*\<close> takes every code unit up to the next line terminator (or the end of the
  input), where \<^verbatim>\<open>$\<close> holds under the \<^verbatim>\<open>m\<close> flag; the match is replaced by the empty
  string and the scan goes on at the line terminator.
\<close>

function removeLineComments :: "jsstring \<Rightarrow> jsstring" where
  "removeLineComments [] = []"
| "removeLineComments [c] = [c]"
| "removeLineComments (c # d # cs) =
     (if c = slash \<and> d = slash
      then removeLineComments (dropWhile (\<lambda>x. \<not> isLineTerminator x) cs)
      else c # removeLineComments (d # cs))"
  by pat_completeness auto
termination
  by (relation "measure length")
     (auto simp: less_Suc_eq_le intro: le_trans [OF length_dropWhile_le])

text \<open>
  The second replace, \<open>blockCommentRe\<close>. At \<^verbatim>\<open>/*\<close> the lazy \<^verbatim>\<open>[\s\S]*?\<close> stops at
  the first \<^verbatim>\<open>*/\<close> that begins after the opener; \<open>findClose\<close> returns what follows
  it. Without a closing \<^verbatim>\<open>*/\<close> there is no match at this position and the scan moves
  one code unit on.
\<close>

fun findClose :: "jsstring \<Rightarrow> jsstring option" where
  "findClose (c # d # cs) = (if c = star \<and> d = slash then Some cs else findClose (d # cs))"
| "findClose _ = None"

lemma findClose_length: "findClose s = Some r \<Longrightarrow> length r < length s"
  by (induction s rule: findClose.induct) (auto split: if_splits)

function removeBlockComments :: "jsstring \<Rightarrow> jsstring" where
  "removeBlockComments [] = []"
| "removeBlockComments [c] = [c]"
| "removeBlockComments (c # d # cs) =
     (if c = slash \<and> d = star
      then (case findClose cs of
              Some rest \<Rightarrow> removeBlockComments rest
            | None \<Rightarrow> c # removeBlockComments (d # cs))
      else c # removeBlockComments (d # cs))"
  by pat_completeness auto
termination
  by (relation "measure length") (auto dest: findClose_length)

text \<open>
  The third replace, \<open>blankLineRe\<close>. Under the \<^verbatim>\<open>m\<close> flag \<^verbatim>\<open>^\<close> holds at the start
  of the input and after every line terminator. There the greedy \<^verbatim>\<open>\s*\<close> takes the
  whole run of white space and backtracks to the last \<^verbatim>\<open>\r\<close> or \<^verbatim>\<open>\n\<close> of that run:
  \<open>matchBlank\<close> returns what follows that code unit, or \<open>None\<close> when the run has
  neither. The match is replaced by one \<^verbatim>\<open>\n\<close> and the scan goes on behind it, which is
  again the start of a line. The flag \<open>atStart\<close> says whether \<^verbatim>\<open>^\<close> holds at the
  current position.
\<close>

definition matchBlank :: "jsstring \<Rightarrow> jsstring option" where
  "matchBlank s =
     (let run = takeWhile isSpace s in
      if list_ex isCRLF run
      then Some (rev (takeWhile (\<lambda>c. \<not> isCRLF c) (rev run)) @ dropWhile isSpace s)
      else None)"

lemma matchBlank_length: "matchBlank s = Some r \<Longrightarrow> length r < length s"
proof -
  assume a: "matchBlank s = Some r"
  let ?run = "takeWhile isSpace s"
  from a have ex: "\<exists>c \<in> set ?run. isCRLF c"
    and r: "r = rev (takeWhile (\<lambda>c. \<not> isCRLF c) (rev ?run)) @ dropWhile isSpace s"
    by (auto simp: matchBlank_def Let_def list_ex_iff split: if_splits)
  have "dropWhile (\<lambda>c. \<not> isCRLF c) (rev ?run) \<noteq> []"
    using ex by (auto simp: dropWhile_eq_Nil_conv)
  moreover have "length (takeWhile (\<lambda>c. \<not> isCRLF c) (rev ?run))
      + length (dropWhile (\<lambda>c. \<not> isCRLF c) (rev ?run)) = length (rev ?run)"
    by (metis length_append takeWhile_dropWhile_id)
  ultimately have "length (takeWhile (\<lambda>c. \<not> isCRLF c) (rev ?run)) < length ?run"
    by (cases "dropWhile (\<lambda>c. \<not> isCRLF c) (rev ?run)") auto
  moreover have "length s = length ?run + length (dropWhile isSpace s)"
    by (metis length_append takeWhile_dropWhile_id)
  ultimately show ?thesis using r by simp
qed

function collapseBlankLines :: "bool \<Rightarrow> jsstring \<Rightarrow> jsstring" where
  "collapseBlankLines atStart [] = []"
| "collapseBlankLines atStart (c # cs) =
     (if atStart then
        (case matchBlank (c # cs) of
           Some rest \<Rightarrow> LF # collapseBlankLines True rest
         | None \<Rightarrow> c # collapseBlankLines (isLineTerminator c) cs)
      else c # collapseBlankLines (isLineTerminator c) cs)"
  by pat_completeness auto
termination
  by (relation "measure (\<lambda>(b, s). length s)") (auto dest: matchBlank_length)

text \<open>
  The fourth replace, \<open>newlinesRe\<close>: a maximal run of three or more \<^verbatim>\<open>\n\<close> becomes
  two.
\<close>

function collapseNewlines :: "jsstring \<Rightarrow> jsstring" where
  "collapseNewlines [] = []"
| "collapseNewlines (c # cs) =
     (if 3 \<le> length (takeWhile (\<lambda>x. x = LF) (c # cs))
      then LF # LF # collapseNewlines (dropWhile (\<lambda>x. x = LF) (c # cs))
      else c # collapseNewlines cs)"
  by pat_completeness auto
termination
  by (relation "measure length")
     (auto simp: less_Suc_eq_le split: if_splits intro: le_trans [OF length_dropWhile_le])

text \<open>Whether a block comment closes at the start of a string, and what then follows it.\<close>

definition closeAt :: "jsstring \<Rightarrow> jsstring option" where
  "closeAt t = (case t of c # d # r \<Rightarrow> if c = star \<and> d = slash then Some r else None | _ \<Rightarrow> None)"


text \<open>
  What a string may contain, for the properties of \<open>cleanCode\<close>: the opener of a line
  comment, a block comment with its closer, three newlines in a row.
\<close>

fun hasLineComment :: "jsstring \<Rightarrow> bool" where
  "hasLineComment (c # d # cs) = ((c = slash \<and> d = slash) \<or> hasLineComment (d # cs))"
| "hasLineComment _ = False"

fun hasBlockComment :: "jsstring \<Rightarrow> bool" where
  "hasBlockComment (c # d # cs) =
     ((c = slash \<and> d = star \<and> findClose cs \<noteq> None) \<or> hasBlockComment (d # cs))"
| "hasBlockComment _ = False"

fun hasTriple :: "jsstring \<Rightarrow> bool" where
  "hasTriple (a # b # c # r) = ((a = LF \<and> b = LF \<and> c = LF) \<or> hasTriple (b # c # r))"
| "hasTriple _ = False"

text \<open>
  \<open>wsEdit s t\<close>: \<open>t\<close> comes from \<open>s\<close> by replacing white space by white space and by
  deleting white space in front of white space, so that no two other code units become
  neighbours.
\<close>

inductive wsEdit :: "jsstring \<Rightarrow> jsstring \<Rightarrow> bool" where
  Nil: "wsEdit [] []"
| Keep: "wsEdit s t \<Longrightarrow> wsEdit (c # s) (c # t)"
| Subst: "isSpace c \<Longrightarrow> isSpace d \<Longrightarrow> wsEdit s t \<Longrightarrow> wsEdit (c # s) (d # t)"
| Del: "isSpace c \<Longrightarrow> wsEdit s (d # t) \<Longrightarrow> isSpace d \<Longrightarrow> wsEdit (c # s) (d # t)"

section \<open>JSON values\<close>

text \<open>
  What \<^verbatim>\<open>JSON.parse\<close> returns. An object is the list of its properties in insertion
  order. A number literal of JSON is a decimal fraction; how \<^verbatim>\<open>JSON.parse\<close> rounds it
  is part of that function, which the model takes as a parameter.
\<close>

datatype json =
    JNull
  | JBool bool
  | JNumber rat
  | JString jsstring
  | JArray "json list"
  | JObject "(jsstring \<times> json) list"

text \<open>Reading a property: \<open>None\<close> is \<^verbatim>\<open>undefined\<close>.\<close>

fun getProp :: "json \<Rightarrow> jsstring \<Rightarrow> json option" where
  "getProp (JObject ps) k = map_of ps k"
| "getProp _ k = None"

text \<open>A value as a condition (\<^verbatim>\<open>!!v\<close>, \<^verbatim>\<open>v && e\<close>): an object or an array counts as true.\<close>

fun truthy :: "json \<Rightarrow> bool" where
  "truthy JNull = False"
| "truthy (JBool b) = b"
| "truthy (JNumber x) = (x \<noteq> 0)"
| "truthy (JString t) = (t \<noteq> [])"
| "truthy (JArray xs) = True"
| "truthy (JObject ps) = True"

text \<open>
  \<^verbatim>\<open>Object.is(a, b)\<close> for a value \<open>b\<close> that \<^verbatim>\<open>JSON.parse\<close> has just returned: \<^verbatim>\<open>null\<close>, a
  boolean, a number and a string are the same when they are equal, an object or an array
  just parsed is a new one. The rationals have one zero, so \<^verbatim>\<open>-0\<close>, which \<^verbatim>\<open>Object.is\<close>
  tells from \<^verbatim>\<open>0\<close>, is \<open>0\<close> here.
\<close>

fun sameValue :: "json \<Rightarrow> json \<Rightarrow> bool" where
  "sameValue JNull JNull = True"
| "sameValue (JBool a) (JBool b) = (a = b)"
| "sameValue (JNumber a) (JNumber b) = (a = b)"
| "sameValue (JString a) (JString b) = (a = b)"
| "sameValue _ _ = False"


section \<open>The Gemini service (services/geminiService)\<close>

datatype error =
    Error jsstring
  | SyntaxError
  | TypeError
  | ApiError jsstring

datatype SchemaType = OBJECT | STRING | BOOLEAN | INTEGER

record SchemaProperty =
  propType :: SchemaType
  description :: jsstring

record Schema =
  schemaType :: SchemaType
  properties :: "(jsstring \<times> SchemaProperty) list"
  required :: "jsstring list"

record GenerateContentConfig =
  systemInstruction :: jsstring
  responseMimeType :: jsstring
  responseSchema :: Schema
  temperature :: rat

record GenerateContentParameters =
  model :: jsstring
  contents :: jsstring
  config :: GenerateContentConfig

record GenerateContentResponse =
  text' :: "jsstring option"

text \<open>
  The surroundings of the service: the environment variable, the SDK call (given the key
  the client was built with, it answers or rejects) and \<^verbatim>\<open>JSON.parse\<close> (\<open>None\<close>: it
  throws a SyntaxError).
\<close>

record env =
  API_KEY :: "jsstring option"
  generateContent :: "jsstring \<Rightarrow> GenerateContentParameters \<Rightarrow> error + GenerateContentResponse"
  JSON_parse :: "jsstring \<Rightarrow> json option"

text \<open>
  \<^verbatim>\<open>getClient\<close>: \<^verbatim>\<open>!apiKey\<close> holds for an unset variable and for the empty string.
  The client is represented by the key it carries.
\<close>

definition getClient :: "env \<Rightarrow> error + jsstring" where
  "getClient e =
     (case API_KEY e of
        None \<Rightarrow> Inl (Error (js ''API Key not found in environment''))
      | Some apiKey \<Rightarrow>
          if apiKey = [] then Inl (Error (js ''API Key not found in environment''))
          else Inr apiKey)"

definition SENIOR_JAVA_DEV_PROMPT :: jsstring where
  \<open>SENIOR_JAVA_DEV_PROMPT = js
     ''\<newline>You are an expert Senior Java Developer and Code Reviewer specialized in Clean Code and Code Style standards (Google Java Style Guide / Oracle Conventions).\<newline>\<newline>Your goal is to reformat the user's Java code to maximize readability, focusing specifically on **layout, indentation, and spacing**.\<newline>\<newline>**STRICT FORMATTING RULES:**\<newline>1.  **Indentation:**\<newline>    - Use exactly 4 SPACES for each level of indentation. Do NOT use tabs.\<newline>    - Ensure nested blocks (if, for, while) are strictly indented relative to their parent.\<newline>2.  **Brace Style (K&R / Egyptian):**\<newline>    - Opening braces `{` must be on the same line as the declaration.\<newline>    - Closing braces `}` must be on their own line, aligned with the start of the block statement.\<newline>3.  **Line Wrapping & Length:**\<newline>    - Hard limit: 120 characters per line.\<newline>    - **Method Chaining (Streams/Builders):** Put each method call on a new line, starting with the dot `.`. Align the dots vertically.\<newline>    - **Long Arguments:** If arguments exceed line length, break them into new lines, aligned with the opening parenthesis `(`.\<newline>    - **Operators:** Break lines *before* binary operators (e.g., `+`, `&&`, `||`), not after.\<newline>4.  **Whitespace (Breathing Room):**\<newline>    - Add a single space around all operators (`=`, `+`, `==`, `->`).\<newline>    - Add a single space after keywords like `if`, `for`, `while`, `catch` before the opening parenthesis.\<newline>    - Add a single space after commas in lists.\<newline>5.  **Vertical Spacing:**\<newline>    - Insert exactly one blank line between methods.\<newline>    - Insert one blank line inside methods to separate logical blocks (e.g., between variable declarations and logic).\<newline>\<newline>**FILL-IN-THE-BLANK SYSTEM INSTRUCTION:**\<newline>You are an intelligent coding assistant helping a user complete a Java "fill-in-the-blanks" exercise.\<newline>\<newline>The user provided code snippet containing placeholders. These placeholders are marked in two ways:\<newline>1. Text surrounded by underscores (e.g., `_int___`, `_a_`, `______`).\<newline>2. Visual boxes indicating missing values.\<newline>\<newline>**YOUR PRIMARY GOAL:**\<newline>When evaluating, generating, or correcting code involving blanks:\<newline>When the user provides an input value for a blank, you must replace the **ENTIRE** placeholder with that value.\<newline>\<newline>**STRICT CONSTRAINTS FOR REPLACEMENT:**\<newline>1.  **REMOVE ALL UNDERSCORES:** You must delete all leading and trailing underscores belonging to the placeholder.\<newline>2.  **CLEAN OUTPUT:** The final result must contain ONLY the user's typed value in that position, with correct normal spacing around it. No remnant underscores should remain.\<newline>\<newline>**EXAMPLES:**\<newline>* **Input Code:** `_int___ age = 25;` -> **User Types:** `int` -> **CORRECT Output:** `int age = 25;`\<newline>* **Input Code:** `______ temperature = 36.6;` -> **User Types:** `double` -> **CORRECT Output:** `double temperature = 36.6;`\<newline>''\<close>

definition questionSchema :: Schema where
  "questionSchema = \<lparr>
     schemaType = OBJECT,
     properties = [
       (js ''title'', \<lparr>propType = STRING, description = js ''A short title for the problem''\<rparr>),
       (js ''instructions'', \<lparr>propType = STRING,
          description = js ''Clear instructions for the student on what to do''\<rparr>),
       (js ''codeSnippet'', \<lparr>propType = STRING,
          description = js ''The Java code following the formatting rules. For 'Fill in the Blank', use '____' (4 underscores) as placeholders. For 'Bug Fix', include logic or syntax errors.''\<rparr>),
       (js ''solution'', \<lparr>propType = STRING,
          description = js ''The fully correct, working Java code following the formatting rules.''\<rparr>),
       (js ''explanation'', \<lparr>propType = STRING,
          description = js ''A brief explanation of the concept being tested.''\<rparr>)],
     required = [js ''title'', js ''instructions'', js ''codeSnippet'', js ''solution'',
       js ''explanation'']\<rparr>"

definition simulationSchema :: Schema where
  "simulationSchema = \<lparr>
     schemaType = OBJECT,
     properties = [
       (js ''output'', \<lparr>propType = STRING,
          description = js ''The simulated console output of the code. If there is a compilation error, put the error message here.''\<rparr>),
       (js ''isCorrect'', \<lparr>propType = BOOLEAN,
          description = js ''Whether the code solves the problem as requested.''\<rparr>),
       (js ''feedback'', \<lparr>propType = STRING,
          description = js ''Constructive feedback for the student, including notes on code style/formatting if applicable.''\<rparr>)],
     required = [js ''output'', js ''isCorrect'', js ''feedback'']\<rparr>"

definition examSchema :: Schema where
  "examSchema = \<lparr>
     schemaType = OBJECT,
     properties = [
       (js ''grade'', \<lparr>propType = INTEGER,
          description = js ''The final grade on a scale of 2 to 6.''\<rparr>),
       (js ''label'', \<lparr>propType = STRING,
          description = js ''Label like 'Excellent', 'Good', 'Poor', etc.''\<rparr>),
       (js ''feedback'', \<lparr>propType = STRING,
          description = js ''Detailed justification for the grade.''\<rparr>),
       (js ''styleScore'', \<lparr>propType = INTEGER,
          description = js ''0-100 score for indentation and formatting.''\<rparr>),
       (js ''correctnessScore'', \<lparr>propType = INTEGER,
          description = js ''0-100 score for functionality.''\<rparr>)],
     required = [js ''grade'', js ''label'', js ''feedback'', js ''styleScore'',
       js ''correctnessScore'']\<rparr>"

text \<open>The three prompts: template literals, so concatenations around their arguments.\<close>

definition questionPrompt :: "QuizConfig \<Rightarrow> jsstring" where
  "questionPrompt quizConfig =
     js ''\<newline>    Create a Java programming task.\<newline>    Difficulty: ''
     @ DifficultyValue (difficulty quizConfig)
     @ js ''\<newline>    Topic: ''
     @ TopicValue (topic quizConfig)
     @ js ''\<newline>    Type: ''
     @ TaskTypeValue (taskType quizConfig)
     @ js ''\<newline>    Language: ''
     @ LanguageValue (language quizConfig)
     @ js '' (The instructions and title must be in this language).\<newline>    \<newline>    CRITICAL CODE GENERATION RULES:\<newline>    1. The 'codeSnippet' must be PURE Java code.\<newline>    2. STRICTLY FORBIDDEN: Do NOT include ANY comments (// or /* */). No instructions inside the code.\<newline>    3. The code must be cleanly formatted according to the System Instructions (4 spaces, K&R braces).\<newline>    4. If Type is 'Fill in the Blank', use exactly '____' (4 underscores).\<newline>    5. If Type is 'Bug Fix', provide code with subtle errors but NO comments pointing them out.\<newline>    \<newline>    Ensure the code is self-contained (e.g., inside a Main class main method).\<newline>  ''"

definition simulationPrompt :: "jsstring \<Rightarrow> GeneratedQuestion \<Rightarrow> jsstring \<Rightarrow> jsstring" where
  "simulationPrompt userCode originalQuestion lang =
     js ''\<newline>    Act as a Java Compiler and Tutor.\<newline>    \<newline>    Task Instructions: ''
     @ instructions originalQuestion
     @ js ''\<newline>    Expected Solution Pattern: ''
     @ solution originalQuestion
     @ js ''\<newline>    \<newline>    Student's Code:\<newline>    ```java\<newline>    ''
     @ userCode
     @ js ''\<newline>    ```\<newline>    \<newline>    1. Simulate the execution of the Student's Code.\<newline>    2. Determine if it successfully accomplishes the task.\<newline>    3. Provide the output (stdout) or compiler errors.\<newline>    4. Provide feedback in ''
     @ lang
     @ js ''.\<newline>       - Check if the code runs correctly.\<newline>       - Also briefly check if the student maintained the Coding Style (indentation, spacing) defined in your System Instructions.\<newline>  ''"

record Metrics =
  timeSpentSeconds :: nat
  attempts :: nat

definition gradePrompt ::
  "jsstring \<Rightarrow> GeneratedQuestion \<Rightarrow> Metrics \<Rightarrow> jsstring \<Rightarrow> jsstring" where
  \<open>gradePrompt userCode originalQuestion metrics lang =
     js ''\<newline>    Act as a Strict Computer Science Teacher grading a student exam.\<newline>    \<newline>    GRADING SCALE (Bulgarian System):\<newline>    6 = Excellent (Perfect correct code, perfect style, efficiency)\<newline>    5 = Very Good (Correct code, minor style or efficiency issues)\<newline>    4 = Good (Correct logic but messy, or took too many attempts)\<newline>    3 = Fair (Partial solution or major errors)\<newline>    2 = Poor (Does not run, logic failed completely)\<newline>\<newline>    Student Performance Data:\<newline>    - Task: ''
     @ instructions originalQuestion
     @ js ''\<newline>    - Correct Solution: ''
     @ solution originalQuestion
     @ js ''\<newline>    - Student Code: ```java ''
     @ userCode
     @ js '' ```\<newline>    - Time Taken: ''
     @ numberToString (timeSpentSeconds metrics)
     @ js '' seconds\<newline>    - Attempts (Runs): ''
     @ numberToString (attempts metrics)
     @ js ''\<newline>    \<newline>    Evaluation Criteria:\<newline>    1. **Functionality (Highest Weight)**: Does it solve the problem?\<newline>    2. **Formatting & Style**: Are indents correct (4 spaces)? Are brackets correct? Is it readable?\<newline>    3. **Efficiency**: Did they take too long (>120s for simple tasks is slow)? Did they spam the "Run" button (>5 attempts is bad)?\<newline>\<newline>    Respond in ''
     @ lang
     @ js ''.\<newline>    Calculate 'grade' (integer 2-6).\<newline>    Calculate 'styleScore' (0-100).\<newline>    Calculate 'correctnessScore' (0-100).\<newline>  ''\<close>

definition request :: "jsstring \<Rightarrow> Schema \<Rightarrow> rat \<Rightarrow> GenerateContentParameters" where
  "request prompt schema temp = \<lparr>
     model = js ''gemini-2.5-flash'',
     contents = prompt,
     config = \<lparr>
       systemInstruction = SENIOR_JAVA_DEV_PROMPT,
       responseMimeType = js ''application/json'',
       responseSchema = schema,
       temperature = temp\<rparr>\<rparr>"

text \<open>
  An operation returns the requests it has issued, in order, and its outcome: \<open>Inl\<close>
  the error thrown (the promise rejects), \<open>Inr\<close> the value returned.

  \<open>awaitText\<close> is the part the three operations share word for word: build the client,
  issue the call, read \<^verbatim>\<open>response.text\<close> and refuse an absent or empty one.
\<close>

definition awaitText ::
  "env \<Rightarrow> GenerateContentParameters \<Rightarrow> GenerateContentParameters list \<times> (error + jsstring)" where
  "awaitText e req =
     (case getClient e of
        Inl err \<Rightarrow> ([], Inl err)
      | Inr ai \<Rightarrow>
          (case generateContent e ai req of
             Inl err \<Rightarrow> ([req], Inl err)
           | Inr response \<Rightarrow>
               (case text' response of
                  None \<Rightarrow> ([req], Inl (Error (js ''No response from Gemini'')))
                | Some t \<Rightarrow>
                    if t = [] then ([req], Inl (Error (js ''No response from Gemini'')))
                    else ([req], Inr t))))"

text \<open>
  \<^verbatim>\<open>generateQuestion\<close>. After \<^verbatim>\<open>JSON.parse\<close>, \<^verbatim>\<open>data.codeSnippet\<close> throws a TypeError
  when \<^verbatim>\<open>data\<close> is \<^verbatim>\<open>null\<close>, and \<^verbatim>\<open>code.replace\<close> in \<^verbatim>\<open>cleanCode\<close> throws one when
  the property is not a string. The object literal with the spread keeps the properties of
  \<^verbatim>\<open>data\<close> in place, overwrites \<^verbatim>\<open>codeSnippet\<close> and sets \<^verbatim>\<open>initialCode\<close>.
\<close>

definition generateQuestion ::
  "env \<Rightarrow> QuizConfig \<Rightarrow> GenerateContentParameters list \<times> (error + json)" where
  "generateQuestion e quizConfig =
     (let prompt = questionPrompt quizConfig in
      case awaitText e (request prompt questionSchema (7 / 10)) of
        (calls, Inl err) \<Rightarrow> (calls, Inl err)
      | (calls, Inr t) \<Rightarrow>
          (case JSON_parse e t of
             None \<Rightarrow> (calls, Inl SyntaxError)
           | Some data \<Rightarrow>
               (case data of
                  JObject ps \<Rightarrow>
                    (case map_of ps (js ''codeSnippet'') of
                       Some (JString snippet) \<Rightarrow>
                         (let cleanedSnippet = cleanCode snippet in
                          (calls, Inr (JObject
                             (AList.update (js ''initialCode'') (JString cleanedSnippet)
                               (AList.update (js ''codeSnippet'') (JString cleanedSnippet) ps)))))
                     | _ \<Rightarrow> (calls, Inl TypeError))
                | _ \<Rightarrow> (calls, Inl TypeError))))"

definition simulateJavaCode ::
  "env \<Rightarrow> jsstring \<Rightarrow> GeneratedQuestion \<Rightarrow> jsstring
     \<Rightarrow> GenerateContentParameters list \<times> (error + json)" where
  "simulateJavaCode e userCode originalQuestion lang =
     (let prompt = simulationPrompt userCode originalQuestion lang in
      case awaitText e (request prompt simulationSchema (2 / 10)) of
        (calls, Inl err) \<Rightarrow> (calls, Inl err)
      | (calls, Inr t) \<Rightarrow>
          (case JSON_parse e t of
             None \<Rightarrow> (calls, Inl SyntaxError)
           | Some data \<Rightarrow> (calls, Inr data)))"

definition gradeExam ::
  "env \<Rightarrow> jsstring \<Rightarrow> GeneratedQuestion \<Rightarrow> Metrics \<Rightarrow> jsstring
     \<Rightarrow> GenerateContentParameters list \<times> (error + json)" where
  "gradeExam e userCode originalQuestion metrics lang =
     (let prompt = gradePrompt userCode originalQuestion metrics lang in
      case awaitText e (request prompt examSchema (4 / 10)) of
        (calls, Inl err) \<Rightarrow> (calls, Inl err)
      | (calls, Inr t) \<Rightarrow>
          (case JSON_parse e t of
             None \<Rightarrow> (calls, Inl SyntaxError)
           | Some data \<Rightarrow> (calls, Inr data)))"



text \<open>The operations the module exports, and what running one does.\<close>

datatype operation =
    GenerateQuestion QuizConfig
  | SimulateJavaCode jsstring GeneratedQuestion jsstring
  | GradeExam jsstring GeneratedQuestion Metrics jsstring

fun perform :: "env \<Rightarrow> operation \<Rightarrow> GenerateContentParameters list \<times> (error + json)" where
  "perform e (GenerateQuestion quizConfig) = generateQuestion e quizConfig"
| "perform e (SimulateJavaCode userCode originalQuestion lang) =
     simulateJavaCode e userCode originalQuestion lang"
| "perform e (GradeExam userCode originalQuestion metrics lang) =
     gradeExam e userCode originalQuestion metrics lang"

fun promptOf :: "operation \<Rightarrow> jsstring" where
  "promptOf (GenerateQuestion quizConfig) = questionPrompt quizConfig"
| "promptOf (SimulateJavaCode userCode originalQuestion lang) =
     simulationPrompt userCode originalQuestion lang"
| "promptOf (GradeExam userCode originalQuestion metrics lang) =
     gradePrompt userCode originalQuestion metrics lang"

fun schemaOf :: "operation \<Rightarrow> Schema" where
  "schemaOf (GenerateQuestion _) = questionSchema"
| "schemaOf (SimulateJavaCode _ _ _) = simulationSchema"
| "schemaOf (GradeExam _ _ _ _) = examSchema"

fun temperatureOf :: "operation \<Rightarrow> rat" where
  "temperatureOf (GenerateQuestion _) = 7 / 10"
| "temperatureOf (SimulateJavaCode _ _ _) = 2 / 10"
| "temperatureOf (GradeExam _ _ _ _) = 4 / 10"


text \<open>The request an operation sends: its prompt, its schema, its temperature.\<close>

definition requestOf :: "operation \<Rightarrow> GenerateContentParameters" where
  "requestOf op = request (promptOf op) (schemaOf op) (temperatureOf op)"

section \<open>The editor component (components/Editor.tsx)\<close>

record Position =
  lineNumber :: nat
  column :: nat

record Range =
  startLineNumber :: nat
  startColumn :: nat
  endLineNumber :: nat
  endColumn :: nat

record ModelDecorationOptions =
  isWholeLine :: bool
  inlineClassName :: jsstring
  afterContentClassName :: jsstring
  hoverMessage :: jsstring

record ModelDeltaDecoration =
  range' :: Range
  options :: ModelDecorationOptions

text \<open>
  The Monaco editor is a library, so the model holds what \<^verbatim>\<open>updateDecorations\<close> uses of
  it. A text model maps an offset to a position (\<^verbatim>\<open>getPositionAt\<close>, a parameter) and
  owns the decorations, each under the identifier \<^verbatim>\<open>deltaDecorations\<close> gave it; an
  editor has a text model or none.
\<close>

record TextModel =
  getPositionAt :: "nat \<Rightarrow> Position"
  decorations :: "(nat \<times> ModelDeltaDecoration) list"
  nextDecorationId :: nat

record CodeEditor =
  getModel :: "TextModel option"

text \<open>
  \<^verbatim>\<open>editor.deltaDecorations(oldDecorations, newDecorations)\<close>: the decorations named by
  the old identifiers go, the new ones come in under fresh identifiers, which are
  returned. An editor without a text model returns the empty list.
\<close>

definition deltaDecorations ::
  "CodeEditor \<Rightarrow> nat list \<Rightarrow> ModelDeltaDecoration list \<Rightarrow> CodeEditor \<times> nat list" where
  "deltaDecorations editor oldDecorations newDecorations =
     (case getModel editor of
        None \<Rightarrow> (editor, [])
      | Some m \<Rightarrow>
          (let ids = [nextDecorationId m ..< nextDecorationId m + length newDecorations];
               kept = filter (\<lambda>(i, d). i \<notin> set oldDecorations) (decorations m)
           in (editor\<lparr>getModel := Some (m\<lparr>
                 decorations := kept @ zip ids newDecorations,
                 nextDecorationId := nextDecorationId m + length newDecorations\<rparr>)\<rparr>,
               ids)))"

text \<open>
  The loop \<^verbatim>\<open>while ((match = regex.exec(code)) !== null)\<close> over \<^verbatim>\<open>/____/g\<close>:
  \<open>execAll i s\<close> is the list of the \<^verbatim>\<open>match.index\<close> values when \<open>s\<close> is what is left
  of \<^verbatim>\<open>code\<close> from \<^verbatim>\<open>lastIndex = i\<close> on. After a match \<^verbatim>\<open>lastIndex\<close> is behind it.
\<close>

fun execAll :: "nat \<Rightarrow> jsstring \<Rightarrow> nat list" where
  "execAll i (a # b # c # d # rest) =
     (if a = underscore \<and> b = underscore \<and> c = underscore \<and> d = underscore
      then i # execAll (i + 4) rest
      else execAll (i + 1) (b # c # d # rest))"
| "execAll i _ = []"

definition blankDecoration :: "Position \<Rightarrow> Position \<Rightarrow> ModelDeltaDecoration" where
  "blankDecoration startPos endPos = \<lparr>
     range' = \<lparr>startLineNumber = lineNumber startPos, startColumn = column startPos,
       endLineNumber = lineNumber endPos, endColumn = column endPos\<rparr>,
     options = \<lparr>
       isWholeLine = False,
       inlineClassName = js ''blank-highlight'',
       afterContentClassName = js ''blank-badge'',
       hoverMessage = js ''**Action Required**: Replace `____` with the correct code.''\<rparr>\<rparr>"

text \<open>
  \<^verbatim>\<open>updateDecorations\<close>, with \<^verbatim>\<open>decorationsRef.current\<close> passed in and returned. A
  position is an object, so \<^verbatim>\<open>startPos && endPos\<close> fails only when
  \<^verbatim>\<open>editor.getModel()\<close> is \<^verbatim>\<open>null\<close>; then nothing is pushed.
\<close>

definition updateDecorations ::
  "CodeEditor \<Rightarrow> nat list \<Rightarrow> jsstring \<Rightarrow> CodeEditor \<times> nat list" where
  "updateDecorations editor decorationsRef code =
     (if code = [] then (editor, decorationsRef)
      else
        (let matches =
           (case getModel editor of
              None \<Rightarrow> []
            | Some m \<Rightarrow>
                map (\<lambda>index. blankDecoration (getPositionAt m index) (getPositionAt m (index + 4)))
                  (execAll 0 code))
         in deltaDecorations editor decorationsRef matches))"


section \<open>The application component (App)\<close>

text \<open>
  The state variables of \<^verbatim>\<open>App\<close>, the ref \<^verbatim>\<open>timerRef\<close>, and of the browser the
  interval timers the component has started and not cleared (handle and delay) with the
  next handle \<^verbatim>\<open>window.setInterval\<close> will return.

  \<^verbatim>\<open>examResult\<close> holds what \<^verbatim>\<open>gradeExam\<close> resolved with, which is whatever \<^verbatim>\<open>JSON.parse\<close>
  returned: the effect and the render read it as a condition, so it is a JSON value here,
  \<^verbatim>\<open>null\<close> being \<open>JNull\<close>. \<^verbatim>\<open>question\<close> and \<^verbatim>\<open>simulationResult\<close> keep their declared
  types: what \<^verbatim>\<open>generateQuestion\<close> returns is always an object, and no condition below
  reads \<^verbatim>\<open>simulationResult\<close>.
\<close>

record AppState =
  config :: QuizConfig
  question :: "GeneratedQuestion option"
  userCode :: jsstring
  activeTab :: jsstring
  simulationResult :: "SimulationResult option"
  examResult :: json
  startTime :: nat
  attempts :: nat
  elapsedTime :: nat
  isGenerating :: bool
  isSimulating :: bool
  isGrading :: bool
  error :: "jsstring option"
  timerRef :: "nat option"
  intervals :: "(nat \<times> nat) list"
  nextHandle :: nat

definition initialState :: AppState where
  "initialState = \<lparr>
     config = \<lparr>difficulty = BEGINNER, topic = VARIABLES, taskType = FILL_IN_BLANK,
       language = English\<rparr>,
     question = None,
     userCode = [],
     activeTab = js ''Main.java'',
     simulationResult = None,
     examResult = JNull,
     startTime = 0,
     attempts = 0,
     elapsedTime = 0,
     isGenerating = False,
     isSimulating = False,
     isGrading = False,
     error = None,
     timerRef = None,
     intervals = [],
     nextHandle = 1\<rparr>"

text \<open>\<^verbatim>\<open>if (timerRef.current) clearInterval(timerRef.current)\<close>; the handle 0 is falsy.\<close>

definition clearTimer :: "AppState \<Rightarrow> AppState" where
  "clearTimer s =
     (case timerRef s of
        None \<Rightarrow> s
      | Some h \<Rightarrow>
          if h = 0 then s
          else s\<lparr>intervals := filter (\<lambda>(h', d). h' \<noteq> h) (intervals s)\<rparr>)"

text \<open>
  The body of the timer effect. \<open>now\<close> is \<^verbatim>\<open>Date.now()\<close>. The interval's callback is
  \<^verbatim>\<open>setElapsedTime(prev => prev + 1)\<close>, see \<open>tick\<close>.
\<close>

definition timerEffect :: "nat \<Rightarrow> AppState \<Rightarrow> AppState" where
  "timerEffect now s =
     (if question s \<noteq> None \<and> \<not> truthy (examResult s) then
        s\<lparr>startTime := now,
          elapsedTime := 0,
          attempts := 0,
          timerRef := Some (nextHandle s),
          intervals := (nextHandle s, 1000) # intervals s,
          nextHandle := nextHandle s + 1\<rparr>
      else clearTimer s)"

text \<open>
  A render after a batch of state updates: when a dependency of the effect
  (\<^verbatim>\<open>question\<close>, \<^verbatim>\<open>examResult\<close>) has changed, the cleanup of the previous effect runs and
  then the effect. Dependencies are compared with \<^verbatim>\<open>Object.is\<close>, so an object that has
  just been parsed always counts as a change, and \<^verbatim>\<open>null\<close> after \<^verbatim>\<open>null\<close> never; each
  handler below says which it is.
\<close>

definition rerender :: "bool \<Rightarrow> nat \<Rightarrow> AppState \<Rightarrow> AppState" where
  "rerender depsChanged now s = (if depsChanged then timerEffect now (clearTimer s) else s)"

text \<open>\<^verbatim>\<open>e.message || fallback\<close>, with \<open>None\<close> for a missing message.\<close>

definition messageOr :: "jsstring option \<Rightarrow> jsstring \<Rightarrow> jsstring" where
  "messageOr m fallback = (case m of None \<Rightarrow> fallback | Some t \<Rightarrow> if t = [] then fallback else t)"

text \<open>
  An asynchronous handler is two transitions: the part up to its \<^verbatim>\<open>await\<close>, which runs
  at the click, and the part behind it, which runs when the promise has settled with an
  error (its message) or a value. The updates of one part are one batch.
\<close>

definition handleStartQuiz :: "nat \<Rightarrow> AppState \<Rightarrow> AppState" where
  "handleStartQuiz now s =
     rerender (examResult s \<noteq> JNull) now
       (s\<lparr>isGenerating := True, error := None, simulationResult := None, examResult := JNull\<rparr>)"

definition handleStartQuiz_settled ::
  "jsstring option + GeneratedQuestion \<Rightarrow> nat \<Rightarrow> AppState \<Rightarrow> AppState" where
  "handleStartQuiz_settled r now s =
     (case r of
        Inr q \<Rightarrow>
          rerender True now
            (s\<lparr>question := Some q, userCode := codeSnippet q, activeTab := js ''Main.java'',
               isGenerating := False\<rparr>)
      | Inl m \<Rightarrow>
          s\<lparr>error := Some (messageOr m
               (js ''Failed to generate question. Please check API Key.'')),
            isGenerating := False\<rparr>)"

definition handleRunCode :: "AppState \<Rightarrow> AppState" where
  "handleRunCode s =
     (case question s of
        None \<Rightarrow> s
      | Some q \<Rightarrow> s\<lparr>isSimulating := True, simulationResult := None, attempts := attempts s + 1\<rparr>)"

definition handleRunCode_settled :: "jsstring option + SimulationResult \<Rightarrow> AppState \<Rightarrow> AppState" where
  "handleRunCode_settled r s =
     (case r of
        Inr result \<Rightarrow> s\<lparr>simulationResult := Some result, isSimulating := False\<rparr>
      | Inl m \<Rightarrow>
          s\<lparr>error := Some (messageOr m (js ''Failed to simulate code.'')),
            isSimulating := False\<rparr>)"

definition handleFinishExam :: "AppState \<Rightarrow> AppState" where
  "handleFinishExam s =
     (case question s of
        None \<Rightarrow> s
      | Some q \<Rightarrow> s\<lparr>isGrading := True\<rparr>)"

text \<open>
  \<^verbatim>\<open>setExamResult(result)\<close> takes the value as it is. The \<^verbatim>\<open>clearInterval\<close> of the next
  line runs at once, the render after the batch; the effect runs again only if the value
  is not the one already stored.
\<close>

definition handleFinishExam_settled ::
  "jsstring option + json \<Rightarrow> nat \<Rightarrow> AppState \<Rightarrow> AppState" where
  "handleFinishExam_settled r now s =
     (case r of
        Inr result \<Rightarrow>
          rerender (\<not> sameValue (examResult s) result) now
            (clearTimer (s\<lparr>examResult := result\<rparr>)\<lparr>isGrading := False\<rparr>)
      | Inl m \<Rightarrow>
          s\<lparr>error := Some (messageOr m (js ''Failed to grade exam.'')),
            isGrading := False\<rparr>)"

definition handleReset :: "AppState \<Rightarrow> AppState" where
  "handleReset s =
     (case question s of
        None \<Rightarrow> s
      | Some q \<Rightarrow>
          s\<lparr>userCode := initialCode q, simulationResult := None, attempts := attempts s + 1\<rparr>)"

definition handleBackToSetup :: "nat \<Rightarrow> AppState \<Rightarrow> AppState" where
  "handleBackToSetup now s =
     rerender (question s \<noteq> None \<or> examResult s \<noteq> JNull) now
       (s\<lparr>question := None, userCode := [], simulationResult := None, examResult := JNull,
          error := None\<rparr>)"

text \<open>The button \<^verbatim>\<open>Review Code\<close> of the result dialog: \<^verbatim>\<open>setExamResult(null)\<close>.\<close>

definition reviewCode :: "nat \<Rightarrow> AppState \<Rightarrow> AppState" where
  "reviewCode now s = rerender (examResult s \<noteq> JNull) now (s\<lparr>examResult := JNull\<rparr>)"

text \<open>An interval that has not been cleared fires: \<^verbatim>\<open>setElapsedTime(prev => prev + 1)\<close>.\<close>

definition tick :: "nat \<Rightarrow> AppState \<Rightarrow> AppState" where
  "tick h s = (if h \<in> fst ` set (intervals s) then s\<lparr>elapsedTime := elapsedTime s + 1\<rparr> else s)"

text \<open>What the render function shows and which controls it disables.\<close>

datatype screen = LoadingScreen | SetupScreen | QuizScreen

definition screenOf :: "AppState \<Rightarrow> screen" where
  "screenOf s =
     (if isGenerating s then LoadingScreen
      else if question s = None then SetupScreen else QuizScreen)"

definition editorReadOnly :: "AppState \<Rightarrow> bool" where
  "editorReadOnly s = truthy (examResult s)"

definition resetDisabled :: "AppState \<Rightarrow> bool" where
  "resetDisabled s = truthy (examResult s)"

definition runDisabled :: "AppState \<Rightarrow> bool" where
  "runDisabled s = (isSimulating s \<or> truthy (examResult s))"

definition finishDisabled :: "AppState \<Rightarrow> bool" where
  "finishDisabled s = (isGrading s \<or> truthy (examResult s))"

datatype event =
    StartQuiz
  | StartQuizSettled "jsstring option + GeneratedQuestion"
  | RunCode
  | RunCodeSettled "jsstring option + SimulationResult"
  | FinishExam
  | FinishExamSettled "jsstring option + json"
  | Reset
  | BackToSetup
  | ReviewCode
  | CodeChange jsstring
  | FileChange jsstring
  | SetConfig QuizConfig
  | DismissError
  | Tick nat

fun step :: "nat \<Rightarrow> AppState \<Rightarrow> event \<Rightarrow> AppState" where
  "step now s StartQuiz = handleStartQuiz now s"
| "step now s (StartQuizSettled r) = handleStartQuiz_settled r now s"
| "step now s RunCode = handleRunCode s"
| "step now s (RunCodeSettled r) = handleRunCode_settled r s"
| "step now s FinishExam = handleFinishExam s"
| "step now s (FinishExamSettled r) = handleFinishExam_settled r now s"
| "step now s Reset = handleReset s"
| "step now s BackToSetup = handleBackToSetup now s"
| "step now s ReviewCode = reviewCode now s"
| "step now s (CodeChange newCode) = s\<lparr>userCode := newCode\<rparr>"
| "step now s (FileChange fileName) = s\<lparr>activeTab := fileName\<rparr>"
| "step now s (SetConfig c) = s\<lparr>config := c\<rparr>"
| "step now s DismissError = s\<lparr>error := None\<rparr>"
| "step now s (Tick h) = tick h s"

text \<open>
  Which events a state offers: a click needs its control on the screen and enabled. A
  promise may settle and a timer may fire at any time, so the states the model reaches
  include those the program reaches.
\<close>

fun offered :: "AppState \<Rightarrow> event \<Rightarrow> bool" where
  "offered s StartQuiz = (screenOf s = SetupScreen)"
| "offered s RunCode = (screenOf s = QuizScreen \<and> \<not> runDisabled s)"
| "offered s FinishExam = (screenOf s = QuizScreen \<and> \<not> finishDisabled s)"
| "offered s Reset = (screenOf s = QuizScreen \<and> \<not> resetDisabled s)"
| "offered s BackToSetup = (screenOf s = QuizScreen)"
| "offered s ReviewCode = (screenOf s = QuizScreen \<and> truthy (examResult s))"
| "offered s (CodeChange newCode) = (screenOf s = QuizScreen \<and> \<not> editorReadOnly s)"
| "offered s (FileChange fileName) = (screenOf s = QuizScreen)"
| "offered s (SetConfig c) = (screenOf s = SetupScreen)"
| "offered s DismissError = (error s \<noteq> None)"
| "offered s _ = True"

inductive reachable :: "AppState \<Rightarrow> bool" where
  init: "reachable initialState"
| step: "reachable s \<Longrightarrow> offered s ev \<Longrightarrow> reachable (step now s ev)"

text \<open>The call a handler issues at the click, from the state it sees.\<close>

fun issued :: "AppState \<Rightarrow> event \<Rightarrow> operation option" where
  "issued s StartQuiz = Some (GenerateQuestion (config s))"
| "issued s RunCode =
     (case question s of
        None \<Rightarrow> None
      | Some q \<Rightarrow> Some (SimulateJavaCode (userCode s) q (LanguageValue (language (config s)))))"
| "issued s FinishExam =
     (case question s of
        None \<Rightarrow> None
      | Some q \<Rightarrow>
          Some (GradeExam (userCode s) q
            \<lparr>timeSpentSeconds = elapsedTime s, attempts = attempts s\<rparr>
            (LanguageValue (language (config s)))))"
| "issued s _ = None"

text \<open>
  The effect starts the timer in the states with a question and no exam result.
  \<open>timerInv\<close> is the invariant of the reachable states the proofs below rest on: the only
  timer there can be is the one \<open>timerRef\<close> names, and it is there only in such a state.
\<close>

definition active :: "AppState \<Rightarrow> bool" where
  "active s = (question s \<noteq> None \<and> \<not> truthy (examResult s))"

definition timerInv :: "AppState \<Rightarrow> bool" where
  "timerInv s =
     (0 < nextHandle s
      \<and> (\<forall>h. timerRef s = Some h \<longrightarrow> 0 < h \<and> h < nextHandle s)
      \<and> (intervals s = []
           \<or> active s \<and> (\<exists>h. timerRef s = Some h \<and> intervals s = [(h, 1000)]))
      \<and> (isGenerating s \<longrightarrow> question s = None))"

section \<open>Example inputs\<close>

definition exampleQuestion :: GeneratedQuestion where
  "exampleQuestion = \<lparr>title = js ''Sum'', instructions = js ''Fill in the blank.'',
     codeSnippet = js ''int x = ____;'', initialCode = js ''int x = ____;'',
     solution = js ''int x = 1;'', explanation = js ''A literal.''\<rparr>"

definition exampleConfig :: QuizConfig where
  "exampleConfig = \<lparr>difficulty = BEGINNER, topic = VARIABLES, taskType = FILL_IN_BLANK,
     language = English\<rparr>"

text \<open>
  An environment with a key, whose call always answers with the text \<open>t\<close>, and whose
  \<^verbatim>\<open>JSON.parse\<close> knows that text only.
\<close>

definition exampleEnv :: "jsstring \<Rightarrow> json \<Rightarrow> env" where
  "exampleEnv t data = \<lparr>
     API_KEY = Some (js ''key''),
     generateContent = (\<lambda>ai req. Inr \<lparr>text' = Some t\<rparr>),
     JSON_parse = (\<lambda>x. if x = t \<and> x \<noteq> [] then Some data else None)\<rparr>"

definition exampleGrade :: json where
  "exampleGrade = JObject [(js ''grade'', JNumber 7), (js ''label'', JString (js ''Superb'')),
     (js ''feedback'', JString []), (js ''styleScore'', JNumber 250),
     (js ''correctnessScore'', JNumber (- 5))]"

definition brokenEnv :: env where
  "brokenEnv = exampleEnv (js ''{}'') (JObject [])"

definition commentedEnv :: env where
  "commentedEnv = exampleEnv (js ''{\"title\":\"T\",\"codeSnippet\":\"x; // f\",\"solution\":\"x; // s\"}'')
     (JObject [(js ''title'', JString (js ''T'')), (js ''codeSnippet'', JString (js ''x; // f'')),
        (js ''solution'', JString (js ''x; // s''))])"

definition blockEnv :: env where
  "blockEnv = exampleEnv (js ''{\"codeSnippet\":\"/*a*/ y;\"}'')
     (JObject [(js ''codeSnippet'', JString (js ''/*a*/ y;''))])"

definition exampleModel :: TextModel where
  "exampleModel = \<lparr>
     getPositionAt = (\<lambda>offset. \<lparr>lineNumber = 1, column = offset + 1\<rparr>),
     decorations = [(0, blankDecoration \<lparr>lineNumber = 1, column = 1\<rparr> \<lparr>lineNumber = 1, column = 5\<rparr>)],
     nextDecorationId = 1\<rparr>"

definition exampleEditor :: CodeEditor where
  "exampleEditor = \<lparr>getModel = Some exampleModel\<rparr>"

text \<open>An editor whose \<^verbatim>\<open>getModel()\<close> returns \<^verbatim>\<open>null\<close>.\<close>

definition detachedEditor :: CodeEditor where
  "detachedEditor = \<lparr>getModel = None\<rparr>"

definition exampleExam :: json where
  "exampleExam = JObject [(js ''grade'', JNumber 5), (js ''label'', JString (js ''Very Good'')),
     (js ''feedback'', JString (js ''Fine.'')), (js ''styleScore'', JNumber 90),
     (js ''correctnessScore'', JNumber 100)]"

text \<open>An environment whose call answers with the text \<^verbatim>\<open>null\<close>.\<close>

definition nullEnv :: env where
  "nullEnv = exampleEnv (js ''null'') JNull"

text \<open>
  States of a run: a question on the screen, a simulation in flight, a graded exam, and a
  grading that has settled with \<^verbatim>\<open>null\<close>.
\<close>

definition questionState :: AppState where
  "questionState =
     step 0 (step 0 initialState StartQuiz) (StartQuizSettled (Inr exampleQuestion))"

definition runningState :: AppState where
  "runningState =
     step 0 (step 0 (step 0 initialState StartQuiz) (StartQuizSettled (Inr exampleQuestion)))
       RunCode"

definition gradedState :: AppState where
  "gradedState = step 0 (step 0 questionState FinishExam) (FinishExamSettled (Inr exampleExam))"

definition stalledState :: AppState where
  "stalledState = step 0 (step 0 questionState FinishExam) (FinishExamSettled (Inr JNull))"

section \<open>The scans compute the replaces\<close>

lemma not_space [simp]: "\<not> isSpace slash" "\<not> isSpace star"
  by (simp_all add: isSpace_def isLineTerminator_def)

lemma space_LF [simp]: "isSpace LF" "isCRLF LF" "isLineTerminator LF"
  by (simp_all add: isSpace_def isLineTerminator_def isCRLF_def)

lemma CRLF_space: "isCRLF c \<Longrightarrow> isSpace c"
  by (auto simp: isSpace_def isLineTerminator_def isCRLF_def)

lemma LT_space: "isLineTerminator c \<Longrightarrow> isSpace c"
  by (auto simp: isSpace_def)

lemma firstSome_hit: "f k = Some r \<Longrightarrow> firstSome f (k # ks) = Some r"
  by simp

lemma firstSome_map: "firstSome f (map g ks) = firstSome (\<lambda>k. f (g k)) ks"
  by (induction ks) (auto split: option.splits)

lemma upt_rev_Suc: "n \<le> m \<Longrightarrow> rev [n ..< Suc m] = m # rev [n ..< m]"
  by simp

lemma drop_takeWhile: "drop (length (takeWhile P xs)) xs = dropWhile P xs"
  by (simp add: dropWhile_eq_drop)

lemma matchHere_Eol:
  "matchHere (Eol # r) q t =
     (if t = [] \<or> isLineTerminator (hd t) then matchHere r q t else None)"
  by (cases t) simp_all

lemma matchHere_One:
  "matchHere (One P # r) q t =
     (case t of [] \<Rightarrow> None | c # cs \<Rightarrow> if P c then matchHere r (Some c) cs else None)"
  by simp

lemma matchHere_Greedy:
  "matchHere (Greedy P n # r) q t =
     firstSome (\<lambda>k. matchHere r (lastOr q (take k t)) (drop k t))
       (rev [n ..< Suc (length (takeWhile P t))])"
  by simp

lemma matchHere_Lazy:
  "matchHere (Lazy P # r) q t =
     firstSome (\<lambda>k. matchHere r (lastOr q (take k t)) (drop k t))
       [0 ..< Suc (length (takeWhile P t))]"
  by simp

lemma matchHere_Bol:
  "matchHere (Bol # r) q t =
     (if q = None \<or> isLineTerminator (the q) then matchHere r q t else None)"
  by (cases q) simp_all

lemma matchHere_lineComment:
  "matchHere lineCommentRe prev s =
     (case s of
        c # d # cs \<Rightarrow>
          if c = slash \<and> d = slash then Some (dropWhile (\<lambda>x. \<not> isLineTerminator x) cs) else None
      | _ \<Rightarrow> None)"
proof -
  have g: "matchHere [Greedy (\<lambda>c. \<not> isLineTerminator c) 0, Eol] q cs
      = Some (dropWhile (\<lambda>x. \<not> isLineTerminator x) cs)" for q cs
  proof -
    let ?P = "\<lambda>c. \<not> isLineTerminator c"
    let ?m = "length (takeWhile ?P cs)"
    have "dropWhile ?P cs = [] \<or> isLineTerminator (hd (dropWhile ?P cs))"
      using hd_dropWhile [of ?P cs] by blast
    then have "matchHere [Eol] (lastOr q (take ?m cs)) (drop ?m cs) = Some (dropWhile ?P cs)"
      by (simp only: matchHere_Eol drop_takeWhile matchHere.simps(1) if_True)
    then have "firstSome (\<lambda>k. matchHere [Eol] (lastOr q (take k cs)) (drop k cs))
        (?m # rev [0 ..< ?m]) = Some (dropWhile ?P cs)"
      by (rule firstSome_hit)
    then show ?thesis
      by (simp only: matchHere_Greedy upt_rev_Suc [OF le0])
  qed
  show ?thesis
    by (cases s rule: removeLineComments.cases)
       (simp_all only: lineCommentRe_def matchHere_One g list.case if_True if_False
          split: if_splits, simp_all)
qed

declare matchHere.simps(2) [simp del]

lemma firstSome_upt_Cons:
  "firstSome f [0 ..< Suc (Suc n)] =
     (case f 0 of Some r \<Rightarrow> Some r | None \<Rightarrow> firstSome (\<lambda>k. f (Suc k)) [0 ..< Suc n])"
proof -
  have "[0 ..< Suc (Suc n)] = 0 # map Suc [0 ..< Suc n]"
    by (metis map_Suc_upt upt_conv_Cons zero_less_Suc)
  then show ?thesis by (simp only: firstSome.simps firstSome_map)
qed

lemma findClose_closeAt:
  "findClose (a # as) = (case closeAt (a # as) of Some r \<Rightarrow> Some r | None \<Rightarrow> findClose as)"
  by (cases as) (simp_all add: closeAt_def)

lemma firstSome_findClose:
  "firstSome (\<lambda>k. closeAt (drop k cs)) [0 ..< Suc (length cs)] = findClose cs"
proof (induction cs)
  case Nil
  show ?case by (simp add: closeAt_def)
next
  case (Cons a as)
  have "firstSome (\<lambda>k. closeAt (drop k (a # as))) [0 ..< Suc (length (a # as))]
      = (case closeAt (a # as) of
           Some r \<Rightarrow> Some r
         | None \<Rightarrow> firstSome (\<lambda>k. closeAt (drop k as)) [0 ..< Suc (length as)])"
    by (simp only: length_Cons firstSome_upt_Cons drop_0 drop_Suc_Cons)
  also have "\<dots> = findClose (a # as)"
    by (simp only: Cons.IH findClose_closeAt)
  finally show ?case .
qed

lemma matchHere_blockComment:
  "matchHere blockCommentRe prev s =
     (case s of
        c # d # cs \<Rightarrow> if c = slash \<and> d = star then findClose cs else None
      | _ \<Rightarrow> None)"
proof -
  let ?close = "[One (\<lambda>c. c = star), One (\<lambda>c. c = slash)]"
  have close: "matchHere ?close q t = closeAt t" for q t
    by (cases t rule: findClose.cases) (simp_all add: matchHere_One closeAt_def)
  have all: "takeWhile (\<lambda>c. True) cs = cs" for cs :: jsstring by simp
  have lazy: "matchHere (Lazy (\<lambda>c. True) # ?close) q cs = findClose cs" for q cs
    by (simp only: matchHere_Lazy close all firstSome_findClose)
  show ?thesis
  proof (cases s rule: removeBlockComments.cases)
    case (3 c d cs)
    then show ?thesis
      by (simp add: blockCommentRe_def matchHere_One lazy del: upt_Suc)
  qed (simp_all add: blockCommentRe_def matchHere_One)
qed

lemma matchHere_newlines:
  "matchHere newlinesRe prev s =
     (if 3 \<le> length (takeWhile (\<lambda>x. x = LF) s)
      then Some (dropWhile (\<lambda>x. x = LF) s) else None)"
proof (cases "3 \<le> length (takeWhile (\<lambda>x. x = LF) s)")
  case True
  then have "rev [3 ..< Suc (length (takeWhile (\<lambda>x. x = LF) s))]
      = length (takeWhile (\<lambda>x. x = LF) s) # rev [3 ..< length (takeWhile (\<lambda>x. x = LF) s)]"
    by (rule upt_rev_Suc)
  with True show ?thesis
    by (simp add: newlinesRe_def matchHere_Greedy drop_takeWhile del: upt_Suc)
next
  case False
  then show ?thesis by (simp add: newlinesRe_def matchHere_Greedy)
qed

text \<open>The backtracking of the greedy white space, from the right end of the run.\<close>

lemma backtrack_run:
  "firstSome (\<lambda>k. matchHere [One isCRLF] (lastOr q (take k (run @ t))) (drop k (run @ t)))
     (rev [0 ..< length run])
   = (if list_ex isCRLF run
      then Some (rev (takeWhile (\<lambda>c. \<not> isCRLF c) (rev run)) @ t) else None)"
proof (induction run arbitrary: t rule: rev_induct)
  case Nil
  show ?case by simp
next
  case (snoc z run)
  have "firstSome (\<lambda>k. matchHere [One isCRLF] (lastOr q (take k ((run @ [z]) @ t)))
           (drop k ((run @ [z]) @ t))) (rev [0 ..< length (run @ [z])])
      = (if isCRLF z then Some t
         else firstSome (\<lambda>k. matchHere [One isCRLF] (lastOr q (take k (run @ z # t)))
           (drop k (run @ z # t))) (rev [0 ..< length run]))"
    by (simp add: matchHere_One)
  also have "firstSome (\<lambda>k. matchHere [One isCRLF] (lastOr q (take k (run @ z # t)))
           (drop k (run @ z # t))) (rev [0 ..< length run])
      = (if list_ex isCRLF run
         then Some (rev (takeWhile (\<lambda>c. \<not> isCRLF c) (rev run)) @ z # t) else None)"
    by (rule snoc.IH)
  finally show ?case by simp
qed

lemma matchHere_blankLine:
  "matchHere blankLineRe prev s =
     (if prev = None \<or> isLineTerminator (the prev) then matchBlank s else None)"
proof -
  let ?run = "takeWhile isSpace s" and ?d = "dropWhile isSpace s"
  have s: "s = ?run @ ?d" by simp
  have one: "t = [] \<or> \<not> isCRLF (hd t) \<Longrightarrow> matchHere [One isCRLF] q t = None" for q t
    by (cases t) (simp_all add: matchHere_One)
  have "?d = [] \<or> \<not> isCRLF (hd ?d)"
    using hd_dropWhile [of isSpace s] CRLF_space by blast
  then have "matchHere [One isCRLF] q ?d = None" for q by (rule one)
  then have top: "matchHere [One isCRLF] q (drop (length ?run) s) = None" for q
    by (simp only: drop_takeWhile)
  have "matchHere [Greedy isSpace 0, One isCRLF] prev s
      = firstSome (\<lambda>k. matchHere [One isCRLF] (lastOr prev (take k s)) (drop k s))
          (length ?run # rev [0 ..< length ?run])"
    by (simp only: matchHere_Greedy upt_rev_Suc [OF le0])
  also have "\<dots> = firstSome (\<lambda>k. matchHere [One isCRLF] (lastOr prev (take k s)) (drop k s))
          (rev [0 ..< length ?run])"
    by (simp add: top)
  also have "\<dots> = firstSome (\<lambda>k. matchHere [One isCRLF] (lastOr prev (take k (?run @ ?d)))
          (drop k (?run @ ?d))) (rev [0 ..< length ?run])"
    by simp
  also have "\<dots> = (if list_ex isCRLF ?run
      then Some (rev (takeWhile (\<lambda>c. \<not> isCRLF c) (rev ?run)) @ ?d) else None)"
    by (rule backtrack_run)
  also have "\<dots> = matchBlank s" by (simp add: matchBlank_def Let_def)
  finally show ?thesis by (simp add: blankLineRe_def matchHere_Bol)
qed

lemma replaceAll_Nil: "matchHere p prev [] = None \<Longrightarrow> replaceAll p rep prev [] = []"
  by (subst replaceAll.simps) simp

lemma replaceAll_skip:
  "matchHere p prev (c # cs) = None \<Longrightarrow>
   replaceAll p rep prev (c # cs) = c # replaceAll p rep (Some c) cs"
  by (subst replaceAll.simps) simp

lemma replaceAll_hit:
  "matchHere p prev s = Some rest \<Longrightarrow> length rest < length s \<Longrightarrow>
   replaceAll p rep prev s =
     rep @ replaceAll p rep (lastOr prev (take (length s - length rest) s)) rest"
  by (subst replaceAll.simps) simp

lemma replaceAll_lineComment:
  "replaceAll lineCommentRe [] prev s = removeLineComments s"
proof (induction s arbitrary: prev rule: removeLineComments.induct)
  case 1
  show ?case by (simp add: replaceAll_Nil matchHere_lineComment)
next
  case (2 c)
  show ?case by (simp add: replaceAll_Nil replaceAll_skip matchHere_lineComment)
next
  case (3 c d cs)
  show ?case
  proof (cases "c = slash \<and> d = slash")
    case True
    let ?rest = "dropWhile (\<lambda>x. \<not> isLineTerminator x) cs"
    from True have m: "matchHere lineCommentRe prev (c # d # cs) = Some ?rest"
      by (simp add: matchHere_lineComment)
    have "length ?rest \<le> length cs" by (rule length_dropWhile_le)
    then have "length ?rest < length (c # d # cs)" by simp
    from replaceAll_hit [OF m this] True "3.IH"(1) show ?thesis by simp
  next
    case False
    then have "matchHere lineCommentRe prev (c # d # cs) = None"
      by (auto simp: matchHere_lineComment)
    from replaceAll_skip [OF this] False "3.IH"(2) show ?thesis by auto
  qed
qed

lemma replaceAll_blockComment:
  "replaceAll blockCommentRe [] prev s = removeBlockComments s"
proof (induction s arbitrary: prev rule: removeBlockComments.induct)
  case 1
  show ?case by (simp add: replaceAll_Nil matchHere_blockComment)
next
  case (2 c)
  show ?case by (simp add: replaceAll_Nil replaceAll_skip matchHere_blockComment)
next
  case (3 c d cs)
  show ?case
  proof (cases "c = slash \<and> d = star")
    case True
    show ?thesis
    proof (cases "findClose cs")
      case None
      with True have "matchHere blockCommentRe prev (c # d # cs) = None"
        by (simp add: matchHere_blockComment)
      from replaceAll_skip [OF this] True None "3.IH"(1) show ?thesis by simp
    next
      case (Some rest)
      with True have m: "matchHere blockCommentRe prev (c # d # cs) = Some rest"
        by (simp add: matchHere_blockComment)
      from Some have "length rest < length cs" by (rule findClose_length)
      then have "length rest < length (c # d # cs)" by simp
      from replaceAll_hit [OF m this] True Some "3.IH"(2) show ?thesis by simp
    qed
  next
    case False
    then have "matchHere blockCommentRe prev (c # d # cs) = None"
      by (auto simp: matchHere_blockComment)
    from replaceAll_skip [OF this] False "3.IH"(3) show ?thesis by auto
  qed
qed

lemma CRLF_LT: "isCRLF c \<Longrightarrow> isLineTerminator c"
  by (auto simp: isCRLF_def isLineTerminator_def)

lemma matchBlank_last:
  assumes "matchBlank s = Some rest"
  shows "take (length s - length rest) s \<noteq> []
     \<and> isCRLF (last (take (length s - length rest) s))"
proof -
  let ?run = "takeWhile isSpace s" and ?D = "dropWhile isSpace s"
  let ?B = "rev (takeWhile (\<lambda>c. \<not> isCRLF c) (rev ?run))"
  let ?A = "rev (dropWhile (\<lambda>c. \<not> isCRLF c) (rev ?run))"
  from assms have ex: "\<exists>c \<in> set ?run. isCRLF c" and rest: "rest = ?B @ ?D"
    by (auto simp: matchBlank_def Let_def list_ex_iff split: if_splits)
  have "rev ?run = rev ?B @ rev ?A" by simp
  then have run: "?run = ?A @ ?B" by (metis rev_append rev_rev_ident)
  have "s = (?A @ ?B) @ ?D" using run by (metis takeWhile_dropWhile_id)
  then have s: "s = ?A @ rest" by (simp only: rest append_assoc)
  then have "length s = length ?A + length rest" by (metis length_append)
  then have "take (length s - length rest) s = take (length ?A) (?A @ rest)"
    using s by simp
  then have t: "take (length s - length rest) s = ?A" by simp
  have ne: "dropWhile (\<lambda>c. \<not> isCRLF c) (rev ?run) \<noteq> []"
    using ex by (auto simp: dropWhile_eq_Nil_conv)
  from hd_dropWhile [OF ne] have "isCRLF (hd (dropWhile (\<lambda>c. \<not> isCRLF c) (rev ?run)))"
    by simp
  with ne have "isCRLF (last ?A)" by (simp add: last_rev)
  with t ne show ?thesis by simp
qed

lemma replaceAll_blankLine:
  "replaceAll blankLineRe [LF] prev s
     = collapseBlankLines (prev = None \<or> isLineTerminator (the prev)) s"
proof (induction "prev = None \<or> isLineTerminator (the prev)" s arbitrary: prev
    rule: collapseBlankLines.induct)
  case 1
  show ?case by (simp add: replaceAll_Nil matchHere_blankLine matchBlank_def)
next
  case (2 c cs)
  let ?b = "prev = None \<or> isLineTerminator (the prev)"
  show ?case
  proof (cases "?b \<and> matchBlank (c # cs) \<noteq> None")
    case True
    then obtain rest where r: "matchBlank (c # cs) = Some rest" by auto
    with True have m: "matchHere blankLineRe prev (c # cs) = Some rest"
      by (simp add: matchHere_blankLine)
    from r have l: "length rest < length (c # cs)" by (rule matchBlank_length)
    let ?q = "lastOr prev (take (length (c # cs) - length rest) (c # cs))"
    from matchBlank_last [OF r] have "?q \<noteq> None \<and> isLineTerminator (the ?q)"
      by (simp add: lastOr_def CRLF_LT)
    then have q: "(?q = None \<or> isLineTerminator (the ?q)) = True" by simp
    from True r have "replaceAll blankLineRe [LF] ?q rest = collapseBlankLines True rest"
      using "2.hyps"(2) [of rest ?q] q by simp
    with replaceAll_hit [OF m l] True r show ?thesis by simp
  next
    case False
    then have m: "matchHere blankLineRe prev (c # cs) = None"
      by (auto simp: matchHere_blankLine)
    have "replaceAll blankLineRe [LF] (Some c) cs = collapseBlankLines (isLineTerminator c) cs"
    proof (cases ?b)
      case True
      with False have "matchBlank (c # cs) = None" by simp
      with True "2.hyps"(1) [of "Some c"] show ?thesis by simp
    next
      case False
      with "2.hyps"(3) [of "Some c"] show ?thesis by simp
    qed
    with replaceAll_skip [OF m] False show ?thesis by (auto split: option.splits)
  qed
qed

lemma replaceAll_newlines:
  "replaceAll newlinesRe [LF, LF] prev s = collapseNewlines s"
proof (induction s arbitrary: prev rule: collapseNewlines.induct)
  case 1
  show ?case by (simp add: replaceAll_Nil matchHere_newlines)
next
  case (2 c cs)
  show ?case
  proof (cases "3 \<le> length (takeWhile (\<lambda>x. x = LF) (c # cs))")
    case True
    let ?rest = "dropWhile (\<lambda>x. x = LF) (c # cs)"
    from True have m: "matchHere newlinesRe prev (c # cs) = Some ?rest"
      by (simp only: matchHere_newlines if_True)
    have "length (takeWhile (\<lambda>x. x = LF) (c # cs)) + length ?rest = length (c # cs)"
      by (metis length_append takeWhile_dropWhile_id)
    with True have "length ?rest < length (c # cs)" by linarith
    from replaceAll_hit [OF m this] True "2.IH"(1) show ?thesis by simp
  next
    case False
    then have "matchHere newlinesRe prev (c # cs) = None"
      by (simp only: matchHere_newlines if_False)
    from replaceAll_skip [OF this] False "2.IH"(2) show ?thesis by simp
  qed
qed

text \<open>\<open>cleanCode\<close> in terms of the scans.\<close>

lemma cleanCode_scan:
  "cleanCode code =
     trim (collapseNewlines (collapseBlankLines True
       (removeBlockComments (removeLineComments code))))"
  by (simp add: cleanCode_def replaceAll_lineComment replaceAll_blockComment
      replaceAll_blankLine replaceAll_newlines)

section \<open>Properties of the service\<close>

lemma js_eq_iff [simp]: "js a = js b \<longleftrightarrow> a = b"
  by (simp add: js_def inj_map_eq_map inj_on_def)
lemma js_Nil_iff [simp]: "js a = [] \<longleftrightarrow> a = []"
  by (simp add: js_def)

lemmas cleanCode_eval = cleanCode_scan trim_def matchBlank_def isSpace_def isLineTerminator_def
  isCRLF_def js_def Let_def

lemma awaitText_key:
  "API_KEY e = Some k \<Longrightarrow> k \<noteq> [] \<Longrightarrow>
   awaitText e req =
     ([req], case generateContent e k req of
        Inl err \<Rightarrow> Inl err
      | Inr response \<Rightarrow>
          (case text' response of
             None \<Rightarrow> Inl (Error (js ''No response from Gemini''))
           | Some t \<Rightarrow> if t = [] then Inl (Error (js ''No response from Gemini'')) else Inr t))"
  by (simp add: awaitText_def getClient_def split: sum.splits option.splits)

lemma awaitText_nokey:
  "API_KEY e = None \<or> API_KEY e = Some [] \<Longrightarrow>
   awaitText e req = ([], Inl (Error (js ''API Key not found in environment'')))"
  by (auto simp: awaitText_def getClient_def)

lemma awaitText_Inr:
  "awaitText e req = (calls, Inr t) \<Longrightarrow>
   \<exists>k response. API_KEY e = Some k \<and> k \<noteq> [] \<and> calls = [req]
     \<and> generateContent e k req = Inr response \<and> text' response = Some t \<and> t \<noteq> []"
  by (auto simp: awaitText_def getClient_def split: option.splits sum.splits if_splits)

lemma perform_unfold:
  "perform e op =
     (case awaitText e (requestOf op) of
        (calls, Inl err) \<Rightarrow> (calls, Inl err)
      | (calls, Inr t) \<Rightarrow>
          (case JSON_parse e t of
             None \<Rightarrow> (calls, Inl SyntaxError)
           | Some data \<Rightarrow>
               (case op of
                  GenerateQuestion quizConfig \<Rightarrow>
                    (case data of
                       JObject ps \<Rightarrow>
                         (case map_of ps (js ''codeSnippet'') of
                            Some (JString snippet) \<Rightarrow>
                              (calls, Inr (JObject
                                 (AList.update (js ''initialCode'') (JString (cleanCode snippet))
                                   (AList.update (js ''codeSnippet'') (JString (cleanCode snippet)) ps))))
                          | _ \<Rightarrow> (calls, Inl TypeError))
                     | _ \<Rightarrow> (calls, Inl TypeError))
                | _ \<Rightarrow> (calls, Inr data))))"
  by (cases op)
     (simp_all add: requestOf_def generateQuestion_def simulateJavaCode_def gradeExam_def Let_def
        split: prod.splits sum.splits option.splits json.splits)

lemma perform_Inr:
  assumes "snd (perform e op) = Inr v"
  shows "\<exists>k response t data. API_KEY e = Some k \<and> k \<noteq> []
     \<and> generateContent e k (requestOf op) = Inr response \<and> text' response = Some t \<and> t \<noteq> []
     \<and> JSON_parse e t = Some data
     \<and> (case op of
           GenerateQuestion quizConfig \<Rightarrow>
             (\<exists>ps c. data = JObject ps \<and> map_of ps (js ''codeSnippet'') = Some (JString c)
                \<and> v = JObject (AList.update (js ''initialCode'') (JString (cleanCode c))
                      (AList.update (js ''codeSnippet'') (JString (cleanCode c)) ps)))
         | _ \<Rightarrow> v = data)"
proof (cases "awaitText e (requestOf op)")
  case (Pair calls r)
  show ?thesis
  proof (cases r)
    case (Inl err)
    with Pair assms show ?thesis by (simp add: perform_unfold)
  next
    case (Inr t)
    with Pair obtain k response where kr: "API_KEY e = Some k" "k \<noteq> []"
      "generateContent e k (requestOf op) = Inr response" "text' response = Some t" "t \<noteq> []"
      using awaitText_Inr by blast
    from assms Pair Inr obtain data where d: "JSON_parse e t = Some data"
      by (auto simp: perform_unfold split: option.splits)
    from assms Pair Inr d have
      "case op of
           GenerateQuestion quizConfig \<Rightarrow>
             (\<exists>ps c. data = JObject ps \<and> map_of ps (js ''codeSnippet'') = Some (JString c)
                \<and> v = JObject (AList.update (js ''initialCode'') (JString (cleanCode c))
                      (AList.update (js ''codeSnippet'') (JString (cleanCode c)) ps)))
         | _ \<Rightarrow> v = data"
      by (cases op) (auto simp: perform_unfold split: option.splits json.splits)
    with kr d show ?thesis by blast
  qed
qed

lemma commented_result:
  "generateQuestion commentedEnv exampleConfig =
     ([requestOf (GenerateQuestion exampleConfig)],
      Inr (JObject [(js ''title'', JString (js ''T'')), (js ''codeSnippet'', JString (js ''x;'')),
        (js ''solution'', JString (js ''x; // s'')), (js ''initialCode'', JString (js ''x;''))]))"
proof -
  have c: "cleanCode (js ''x; // f'') = js ''x;''"
    by (simp add: cleanCode_eval)
  have p: "map_of [(js ''title'', JString (js ''T'')), (js ''codeSnippet'', JString (js ''x; // f'')),
        (js ''solution'', JString (js ''x; // s''))] (js ''codeSnippet'') = Some (JString (js ''x; // f''))"
    by simp
  have u: "AList.update (js ''initialCode'') (JString (js ''x;''))
       (AList.update (js ''codeSnippet'') (JString (js ''x;''))
         [(js ''title'', JString (js ''T'')), (js ''codeSnippet'', JString (js ''x; // f'')),
          (js ''solution'', JString (js ''x; // s''))])
     = [(js ''title'', JString (js ''T'')), (js ''codeSnippet'', JString (js ''x;'')),
        (js ''solution'', JString (js ''x; // s'')), (js ''initialCode'', JString (js ''x;''))]"
    by simp
  show ?thesis
    unfolding generateQuestion_def commentedEnv_def exampleEnv_def requestOf_def
    by (simp add: awaitText_def getClient_def p c u Let_def)
qed

lemma block_result:
  "generateQuestion blockEnv exampleConfig =
     ([requestOf (GenerateQuestion exampleConfig)],
      Inr (JObject [(js ''codeSnippet'', JString (js ''y;'')), (js ''initialCode'', JString (js ''y;''))]))"
proof -
  have c: "cleanCode (js ''/*a*/ y;'') = js ''y;''"
    by (simp add: cleanCode_eval)
  show ?thesis
    unfolding generateQuestion_def blockEnv_def exampleEnv_def requestOf_def
    by (simp add: awaitText_def getClient_def c Let_def)
qed

lemma sublist_mid: "ys = ps @ xs @ ss \<Longrightarrow> sublist xs ys"
  by (auto simp: sublist_def)

lemma simulationPrompt_embeds:
  "sublist code (simulationPrompt code q lang)"
  "sublist (instructions q) (simulationPrompt code q lang)"
  "sublist (solution q) (simulationPrompt code q lang)"
  unfolding simulationPrompt_def
  by (rule sublist_mid [where ps = "_ @ instructions q @ _ @ solution q @ _"], simp,
      rule sublist_mid [where ps = "js _"], simp,
      rule sublist_mid [where ps = "_ @ instructions q @ _"], simp)

lemma gradePrompt_embeds:
  "sublist code (gradePrompt code q m lang)"
  "sublist (instructions q) (gradePrompt code q m lang)"
  "sublist (solution q) (gradePrompt code q m lang)"
  unfolding gradePrompt_def
  by (rule sublist_mid [where ps = "_ @ instructions q @ _ @ solution q @ _"], simp,
      rule sublist_mid [where ps = "js _"], simp,
      rule sublist_mid [where ps = "_ @ instructions q @ _"], simp)

text \<open>
  C2, as the code has it. The module has three operations. Each builds one request from
  one prompt string and the schema of its kind, which does not depend on the arguments.
  With a key in the environment it issues exactly that one call; without a key (unset or
  empty) it issues none. What \<open>simulateJavaCode\<close> and \<open>gradeExam\<close> return is the parsed
  response text; what \<open>generateQuestion\<close> returns is the parsed object with
  \<open>codeSnippet\<close> replaced by its cleaned form and \<open>initialCode\<close> set to the same.
\<close>

theorem operations_issue_one_call:
  "((\<exists>c. op = GenerateQuestion c) \<or> (\<exists>u q l. op = SimulateJavaCode u q l)
      \<or> (\<exists>u q m l. op = GradeExam u q m l))
   \<and> contents (requestOf op) = promptOf op
   \<and> responseSchema (GenerateContentParameters.config (requestOf op))
       = (case op of GenerateQuestion c \<Rightarrow> questionSchema
          | SimulateJavaCode u q l \<Rightarrow> simulationSchema
          | GradeExam u q m l \<Rightarrow> examSchema)
   \<and> (API_KEY e = Some k \<and> k \<noteq> [] \<longrightarrow> fst (perform e op) = [requestOf op])
   \<and> (API_KEY e = None \<or> API_KEY e = Some [] \<longrightarrow> fst (perform e op) = [])
   \<and> (\<forall>v. snd (perform e op) = Inr v \<longrightarrow>
         (\<exists>k response t data. API_KEY e = Some k
            \<and> generateContent e k (requestOf op) = Inr response
            \<and> text' response = Some t \<and> JSON_parse e t = Some data
            \<and> (case op of
                  GenerateQuestion c \<Rightarrow>
                    (\<exists>ps snippet. data = JObject ps
                       \<and> map_of ps (js ''codeSnippet'') = Some (JString snippet)
                       \<and> v = JObject (AList.update (js ''initialCode'') (JString (cleanCode snippet))
                             (AList.update (js ''codeSnippet'') (JString (cleanCode snippet)) ps)))
                | _ \<Rightarrow> v = data)))"
proof -
  have 1: "(\<exists>c. op = GenerateQuestion c) \<or> (\<exists>u q l. op = SimulateJavaCode u q l)
      \<or> (\<exists>u q m l. op = GradeExam u q m l)"
    by (cases op) auto
  have 2: "contents (requestOf op) = promptOf op"
    by (simp add: requestOf_def request_def)
  have 3: "responseSchema (GenerateContentParameters.config (requestOf op))
       = (case op of GenerateQuestion c \<Rightarrow> questionSchema
          | SimulateJavaCode u q l \<Rightarrow> simulationSchema
          | GradeExam u q m l \<Rightarrow> examSchema)"
    by (cases op) (simp_all add: requestOf_def request_def)
  have 4: "API_KEY e = Some k \<and> k \<noteq> [] \<longrightarrow> fst (perform e op) = [requestOf op]"
    by (auto simp: perform_unfold awaitText_key split: sum.splits option.splits
        operation.splits json.splits)
  have 5: "API_KEY e = None \<or> API_KEY e = Some [] \<longrightarrow> fst (perform e op) = []"
    by (auto simp: perform_unfold awaitText_nokey)
  have 6: "\<forall>v. snd (perform e op) = Inr v \<longrightarrow>
         (\<exists>k response t data. API_KEY e = Some k
            \<and> generateContent e k (requestOf op) = Inr response
            \<and> text' response = Some t \<and> JSON_parse e t = Some data
            \<and> (case op of
                  GenerateQuestion c \<Rightarrow>
                    (\<exists>ps snippet. data = JObject ps
                       \<and> map_of ps (js ''codeSnippet'') = Some (JString snippet)
                       \<and> v = JObject (AList.update (js ''initialCode'') (JString (cleanCode snippet))
                             (AList.update (js ''codeSnippet'') (JString (cleanCode snippet)) ps)))
                | _ \<Rightarrow> v = data))"
    using perform_Inr [of e op] by blast
  from 1 2 3 4 5 6 show ?thesis by blast
qed

theorem operations_issue_one_call_witness:
  "fst (perform commentedEnv (GenerateQuestion exampleConfig))
     = [requestOf (GenerateQuestion exampleConfig)]
   \<and> fst (perform (commentedEnv\<lparr>API_KEY := None\<rparr>) (GenerateQuestion exampleConfig)) = []
   \<and> (\<exists>v. snd (perform commentedEnv (GenerateQuestion exampleConfig)) = Inr v)"
  using operations_issue_one_call [of "GenerateQuestion exampleConfig" commentedEnv "js ''key''"]
    operations_issue_one_call [of "GenerateQuestion exampleConfig"
      "commentedEnv\<lparr>API_KEY := None\<rparr>" "js ''key''"]
    commented_result
  by (simp add: commentedEnv_def exampleEnv_def)

text \<open>
  C2 as stated fails: for a snippet with a comment \<open>generateQuestion\<close> returns an object
  that differs from the parsed response text, and without a key it issues no call.
\<close>

theorem generateQuestion_returns_cleaned_not_parsed:
  "JSON_parse commentedEnv (js ''{\"title\":\"T\",\"codeSnippet\":\"x; // f\",\"solution\":\"x; // s\"}'')
     = Some (JObject [(js ''title'', JString (js ''T'')),
         (js ''codeSnippet'', JString (js ''x; // f'')), (js ''solution'', JString (js ''x; // s''))])
   \<and> snd (generateQuestion commentedEnv exampleConfig)
     = Inr (JObject [(js ''title'', JString (js ''T'')), (js ''codeSnippet'', JString (js ''x;'')),
        (js ''solution'', JString (js ''x; // s'')), (js ''initialCode'', JString (js ''x;''))])
   \<and> JObject [(js ''title'', JString (js ''T'')), (js ''codeSnippet'', JString (js ''x;'')),
        (js ''solution'', JString (js ''x; // s'')), (js ''initialCode'', JString (js ''x;''))]
     \<noteq> JObject [(js ''title'', JString (js ''T'')),
         (js ''codeSnippet'', JString (js ''x; // f'')), (js ''solution'', JString (js ''x; // s''))]
   \<and> fst (generateQuestion (commentedEnv\<lparr>API_KEY := None\<rparr>) exampleConfig) = []"
proof -
  have "fst (generateQuestion (commentedEnv\<lparr>API_KEY := None\<rparr>) exampleConfig) = []"
    by (simp add: generateQuestion_def awaitText_nokey)
  moreover have "JSON_parse commentedEnv (js ''{\"title\":\"T\",\"codeSnippet\":\"x; // f\",\"solution\":\"x; // s\"}'')
     = Some (JObject [(js ''title'', JString (js ''T'')),
         (js ''codeSnippet'', JString (js ''x; // f'')), (js ''solution'', JString (js ''x; // s''))])"
    by (simp add: commentedEnv_def exampleEnv_def)
  ultimately show ?thesis
    by (simp add: commented_result)
qed

text \<open>
  C3. When the key is set and the response text parses, \<open>simulateJavaCode\<close> and
  \<open>gradeExam\<close> return exactly the parsed value, whatever it is: nothing is recomputed,
  clamped or validated (the example returns a grade of 7 and a style score of 250).
  \<^verbatim>\<open>JSON.parse\<close> rejects the empty text.
\<close>

theorem parsed_result_returned_unchanged:
  assumes "API_KEY e = Some k" and "k \<noteq> []"
    and "text' response = Some t" and "JSON_parse e t = Some data" and "JSON_parse e [] = None"
  shows "(generateContent e k (request (simulationPrompt code q lang) simulationSchema (2 / 10))
            = Inr response
          \<longrightarrow> snd (simulateJavaCode e code q lang) = Inr data)
       \<and> (generateContent e k (request (gradePrompt code q metrics lang) examSchema (4 / 10))
            = Inr response
          \<longrightarrow> snd (gradeExam e code q metrics lang) = Inr data)"
proof -
  from assms(4,5) have "t \<noteq> []" by auto
  with assms show ?thesis
    by (simp add: simulateJavaCode_def gradeExam_def awaitText_key)
qed

theorem parsed_result_returned_unchanged_witness:
  "snd (gradeExam (exampleEnv (js ''{\"grade\":7,\"label\":\"Superb\",\"feedback\":\"\",\"styleScore\":250,\"correctnessScore\":-5}'') exampleGrade) (js ''int x;'') exampleQuestion
          \<lparr>timeSpentSeconds = 5, attempts = 1\<rparr> (js ''English'')) = Inr exampleGrade
   \<and> getProp exampleGrade (js ''grade'') = Some (JNumber 7)
   \<and> getProp exampleGrade (js ''styleScore'') = Some (JNumber 250)
   \<and> snd (simulateJavaCode (exampleEnv (js ''{\"grade\":7,\"label\":\"Superb\",\"feedback\":\"\",\"styleScore\":250,\"correctnessScore\":-5}'') exampleGrade) (js ''int x;'')
          exampleQuestion (js ''English'')) = Inr exampleGrade"
  using parsed_result_returned_unchanged [of "exampleEnv (js ''{\"grade\":7,\"label\":\"Superb\",\"feedback\":\"\",\"styleScore\":250,\"correctnessScore\":-5}'') exampleGrade"
      "js ''key''" "\<lparr>text' = Some (js ''{\"grade\":7,\"label\":\"Superb\",\"feedback\":\"\",\"styleScore\":250,\"correctnessScore\":-5}'')\<rparr>" "js ''{\"grade\":7,\"label\":\"Superb\",\"feedback\":\"\",\"styleScore\":250,\"correctnessScore\":-5}''" exampleGrade
      "js ''int x;''" exampleQuestion "js ''English''" "\<lparr>timeSpentSeconds = 5, attempts = 1\<rparr>"]
  by (simp add: exampleEnv_def exampleGrade_def js_def)

text \<open>
  C4, as the code has it. The user's code, and the question's solution, stand verbatim in
  the simulation and grading prompts, also in the calls the handlers issue from the state.
  Of a generated question the solution is taken as parsed, the question object goes into
  the state as returned and its snippet into the editor; but the snippet of the response
  first goes through \<open>cleanCode\<close>, which rewrites the Java text.
\<close>

theorem code_verbatim_except_cleanCode:
  "sublist code (simulationPrompt code q lang)
   \<and> sublist code (gradePrompt code q m lang)
   \<and> sublist (solution q) (simulationPrompt code q lang)
   \<and> sublist (solution q) (gradePrompt code q m lang)
   \<and> (\<forall>op. issued s RunCode = Some op \<or> issued s FinishExam = Some op
         \<longrightarrow> sublist (userCode s) (promptOf op))
   \<and> (\<forall>v. snd (generateQuestion e quizConfig) = Inr v \<longrightarrow>
         (\<exists>k response t ps c. API_KEY e = Some k
            \<and> generateContent e k (requestOf (GenerateQuestion quizConfig)) = Inr response
            \<and> text' response = Some t \<and> JSON_parse e t = Some (JObject ps)
            \<and> map_of ps (js ''codeSnippet'') = Some (JString c)
            \<and> getProp v (js ''codeSnippet'') = Some (JString (cleanCode c))
            \<and> getProp v (js ''initialCode'') = Some (JString (cleanCode c))
            \<and> getProp v (js ''solution'') = map_of ps (js ''solution'')))
   \<and> userCode (handleStartQuiz_settled (Inr q) now s) = codeSnippet q
   \<and> question (handleStartQuiz_settled (Inr q) now s) = Some q
   \<and> userCode (step now s (CodeChange code)) = code"
proof -
  have a: "\<forall>op. issued s RunCode = Some op \<or> issued s FinishExam = Some op
         \<longrightarrow> sublist (userCode s) (promptOf op)"
    by (auto simp: simulationPrompt_embeds gradePrompt_embeds split: option.splits)
  have b: "\<forall>v. snd (generateQuestion e quizConfig) = Inr v \<longrightarrow>
         (\<exists>k response t ps c. API_KEY e = Some k
            \<and> generateContent e k (requestOf (GenerateQuestion quizConfig)) = Inr response
            \<and> text' response = Some t \<and> JSON_parse e t = Some (JObject ps)
            \<and> map_of ps (js ''codeSnippet'') = Some (JString c)
            \<and> getProp v (js ''codeSnippet'') = Some (JString (cleanCode c))
            \<and> getProp v (js ''initialCode'') = Some (JString (cleanCode c))
            \<and> getProp v (js ''solution'') = map_of ps (js ''solution''))"
  proof (intro allI impI)
    fix v assume "snd (generateQuestion e quizConfig) = Inr v"
    then have "snd (perform e (GenerateQuestion quizConfig)) = Inr v" by simp
    from perform_Inr [OF this] obtain k response t ps c where
      "API_KEY e = Some k"
      "generateContent e k (requestOf (GenerateQuestion quizConfig)) = Inr response"
      "text' response = Some t" "JSON_parse e t = Some (JObject ps)"
      "map_of ps (js ''codeSnippet'') = Some (JString c)"
      "v = JObject (AList.update (js ''initialCode'') (JString (cleanCode c))
                      (AList.update (js ''codeSnippet'') (JString (cleanCode c)) ps))"
      by auto
    then show "\<exists>k response t ps c. API_KEY e = Some k
            \<and> generateContent e k (requestOf (GenerateQuestion quizConfig)) = Inr response
            \<and> text' response = Some t \<and> JSON_parse e t = Some (JObject ps)
            \<and> map_of ps (js ''codeSnippet'') = Some (JString c)
            \<and> getProp v (js ''codeSnippet'') = Some (JString (cleanCode c))
            \<and> getProp v (js ''initialCode'') = Some (JString (cleanCode c))
            \<and> getProp v (js ''solution'') = map_of ps (js ''solution'')"
      by (auto simp: update_conv')
  qed
  have c: "userCode (handleStartQuiz_settled (Inr q) now s) = codeSnippet q
     \<and> question (handleStartQuiz_settled (Inr q) now s) = Some q"
    by (simp add: handleStartQuiz_settled_def rerender_def timerEffect_def clearTimer_def
        split: option.splits)
  from a b c show ?thesis
    by (simp add: simulationPrompt_embeds gradePrompt_embeds)
qed

theorem code_verbatim_except_cleanCode_witness:
  "issued (initialState\<lparr>question := Some exampleQuestion, userCode := js ''int x = 2;''\<rparr>) RunCode
     = Some (SimulateJavaCode (js ''int x = 2;'') exampleQuestion (js ''English''))
   \<and> sublist (js ''int x = 2;'')
       (promptOf (SimulateJavaCode (js ''int x = 2;'') exampleQuestion (js ''English'')))
   \<and> snd (generateQuestion blockEnv exampleConfig)
       = Inr (JObject [(js ''codeSnippet'', JString (js ''y;'')), (js ''initialCode'', JString (js ''y;''))])"
  using code_verbatim_except_cleanCode [of "js ''int x = 2;''" exampleQuestion "js ''English''"
      "\<lparr>timeSpentSeconds = 0, attempts = 0\<rparr>"
      "initialState\<lparr>question := Some exampleQuestion, userCode := js ''int x = 2;''\<rparr>"
      blockEnv exampleConfig 0]
    block_result
  by (simp add: initialState_def)

text \<open>
  C4 as stated fails: the snippet the model generated and the snippet that reaches the UI
  differ when the former holds a comment.
\<close>

theorem cleanCode_rewrites_generated_snippet:
  "JSON_parse blockEnv (js ''{\"codeSnippet\":\"/*a*/ y;\"}'')
     = Some (JObject [(js ''codeSnippet'', JString (js ''/*a*/ y;''))])
   \<and> getProp (JObject [(js ''codeSnippet'', JString (js ''/*a*/ y;''))]) (js ''codeSnippet'')
       = Some (JString (js ''/*a*/ y;''))
   \<and> snd (generateQuestion blockEnv exampleConfig)
       = Inr (JObject [(js ''codeSnippet'', JString (js ''y;'')), (js ''initialCode'', JString (js ''y;''))])
   \<and> js ''y;'' \<noteq> js ''/*a*/ y;''"
  by (simp add: block_result) (simp add: blockEnv_def exampleEnv_def)

text \<open>
  C7, as the code has it. Each operation throws \<^verbatim>\<open>API Key not found in environment\<close>
  when the key is unset. With a key and an answer, it throws \<^verbatim>\<open>No response from Gemini\<close>
  when the text is absent or empty; otherwise \<open>simulateJavaCode\<close> and \<open>gradeExam\<close>
  return a result exactly when the text is valid JSON, and \<open>generateQuestion\<close> exactly
  when it parses to an object whose \<open>codeSnippet\<close> is a string.
\<close>

theorem service_errors:
  "(API_KEY e = None \<longrightarrow>
      perform e op = ([], Inl (Error (js ''API Key not found in environment''))))
   \<and> (API_KEY e = Some k \<and> k \<noteq> [] \<and> generateContent e k (requestOf op) = Inr response \<longrightarrow>
        ((text' response = None \<or> text' response = Some []) \<longrightarrow>
           snd (perform e op) = Inl (Error (js ''No response from Gemini'')))
        \<and> (\<forall>t. text' response = Some t \<and> t \<noteq> [] \<longrightarrow>
             ((\<exists>v. snd (perform e op) = Inr v) \<longleftrightarrow>
                (case op of
                   GenerateQuestion quizConfig \<Rightarrow>
                     (\<exists>ps c. JSON_parse e t = Some (JObject ps)
                        \<and> map_of ps (js ''codeSnippet'') = Some (JString c))
                 | _ \<Rightarrow> JSON_parse e t \<noteq> None))))"
  by (cases op)
     (auto simp: perform_unfold awaitText_key awaitText_nokey
        split: option.splits json.splits)

theorem service_errors_witness:
  "perform (brokenEnv\<lparr>API_KEY := None\<rparr>) (GenerateQuestion exampleConfig)
     = ([], Inl (Error (js ''API Key not found in environment'')))
   \<and> snd (perform (exampleEnv [] JNull) (GradeExam [] exampleQuestion
         \<lparr>timeSpentSeconds = 0, attempts = 0\<rparr> [])) = Inl (Error (js ''No response from Gemini''))
   \<and> (\<exists>v. snd (perform (exampleEnv (js ''7'') (JNumber 7))
         (SimulateJavaCode [] exampleQuestion [])) = Inr v)"
  using service_errors [of "brokenEnv\<lparr>API_KEY := None\<rparr>" "GenerateQuestion exampleConfig"]
    service_errors [of "exampleEnv [] JNull"
      "GradeExam [] exampleQuestion \<lparr>timeSpentSeconds = 0, attempts = 0\<rparr> []"
      "js ''key''" "\<lparr>text' = Some []\<rparr>"]
    service_errors [of "exampleEnv (js ''7'') (JNumber 7)"
      "SimulateJavaCode [] exampleQuestion []" "js ''key''" "\<lparr>text' = Some (js ''7'')\<rparr>"]
  by (simp add: exampleEnv_def brokenEnv_def js_def)

text \<open>
  C7 as stated fails for \<open>generateQuestion\<close>: the text \<^verbatim>\<open>{}\<close> is valid JSON, and
  the operation throws a TypeError instead of returning.
\<close>

theorem generateQuestion_valid_json_throws:
  "API_KEY brokenEnv \<noteq> None
   \<and> generateContent brokenEnv (js ''key'') (requestOf (GenerateQuestion exampleConfig))
       = Inr \<lparr>text' = Some (js ''{}'')\<rparr>
   \<and> JSON_parse brokenEnv (js ''{}'') = Some (JObject [])
   \<and> snd (generateQuestion brokenEnv exampleConfig) = Inl TypeError"
  by (simp add: brokenEnv_def exampleEnv_def generateQuestion_def awaitText_def getClient_def
      js_def)

text \<open>
  C8. Whenever \<open>generateQuestion\<close> returns a question, its \<open>initialCode\<close> and its
  \<open>codeSnippet\<close> are both \<open>cleanCode\<close> of the parsed \<open>codeSnippet\<close>, and every other
  property (title, instructions, solution, explanation) is the parsed one. It does return
  one when the parsed response has a string \<open>codeSnippet\<close>.
\<close>

theorem generateQuestion_cleaned_snippet:
  assumes "API_KEY e = Some k" and "k \<noteq> []"
    and "generateContent e k (request (questionPrompt quizConfig) questionSchema (7 / 10))
           = Inr response"
    and "text' response = Some t" and "t \<noteq> []" and "JSON_parse e t = Some data"
  shows "(\<forall>q. snd (generateQuestion e quizConfig) = Inr q \<longrightarrow>
            (\<exists>c. getProp data (js ''codeSnippet'') = Some (JString c)
               \<and> getProp q (js ''initialCode'') = Some (JString (cleanCode c))
               \<and> getProp q (js ''codeSnippet'') = Some (JString (cleanCode c))
               \<and> (\<forall>key. key \<noteq> js ''codeSnippet'' \<and> key \<noteq> js ''initialCode''
                     \<longrightarrow> getProp q key = getProp data key)))
       \<and> ((\<exists>c. getProp data (js ''codeSnippet'') = Some (JString c))
            \<longrightarrow> (\<exists>q. snd (generateQuestion e quizConfig) = Inr q))"
  using assms
  by (cases data)
     (auto simp: generateQuestion_def awaitText_key Let_def update_conv'
        split: option.splits json.splits)

theorem generateQuestion_cleaned_snippet_witness:
  "getProp (JObject [(js ''title'', JString (js ''T'')), (js ''codeSnippet'', JString (js ''x;'')),
        (js ''solution'', JString (js ''x; // s'')), (js ''initialCode'', JString (js ''x;''))])
      (js ''initialCode'') = Some (JString (cleanCode (js ''x; // f'')))
   \<and> getProp (JObject [(js ''title'', JString (js ''T'')), (js ''codeSnippet'', JString (js ''x;'')),
        (js ''solution'', JString (js ''x; // s'')), (js ''initialCode'', JString (js ''x;''))])
      (js ''codeSnippet'') = Some (JString (cleanCode (js ''x; // f'')))
   \<and> (\<exists>q. snd (generateQuestion commentedEnv exampleConfig) = Inr q)"
  using generateQuestion_cleaned_snippet [of commentedEnv "js ''key''" exampleConfig
      "\<lparr>text' = Some (js ''{\"title\":\"T\",\"codeSnippet\":\"x; // f\",\"solution\":\"x; // s\"}'')\<rparr>" "js ''{\"title\":\"T\",\"codeSnippet\":\"x; // f\",\"solution\":\"x; // s\"}''"
      "JObject [(js ''title'', JString (js ''T'')),
         (js ''codeSnippet'', JString (js ''x; // f'')), (js ''solution'', JString (js ''x; // s''))]"]
    commented_result
  by (simp add: commentedEnv_def exampleEnv_def)

section \<open>Properties of the editor component\<close>

lemma replicate4: "replicate 4 x = [x, x, x, x]"
  by (simp add: numeral_eq_Suc)

lemma take4_short: "length xs < 4 \<Longrightarrow> take 4 (drop j xs) \<noteq> replicate 4 x"
  by (metis length_drop length_replicate length_take less_imp_diff_less min.strict_boundedE nat_less_le)

lemma execAll_sound:
  "i \<in> set (execAll k s) \<Longrightarrow> k \<le> i \<and> take 4 (drop (i - k) s) = replicate 4 underscore"
proof (induction k s rule: execAll.induct)
  case (1 k a b c d rest)
  show ?case
  proof (cases "a = underscore \<and> b = underscore \<and> c = underscore \<and> d = underscore")
    case True
    with "1.prems" have "i = k \<or> i \<in> set (execAll (k + 4) rest)" by simp
    then show ?thesis
    proof
      assume "i = k"
      with True show ?thesis by (simp add: replicate4)
    next
      assume "i \<in> set (execAll (k + 4) rest)"
      with "1.IH"(1) True have "k + 4 \<le> i" and "take 4 (drop (i - (k + 4)) rest) = replicate 4 underscore"
        by auto
      moreover from \<open>k + 4 \<le> i\<close> have "i - k = Suc (Suc (Suc (Suc (i - (k + 4)))))" by simp
      ultimately show ?thesis by simp
    qed
  next
    case False
    with "1.prems" have "i \<in> set (execAll (k + 1) (b # c # d # rest))" by auto
    with "1.IH"(2) False have "k + 1 \<le> i"
      and "take 4 (drop (i - (k + 1)) (b # c # d # rest)) = replicate 4 underscore"
      by auto
    moreover from \<open>k + 1 \<le> i\<close> have "i - k = Suc (i - (k + 1))" by simp
    ultimately show ?thesis by simp
  qed
qed simp_all

lemma execAll_spaced: "sorted_wrt (\<lambda>a b. a + 4 \<le> b) (execAll k s)"
proof (induction k s rule: execAll.induct)
  case (1 k a b c d rest)
  then show ?case using execAll_sound [of _ "k + 4" rest] by auto
qed simp_all

lemma execAll_complete:
  "take 4 (drop j s) = replicate 4 underscore \<Longrightarrow>
   \<exists>i \<in> set (execAll k s). i \<le> k + j \<and> k + j < i + 4"
proof (induction k s arbitrary: j rule: execAll.induct)
  case (1 k a b c d rest)
  show ?case
  proof (cases "a = underscore \<and> b = underscore \<and> c = underscore \<and> d = underscore")
    case True
    show ?thesis
    proof (cases "j < 4")
      case True
      with \<open>a = underscore \<and> b = underscore \<and> c = underscore \<and> d = underscore\<close>
      show ?thesis by auto
    next
      case False
      define j' where "j' = j - 4"
      with False have j: "j = Suc (Suc (Suc (Suc j')))" by simp
      with "1.prems" have "take 4 (drop j' rest) = replicate 4 underscore" by simp
      from "1.IH"(1) [OF True this] obtain i where
        i: "i \<in> set (execAll (k + 4) rest)" "i \<le> k + 4 + j'" "k + 4 + j' < i + 4" by blast
      from i(2,3) j have "i \<le> k + j \<and> k + j < i + 4" by simp
      with i(1) True show ?thesis by auto
    qed
  next
    case False
    have "j \<noteq> 0"
    proof
      assume "j = 0"
      with "1.prems" have "[a, b, c, d] = replicate 4 underscore" by simp
      with False show False by (simp add: replicate4)
    qed
    then obtain j' where j: "j = Suc j'" by (cases j) auto
    with "1.prems" have "take 4 (drop j' (b # c # d # rest)) = replicate 4 underscore" by simp
    from "1.IH"(2) [OF False this] obtain i where
      i: "i \<in> set (execAll (k + 1) (b # c # d # rest))" "i \<le> k + 1 + j'" "k + 1 + j' < i + 4"
      by blast
    from i(2,3) j have "i \<le> k + j \<and> k + j < i + 4" by simp
    with i(1) False show ?thesis by auto
  qed
qed (auto dest!: arg_cong [where f = length])

lemma updateDecorations_Some:
  "code \<noteq> [] \<Longrightarrow> getModel editor = Some m \<Longrightarrow>
   updateDecorations editor oldIds code =
     (editor\<lparr>getModel := Some (m\<lparr>
        decorations := filter (\<lambda>(i, d). i \<notin> set oldIds) (decorations m)
          @ zip [nextDecorationId m ..< nextDecorationId m + length (execAll 0 code)]
              (map (\<lambda>index. blankDecoration (getPositionAt m index)
                                   (getPositionAt m (index + 4))) (execAll 0 code)),
        nextDecorationId := nextDecorationId m + length (execAll 0 code)\<rparr>)\<rparr>,
      [nextDecorationId m ..< nextDecorationId m + length (execAll 0 code)])"
  by (simp add: updateDecorations_def deltaDecorations_def Let_def)

text \<open>
  C6, as the code has it. For non-empty content of an editor that has a text model,
  \<open>updateDecorations\<close> drops the decorations it had applied (those named by
  \<open>decorationsRef\<close>) and adds exactly one decoration per match of the scan, in order, each
  from the position of the match's first underscore to the position behind its fourth,
  with the blank-highlight styling, the badge and the hover message; the new identifiers
  are returned. The matches are the non-overlapping occurrences of four underscores from
  left to right: each is an occurrence, two never overlap, and every occurrence in the
  content overlaps a match. For non-empty content of an editor that has no text model, the
  optional chaining yields no position, nothing is pushed, whatever the content is, and
  \<open>decorationsRef\<close> becomes the empty list. For the empty string the function returns
  without a change.
\<close>

theorem updateDecorations_marks_blanks:
  "(code \<noteq> [] \<and> getModel editor = Some m \<longrightarrow>
      (\<exists>m' ids.
         updateDecorations editor oldIds code = (editor\<lparr>getModel := Some m'\<rparr>, ids)
         \<and> length ids = length (execAll 0 code) \<and> distinct ids
         \<and> decorations m' =
             filter (\<lambda>(i, d). i \<notin> set oldIds) (decorations m)
             @ zip ids (map (\<lambda>index. blankDecoration (getPositionAt m index)
                                   (getPositionAt m (index + 4))) (execAll 0 code))
         \<and> getPositionAt m' = getPositionAt m)
      \<and> sorted_wrt (\<lambda>a b. a + 4 \<le> b) (execAll 0 code)
      \<and> (\<forall>i \<in> set (execAll 0 code). take 4 (drop i code) = replicate 4 underscore)
      \<and> (\<forall>j. take 4 (drop j code) = replicate 4 underscore
             \<longrightarrow> (\<exists>i \<in> set (execAll 0 code). i \<le> j \<and> j < i + 4)))
   \<and> (code \<noteq> [] \<and> getModel editor = None \<longrightarrow>
        updateDecorations editor oldIds code = (editor, []))
   \<and> inlineClassName (options (blankDecoration startPos endPos)) = js ''blank-highlight''
   \<and> afterContentClassName (options (blankDecoration startPos endPos)) = js ''blank-badge''
   \<and> hoverMessage (options (blankDecoration startPos endPos))
       = js ''**Action Required**: Replace `____` with the correct code.''
   \<and> range' (blankDecoration startPos endPos)
       = \<lparr>startLineNumber = lineNumber startPos, startColumn = column startPos,
          endLineNumber = lineNumber endPos, endColumn = column endPos\<rparr>
   \<and> updateDecorations editor oldIds [] = (editor, oldIds)"
proof -
  have a: "code \<noteq> [] \<and> getModel editor = Some m \<longrightarrow>
      (\<exists>m' ids.
         updateDecorations editor oldIds code = (editor\<lparr>getModel := Some m'\<rparr>, ids)
         \<and> length ids = length (execAll 0 code) \<and> distinct ids
         \<and> decorations m' =
             filter (\<lambda>(i, d). i \<notin> set oldIds) (decorations m)
             @ zip ids (map (\<lambda>index. blankDecoration (getPositionAt m index)
                                   (getPositionAt m (index + 4))) (execAll 0 code))
         \<and> getPositionAt m' = getPositionAt m)"
  proof (intro impI, elim conjE)
    assume "code \<noteq> []" and "getModel editor = Some m"
    from updateDecorations_Some [OF this, of oldIds] show "\<exists>m' ids.
         updateDecorations editor oldIds code = (editor\<lparr>getModel := Some m'\<rparr>, ids)
         \<and> length ids = length (execAll 0 code) \<and> distinct ids
         \<and> decorations m' =
             filter (\<lambda>(i, d). i \<notin> set oldIds) (decorations m)
             @ zip ids (map (\<lambda>index. blankDecoration (getPositionAt m index)
                                   (getPositionAt m (index + 4))) (execAll 0 code))
         \<and> getPositionAt m' = getPositionAt m"
      by (intro exI conjI) (assumption, simp_all)
  qed
  have b: "\<forall>i \<in> set (execAll 0 code). take 4 (drop i code) = replicate 4 underscore"
    using execAll_sound [of _ 0 code] by simp
  have c: "\<forall>j. take 4 (drop j code) = replicate 4 underscore
             \<longrightarrow> (\<exists>i \<in> set (execAll 0 code). i \<le> j \<and> j < i + 4)"
    using execAll_complete [of _ code 0] by simp
  have d: "code \<noteq> [] \<and> getModel editor = None \<longrightarrow>
        updateDecorations editor oldIds code = (editor, [])"
    by (simp add: updateDecorations_def deltaDecorations_def)
  from a b c d execAll_spaced [of 0 code] show ?thesis
    by (simp add: blankDecoration_def updateDecorations_def)
qed

lemma execAll_example: "execAll 0 (js ''____ _____'') = [0, 5]"
  by (simp add: js_def)

theorem updateDecorations_marks_blanks_witness:
  "js ''____ _____'' \<noteq> [] \<and> getModel exampleEditor = Some exampleModel
   \<and> execAll 0 (js ''____ _____'') = [0, 5]
   \<and> (\<exists>m' ids.
         updateDecorations exampleEditor [0] (js ''____ _____'')
           = (exampleEditor\<lparr>getModel := Some m'\<rparr>, ids)
         \<and> length ids = length (execAll 0 (js ''____ _____''))
         \<and> decorations m' =
             filter (\<lambda>(i, d). i \<notin> set [0]) (decorations exampleModel)
             @ zip ids (map (\<lambda>index. blankDecoration (getPositionAt exampleModel index)
                                   (getPositionAt exampleModel (index + 4)))
                 (execAll 0 (js ''____ _____''))))
   \<and> getModel detachedEditor = None
   \<and> updateDecorations detachedEditor [0] (js ''____ _____'') = (detachedEditor, [])
   \<and> updateDecorations exampleEditor [0] [] = (exampleEditor, [0])"
proof -
  have h: "js ''____ _____'' \<noteq> [] \<and> getModel exampleEditor = Some exampleModel"
    by (simp add: exampleEditor_def)
  note t = updateDecorations_marks_blanks [of "js ''____ _____''" exampleEditor exampleModel "[0]"]
  from t h have 1: "\<exists>m' ids.
         updateDecorations exampleEditor [0] (js ''____ _____'')
           = (exampleEditor\<lparr>getModel := Some m'\<rparr>, ids)
         \<and> length ids = length (execAll 0 (js ''____ _____''))
         \<and> decorations m' =
             filter (\<lambda>(i, d). i \<notin> set [0]) (decorations exampleModel)
             @ zip ids (map (\<lambda>index. blankDecoration (getPositionAt exampleModel index)
                                   (getPositionAt exampleModel (index + 4)))
                 (execAll 0 (js ''____ _____'')))"
    by blast
  from t have 2: "updateDecorations exampleEditor [0] [] = (exampleEditor, [0])"
    by blast
  have h': "js ''____ _____'' \<noteq> [] \<and> getModel detachedEditor = None"
    by (simp add: detachedEditor_def)
  note t' = updateDecorations_marks_blanks [of "js ''____ _____''" detachedEditor exampleModel "[0]"]
  from t' h' have 3:
    "updateDecorations detachedEditor [0] (js ''____ _____'') = (detachedEditor, [])"
    by blast
  from h h' 1 2 3 execAll_example show ?thesis by blast
qed

text \<open>
  C6 as stated fails for an editor without a text model: the content \<^verbatim>\<open>____\<close> is one
  occurrence of four underscores, yet no decoration is produced for it, and the list of
  applied decorations is emptied.
\<close>

theorem updateDecorations_without_model:
  "js ''____'' \<noteq> [] \<and> execAll 0 (js ''____'') = [0]
   \<and> getModel detachedEditor = None
   \<and> updateDecorations detachedEditor [7] (js ''____'') = (detachedEditor, [])"
  by (simp add: updateDecorations_def deltaDecorations_def detachedEditor_def js_def)

section \<open>Properties of the application component\<close>

lemma sameValue_eq: "sameValue a b \<Longrightarrow> a = b"
  by (cases a; cases b) simp_all

lemma timerInv_init: "timerInv initialState"
  by (simp add: timerInv_def initialState_def active_def)

lemma clearTimer_fields [simp]:
  "timerRef (clearTimer s) = timerRef s" "nextHandle (clearTimer s) = nextHandle s"
  "question (clearTimer s) = question s" "examResult (clearTimer s) = examResult s"
  "isGenerating (clearTimer s) = isGenerating s" "elapsedTime (clearTimer s) = elapsedTime s"
  "active (clearTimer s) = active s"
  by (auto simp: clearTimer_def active_def split: option.splits)

lemma clearTimer_idle: "intervals s = [] \<Longrightarrow> intervals (clearTimer s) = []"
  by (auto simp: clearTimer_def split: option.splits)

text \<open>Clearing the timer \<open>timerRef\<close> names leaves none, when there is no other.\<close>

lemma clearTimer_all:
  assumes "\<forall>h. timerRef s = Some h \<longrightarrow> 0 < h"
    and "\<forall>x \<in> set (intervals s). timerRef s = Some (fst x)"
  shows "intervals (clearTimer s) = []"
proof (cases "timerRef s")
  case None
  with assms(2) have "intervals s = []" by (cases "intervals s") auto
  with None show ?thesis by (simp add: clearTimer_def)
next
  case (Some h)
  with assms(2) have "filter (\<lambda>(h', d). h' \<noteq> h) (intervals s) = []"
    by (auto simp: filter_empty_conv)
  with Some assms(1) show ?thesis by (simp add: clearTimer_def)
qed

text \<open>After a render with changed dependencies the timer is the one the effect has just
  started, if it has started one, whatever the fields outside the timer are.\<close>

lemma rerender_True_intervals:
  assumes "\<forall>h. timerRef s = Some h \<longrightarrow> 0 < h"
    and "\<forall>x \<in> set (intervals s). timerRef s = Some (fst x)"
  shows "intervals (rerender True now s) = (if active s then [(nextHandle s, 1000)] else [])"
  using clearTimer_all [OF assms]
  by (simp add: rerender_def timerEffect_def active_def clearTimer_idle)

lemma rerender_True_inv:
  assumes "0 < nextHandle s"
    and "\<forall>h. timerRef s = Some h \<longrightarrow> 0 < h \<and> h < nextHandle s"
    and "\<forall>x \<in> set (intervals s). timerRef s = Some (fst x)"
    and "isGenerating s \<longrightarrow> question s = None"
  shows "timerInv (rerender True now s)"
proof -
  have "intervals (clearTimer s) = []"
    using assms(2,3) by (intro clearTimer_all) auto
  then show ?thesis using assms(1,2,4)
    by (auto simp: rerender_def timerEffect_def timerInv_def active_def clearTimer_idle)
qed

lemma timerInv_intervals:
  "timerInv s \<Longrightarrow> \<forall>x \<in> set (intervals s). timerRef s = Some (fst x)"
  by (auto simp: timerInv_def)

lemma timerInv_positive: "timerInv s \<Longrightarrow> \<forall>h. timerRef s = Some h \<longrightarrow> 0 < h"
  by (simp add: timerInv_def)

text \<open>
  What \<open>handleFinishExam\<close> leaves behind its \<^verbatim>\<open>await\<close> when the value is the one already
  stored: no effect runs, and the timer has been cleared.
\<close>

lemma handleFinishExam_settled_same:
  assumes "timerInv s" and "sameValue (examResult s) v"
  shows "handleFinishExam_settled (Inr v) now s = (clearTimer s)\<lparr>isGrading := False\<rparr>"
    and "intervals (handleFinishExam_settled (Inr v) now s) = []"
proof -
  from assms(2) have v: "examResult s = v" by (rule sameValue_eq)
  then have "s\<lparr>examResult := v\<rparr> = s" by auto
  with assms(2) show 1: "handleFinishExam_settled (Inr v) now s = (clearTimer s)\<lparr>isGrading := False\<rparr>"
    by (simp add: handleFinishExam_settled_def rerender_def)
  from clearTimer_all [OF timerInv_positive [OF assms(1)] timerInv_intervals [OF assms(1)]] 1
  show "intervals (handleFinishExam_settled (Inr v) now s) = []" by simp
qed

lemma handleFinishExam_settled_changed:
  assumes "\<not> sameValue (examResult s) v"
  shows "handleFinishExam_settled (Inr v) now s =
     rerender True now (clearTimer (s\<lparr>examResult := v\<rparr>)\<lparr>isGrading := False\<rparr>)"
  using assms by (simp add: handleFinishExam_settled_def)

lemma timerInv_step:
  assumes "timerInv s" and "offered s ev"
  shows "timerInv (step now s ev)"
proof (cases ev)
  case StartQuiz
  show ?thesis
  proof (cases "examResult s = JNull")
    case True
    with assms StartQuiz show ?thesis
      by (auto simp: handleStartQuiz_def rerender_def timerInv_def active_def screenOf_def
          split: if_splits)
  next
    case False
    have "timerInv (rerender True now
       (s\<lparr>isGenerating := True, error := None, simulationResult := None, examResult := JNull\<rparr>))"
      using assms StartQuiz timerInv_intervals [OF assms(1)]
      by (intro rerender_True_inv) (auto simp: timerInv_def screenOf_def split: if_splits)
    with False StartQuiz show ?thesis by (simp add: handleStartQuiz_def)
  qed
next
  case (StartQuizSettled r)
  show ?thesis
  proof (cases r)
    case (Inl m)
    with assms StartQuizSettled show ?thesis
      by (auto simp: handleStartQuiz_settled_def timerInv_def active_def)
  next
    case (Inr q)
    have "timerInv (rerender True now
       (s\<lparr>question := Some q, userCode := codeSnippet q, activeTab := js ''Main.java'',
           isGenerating := False\<rparr>))"
      using assms timerInv_intervals [OF assms(1)]
      by (intro rerender_True_inv) (auto simp: timerInv_def)
    with Inr StartQuizSettled show ?thesis by (simp add: handleStartQuiz_settled_def)
  qed
next
  case RunCode
  with assms show ?thesis
    by (auto simp: handleRunCode_def timerInv_def active_def split: option.splits)
next
  case (RunCodeSettled r)
  with assms show ?thesis
    by (cases r) (auto simp: handleRunCode_settled_def timerInv_def active_def)
next
  case FinishExam
  with assms show ?thesis
    by (auto simp: handleFinishExam_def timerInv_def active_def split: option.splits)
next
  case (FinishExamSettled r)
  show ?thesis
  proof (cases r)
    case (Inl m)
    with assms FinishExamSettled show ?thesis
      by (auto simp: handleFinishExam_settled_def timerInv_def active_def)
  next
    case (Inr result)
    show ?thesis
    proof (cases "sameValue (examResult s) result")
      case True
      from handleFinishExam_settled_same [OF assms(1) True, of now] assms(1)
      have "timerInv (handleFinishExam_settled (Inr result) now s)"
        by (simp add: timerInv_def)
      with Inr FinishExamSettled show ?thesis by simp
    next
      case False
      have "timerInv (rerender True now
         (clearTimer (s\<lparr>examResult := result\<rparr>)\<lparr>isGrading := False\<rparr>))"
        using assms timerInv_intervals [OF assms(1)]
        by (intro rerender_True_inv)
           (auto simp: timerInv_def clearTimer_def split: option.splits if_splits)
      with False Inr FinishExamSettled show ?thesis
        by (simp add: handleFinishExam_settled_changed)
    qed
  qed
next
  case Reset
  with assms show ?thesis
    by (auto simp: handleReset_def timerInv_def active_def split: option.splits)
next
  case BackToSetup
  show ?thesis
  proof (cases "question s \<noteq> None \<or> examResult s \<noteq> JNull")
    case False
    with assms BackToSetup show ?thesis
      by (auto simp: handleBackToSetup_def rerender_def timerInv_def active_def)
  next
    case True
    have "timerInv (rerender True now
       (s\<lparr>question := None, userCode := [], simulationResult := None, examResult := JNull,
          error := None\<rparr>))"
      using assms timerInv_intervals [OF assms(1)]
      by (intro rerender_True_inv) (auto simp: timerInv_def)
    with True BackToSetup show ?thesis by (simp add: handleBackToSetup_def)
  qed
next
  case ReviewCode
  show ?thesis
  proof (cases "examResult s = JNull")
    case True
    with assms ReviewCode show ?thesis
      by (auto simp: reviewCode_def rerender_def timerInv_def active_def)
  next
    case False
    have "timerInv (rerender True now (s\<lparr>examResult := JNull\<rparr>))"
      using assms timerInv_intervals [OF assms(1)]
      by (intro rerender_True_inv) (auto simp: timerInv_def)
    with False ReviewCode show ?thesis by (simp add: reviewCode_def)
  qed
next
  case (CodeChange c)
  with assms show ?thesis by (auto simp: timerInv_def active_def)
next
  case (FileChange f)
  with assms show ?thesis by (auto simp: timerInv_def active_def)
next
  case (SetConfig c)
  with assms show ?thesis by (auto simp: timerInv_def active_def)
next
  case DismissError
  with assms show ?thesis by (auto simp: timerInv_def active_def)
next
  case (Tick h)
  with assms show ?thesis by (auto simp: tick_def timerInv_def active_def)
qed

lemma reachable_timerInv: "reachable s \<Longrightarrow> timerInv s"
  by (induction rule: reachable.induct) (auto intro: timerInv_init timerInv_step)

lemma rerender_fields [simp]:
  "question (rerender b now s) = question s"
  "examResult (rerender b now s) = examResult s"
  "isSimulating (rerender b now s) = isSimulating s"
  "isGrading (rerender b now s) = isGrading s"
  "isGenerating (rerender b now s) = isGenerating s"
  "userCode (rerender b now s) = userCode s"
  "elapsedTime (rerender b now s) = (if b \<and> active s then 0 else elapsedTime s)"
  by (auto simp: rerender_def timerEffect_def active_def clearTimer_def split: option.splits)

lemma step_question:
  "question (step now s ev) =
     (case ev of
        StartQuizSettled (Inr q) \<Rightarrow> Some q
      | BackToSetup \<Rightarrow> None
      | _ \<Rightarrow> question s)"
  by (cases ev)
     (auto simp: handleStartQuiz_def handleStartQuiz_settled_def handleRunCode_def
        handleRunCode_settled_def handleFinishExam_def handleFinishExam_settled_def
        handleReset_def handleBackToSetup_def reviewCode_def tick_def
        split: sum.splits option.splits)

lemma step_examResult:
  "examResult (step now s ev) =
     (case ev of
        FinishExamSettled (Inr r) \<Rightarrow> r
      | StartQuiz \<Rightarrow> JNull
      | BackToSetup \<Rightarrow> JNull
      | ReviewCode \<Rightarrow> JNull
      | _ \<Rightarrow> examResult s)"
  by (cases ev)
     (auto simp: handleStartQuiz_def handleStartQuiz_settled_def handleRunCode_def
        handleRunCode_settled_def handleFinishExam_def handleFinishExam_settled_def
        handleReset_def handleBackToSetup_def reviewCode_def tick_def
        split: sum.splits option.splits)

lemma step_elapsedTime:
  "elapsedTime (step now s ev) =
     (case ev of
        StartQuiz \<Rightarrow> (if examResult s \<noteq> JNull \<and> question s \<noteq> None then 0 else elapsedTime s)
      | StartQuizSettled (Inr q) \<Rightarrow> (if truthy (examResult s) then elapsedTime s else 0)
      | FinishExamSettled (Inr r) \<Rightarrow>
          (if \<not> sameValue (examResult s) r \<and> question s \<noteq> None \<and> \<not> truthy r then 0
           else elapsedTime s)
      | ReviewCode \<Rightarrow> (if examResult s \<noteq> JNull \<and> question s \<noteq> None then 0 else elapsedTime s)
      | Tick h \<Rightarrow> (if h \<in> fst ` set (intervals s) then elapsedTime s + 1 else elapsedTime s)
      | _ \<Rightarrow> elapsedTime s)"
  by (cases ev)
     (auto simp: handleStartQuiz_def handleStartQuiz_settled_def handleRunCode_def
        handleRunCode_settled_def handleFinishExam_def handleFinishExam_settled_def
        handleReset_def handleBackToSetup_def reviewCode_def tick_def active_def
        split: sum.splits option.splits)

text \<open>
  The timer after a step, in a state of the invariant: a step that changes \<open>question\<close> or
  \<open>examResult\<close> runs the effect, a grading that settles with the value already stored
  clears the timer, and every other step leaves the timer alone.
\<close>

lemma step_intervals:
  assumes "timerInv s"
  shows "intervals (step now s ev) =
     (case ev of
        StartQuiz \<Rightarrow>
          (if examResult s = JNull then intervals s
           else if question s \<noteq> None then [(nextHandle s, 1000)] else [])
      | StartQuizSettled (Inr q) \<Rightarrow>
          (if truthy (examResult s) then [] else [(nextHandle s, 1000)])
      | FinishExamSettled (Inr r) \<Rightarrow>
          (if \<not> sameValue (examResult s) r \<and> question s \<noteq> None \<and> \<not> truthy r
           then [(nextHandle s, 1000)] else [])
      | BackToSetup \<Rightarrow>
          (if question s \<noteq> None \<or> examResult s \<noteq> JNull then [] else intervals s)
      | ReviewCode \<Rightarrow>
          (if examResult s = JNull then intervals s
           else if question s \<noteq> None then [(nextHandle s, 1000)] else [])
      | _ \<Rightarrow> intervals s)"
proof -
  note p = timerInv_positive [OF assms]
  note i = timerInv_intervals [OF assms]
  show ?thesis
  proof (cases ev)
    case StartQuiz
    have "intervals (rerender True now
        (s\<lparr>isGenerating := True, error := None, simulationResult := None, examResult := JNull\<rparr>))
      = (if question s \<noteq> None then [(nextHandle s, 1000)] else [])"
      using p i by (subst rerender_True_intervals) (auto simp: active_def)
    with StartQuiz show ?thesis by (simp add: handleStartQuiz_def rerender_def)
  next
    case (StartQuizSettled r)
    have "intervals (rerender True now
        (s\<lparr>question := Some q, userCode := codeSnippet q, activeTab := js ''Main.java'',
           isGenerating := False\<rparr>))
      = (if truthy (examResult s) then [] else [(nextHandle s, 1000)])" for q
      using p i by (subst rerender_True_intervals) (auto simp: active_def)
    with StartQuizSettled show ?thesis
      by (cases r) (simp_all add: handleStartQuiz_settled_def)
  next
    case (FinishExamSettled r)
    show ?thesis
    proof (cases r)
      case (Inl m)
      with FinishExamSettled show ?thesis by (simp add: handleFinishExam_settled_def)
    next
      case (Inr v)
      show ?thesis
      proof (cases "sameValue (examResult s) v")
        case True
        with handleFinishExam_settled_same(2) [OF assms True, of now] Inr FinishExamSettled
        show ?thesis by simp
      next
        case False
        have "intervals (rerender True now
            (clearTimer (s\<lparr>examResult := v\<rparr>)\<lparr>isGrading := False\<rparr>))
          = (if question s \<noteq> None \<and> \<not> truthy v then [(nextHandle s, 1000)] else [])"
          using p i
          by (subst rerender_True_intervals)
             (auto simp: active_def clearTimer_def split: option.splits if_splits)
        with False Inr FinishExamSettled show ?thesis
          by (simp add: handleFinishExam_settled_changed)
      qed
    qed
  next
    case BackToSetup
    have "intervals (rerender True now
        (s\<lparr>question := None, userCode := [], simulationResult := None, examResult := JNull,
           error := None\<rparr>)) = []"
      using p i by (subst rerender_True_intervals) (auto simp: active_def)
    with BackToSetup show ?thesis by (simp add: handleBackToSetup_def rerender_def)
  next
    case ReviewCode
    have "intervals (rerender True now (s\<lparr>examResult := JNull\<rparr>))
      = (if question s \<noteq> None then [(nextHandle s, 1000)] else [])"
      using p i by (subst rerender_True_intervals) (auto simp: active_def)
    with ReviewCode show ?thesis by (simp add: reviewCode_def rerender_def)
  qed (auto simp: handleRunCode_def handleRunCode_settled_def handleFinishExam_def
        handleReset_def tick_def split: sum.splits option.splits)
qed

text \<open>
  C5, as the code has it. In every reachable state at most one interval timer is active,
  and none when the question is null or an exam result is set: a step that clears the
  question or sets an exam result leaves no timer. A timer that is active is the one
  \<open>timerRef\<close> names, with a delay of 1000 ms, and each time it fires \<open>elapsedTime\<close> grows
  by 1. A step into a state with a question and no exam result starts the timer and sets
  \<open>elapsedTime\<close> to 0, and the timer stays active through every step that leaves the
  question active and no exam result, except a grading that settles with the value already
  stored as the exam result (\<^verbatim>\<open>null\<close> when none is stored): \<open>handleFinishExam\<close> then clears
  the timer and no effect starts another, so question and exam result are as before and
  no timer is active. No step changes \<open>elapsedTime\<close> other than to 0
  or, by a firing of the active timer, by 1.
\<close>

theorem single_timer:
  assumes "reachable s"
  shows "length (intervals s) \<le> 1
     \<and> (question s = None \<or> truthy (examResult s) \<longrightarrow> intervals s = [])
     \<and> (intervals s \<noteq> [] \<longrightarrow>
          (\<exists>h. timerRef s = Some h \<and> intervals s = [(h, 1000)]
             \<and> elapsedTime (step now s (Tick h)) = elapsedTime s + 1))
     \<and> (offered s ev
          \<and> (question (step now s ev) = None \<or> truthy (examResult (step now s ev)))
          \<longrightarrow> intervals (step now s ev) = [])
     \<and> (offered s ev \<and> \<not> (question s \<noteq> None \<and> \<not> truthy (examResult s))
          \<and> question (step now s ev) \<noteq> None \<and> \<not> truthy (examResult (step now s ev))
          \<longrightarrow> elapsedTime (step now s ev) = 0
              \<and> (\<exists>h. timerRef (step now s ev) = Some h \<and> intervals (step now s ev) = [(h, 1000)]))
     \<and> (offered s ev \<and> intervals s \<noteq> []
          \<and> question (step now s ev) \<noteq> None \<and> \<not> truthy (examResult (step now s ev))
          \<and> (\<forall>v. ev = FinishExamSettled (Inr v) \<longrightarrow> \<not> sameValue (examResult s) v)
          \<longrightarrow> (\<exists>h. timerRef (step now s ev) = Some h \<and> intervals (step now s ev) = [(h, 1000)]))
     \<and> (sameValue (examResult s) v
          \<longrightarrow> examResult (step now s (FinishExamSettled (Inr v))) = examResult s
              \<and> question (step now s (FinishExamSettled (Inr v))) = question s
              \<and> intervals (step now s (FinishExamSettled (Inr v))) = [])
     \<and> (elapsedTime (step now s ev) = elapsedTime s \<or> elapsedTime (step now s ev) = 0
          \<or> (\<exists>h. ev = Tick h \<and> intervals s = [(h, 1000)]
                \<and> elapsedTime (step now s ev) = elapsedTime s + 1))"
proof -
  have inv: "timerInv s" using assms by (rule reachable_timerInv)
  have inv': "offered s ev \<Longrightarrow> timerInv (step now s ev)"
    using inv by (rule timerInv_step)
  have running: "\<exists>h. timerRef t = Some h \<and> intervals t = [(h, 1000)]"
    if "timerInv t" "intervals t \<noteq> []" for t
    using that by (auto simp: timerInv_def)
  have 1: "length (intervals s) \<le> 1"
    using inv by (auto simp: timerInv_def)
  have 2: "question s = None \<or> truthy (examResult s) \<longrightarrow> intervals s = []"
    using inv by (auto simp: timerInv_def active_def)
  have 3: "intervals s \<noteq> [] \<longrightarrow>
          (\<exists>h. timerRef s = Some h \<and> intervals s = [(h, 1000)]
             \<and> elapsedTime (step now s (Tick h)) = elapsedTime s + 1)"
    using inv by (auto simp: timerInv_def tick_def)
  have 4: "offered s ev
          \<and> (question (step now s ev) = None \<or> truthy (examResult (step now s ev)))
          \<longrightarrow> intervals (step now s ev) = []"
    using inv' by (auto simp: timerInv_def active_def)
  have 5: "offered s ev \<and> \<not> (question s \<noteq> None \<and> \<not> truthy (examResult s))
          \<and> question (step now s ev) \<noteq> None \<and> \<not> truthy (examResult (step now s ev))
          \<longrightarrow> elapsedTime (step now s ev) = 0
              \<and> (\<exists>h. timerRef (step now s ev) = Some h \<and> intervals (step now s ev) = [(h, 1000)])"
  proof (intro impI, elim conjE)
    assume o: "offered s ev"
      and a: "\<not> (question s \<noteq> None \<and> \<not> truthy (examResult s))"
      and q: "question (step now s ev) \<noteq> None"
      and e: "\<not> truthy (examResult (step now s ev))"
    have "elapsedTime (step now s ev) = 0 \<and> intervals (step now s ev) \<noteq> []"
      using step_question [of now s ev] step_examResult [of now s ev]
        step_elapsedTime [of now s ev] step_intervals [OF inv, of now ev] o a q e
      by (cases ev) (auto simp: screenOf_def dest: sameValue_eq split: sum.splits if_splits)
    with running [OF inv' [OF o]]
    show "elapsedTime (step now s ev) = 0
              \<and> (\<exists>h. timerRef (step now s ev) = Some h \<and> intervals (step now s ev) = [(h, 1000)])"
      by simp
  qed
  have 6: "offered s ev \<and> intervals s \<noteq> []
          \<and> question (step now s ev) \<noteq> None \<and> \<not> truthy (examResult (step now s ev))
          \<and> (\<forall>v. ev = FinishExamSettled (Inr v) \<longrightarrow> \<not> sameValue (examResult s) v)
          \<longrightarrow> (\<exists>h. timerRef (step now s ev) = Some h \<and> intervals (step now s ev) = [(h, 1000)])"
  proof (intro impI, elim conjE)
    assume o: "offered s ev"
      and r: "intervals s \<noteq> []"
      and q: "question (step now s ev) \<noteq> None"
      and e: "\<not> truthy (examResult (step now s ev))"
      and n: "\<forall>v. ev = FinishExamSettled (Inr v) \<longrightarrow> \<not> sameValue (examResult s) v"
    from inv r have a: "question s \<noteq> None \<and> \<not> truthy (examResult s)"
      by (auto simp: timerInv_def active_def)
    have "intervals (step now s ev) \<noteq> []"
      using step_question [of now s ev] step_examResult [of now s ev]
        step_intervals [OF inv, of now ev] o r q e n a
      by (cases ev) (auto simp: screenOf_def split: sum.splits if_splits)
    with running [OF inv' [OF o]]
    show "\<exists>h. timerRef (step now s ev) = Some h \<and> intervals (step now s ev) = [(h, 1000)]" .
  qed
  have 7: "elapsedTime (step now s ev) = elapsedTime s \<or> elapsedTime (step now s ev) = 0
          \<or> (\<exists>h. ev = Tick h \<and> intervals s = [(h, 1000)]
                \<and> elapsedTime (step now s ev) = elapsedTime s + 1)"
  proof (cases ev)
    case (Tick h)
    show ?thesis
    proof (cases "h \<in> fst ` set (intervals s)")
      case True
      with inv have "intervals s = [(h, 1000)]"
        by (auto simp: timerInv_def)
      with Tick show ?thesis by (simp add: tick_def)
    next
      case False
      with Tick show ?thesis by (simp add: tick_def)
    qed
  qed (use step_elapsedTime [of now s ev] in \<open>auto split: sum.splits\<close>)
  have 8: "sameValue (examResult s) v
          \<longrightarrow> examResult (step now s (FinishExamSettled (Inr v))) = examResult s
              \<and> question (step now s (FinishExamSettled (Inr v))) = question s
              \<and> intervals (step now s (FinishExamSettled (Inr v))) = []"
    using handleFinishExam_settled_same [OF inv, of v now]
    by (auto dest: sameValue_eq)
  from 1 2 3 4 5 6 7 8 show ?thesis by blast
qed

lemma questionState_fields:
  "question questionState = Some exampleQuestion" "examResult questionState = JNull"
  "intervals questionState = [(1, 1000)]" "timerRef questionState = Some 1"
  "elapsedTime questionState = 0" "isSimulating questionState = False"
  "isGenerating questionState = False" "isGrading questionState = False"
  "nextHandle questionState = 2"
  by (simp_all add: questionState_def initialState_def handleStartQuiz_def
      handleStartQuiz_settled_def rerender_def timerEffect_def clearTimer_def)

lemma reachable_questionState: "reachable questionState"
  unfolding questionState_def
  by (intro reachable.step reachable.init)
     (simp_all add: screenOf_def initialState_def)

theorem single_timer_witness:
  "reachable questionState
   \<and> question questionState \<noteq> None \<and> \<not> truthy (examResult questionState)
   \<and> intervals questionState = [(1, 1000)]
   \<and> elapsedTime questionState = 0
   \<and> elapsedTime (step 0 questionState (Tick 1)) = 1
   \<and> offered questionState BackToSetup
   \<and> question (step 0 questionState BackToSetup) = None
   \<and> intervals (step 0 questionState BackToSetup) = []
   \<and> offered questionState Reset
   \<and> question (step 0 questionState Reset) \<noteq> None
   \<and> \<not> truthy (examResult (step 0 questionState Reset))
   \<and> intervals (step 0 questionState Reset) = [(1, 1000)]
   \<and> offered questionState (FinishExamSettled (Inr (JBool False)))
   \<and> \<not> sameValue (examResult questionState) (JBool False)
   \<and> intervals (step 0 questionState (FinishExamSettled (Inr (JBool False)))) = [(2, 1000)]
   \<and> sameValue (examResult questionState) JNull
   \<and> intervals (step 0 questionState (FinishExamSettled (Inr JNull))) = []
   \<and> reachable initialState \<and> question initialState = None \<and> intervals initialState = []
   \<and> offered initialState (StartQuizSettled (Inr exampleQuestion))
   \<and> question (step 0 initialState (StartQuizSettled (Inr exampleQuestion))) \<noteq> None
   \<and> \<not> truthy (examResult (step 0 initialState (StartQuizSettled (Inr exampleQuestion))))
   \<and> elapsedTime (step 0 initialState (StartQuizSettled (Inr exampleQuestion))) = 0
   \<and> intervals (step 0 initialState (StartQuizSettled (Inr exampleQuestion))) = [(1, 1000)]"
proof -
  note inv = reachable_timerInv [OF reachable_questionState]
  note inv0 = reachable_timerInv [OF reachable.init]
  have q: "question questionState \<noteq> None" "\<not> truthy (examResult questionState)"
    "intervals questionState = [(1, 1000)]" "elapsedTime questionState = 0"
    "\<not> sameValue (examResult questionState) (JBool False)"
    by (simp_all add: questionState_fields)
  have o: "offered questionState BackToSetup" "offered questionState Reset"
    "offered questionState (FinishExamSettled (Inr (JBool False)))"
    "offered initialState (StartQuizSettled (Inr exampleQuestion))"
    by (simp_all add: screenOf_def resetDisabled_def questionState_fields)
  have i: "question initialState = None" "intervals initialState = []"
    by (simp_all add: initialState_def)
  have b: "question (step 0 questionState BackToSetup) = None"
    using step_question [of 0 questionState BackToSetup] by simp
  have r: "question (step 0 questionState Reset) \<noteq> None"
    "\<not> truthy (examResult (step 0 questionState Reset))"
    "intervals (step 0 questionState Reset) = [(1, 1000)]"
    using step_question [of 0 questionState Reset] step_examResult [of 0 questionState Reset]
      step_intervals [OF inv, of 0 Reset]
    by (simp_all add: questionState_fields)
  have f: "intervals (step 0 questionState (FinishExamSettled (Inr (JBool False)))) = [(2, 1000)]"
    using step_intervals [OF inv, of 0 "FinishExamSettled (Inr (JBool False))"]
    by (simp add: questionState_fields)
  have n: "question (step 0 initialState (StartQuizSettled (Inr exampleQuestion))) \<noteq> None"
    "\<not> truthy (examResult (step 0 initialState (StartQuizSettled (Inr exampleQuestion))))"
    "intervals (step 0 initialState (StartQuizSettled (Inr exampleQuestion))) = [(1, 1000)]"
    using step_question [of 0 initialState "StartQuizSettled (Inr exampleQuestion)"]
      step_examResult [of 0 initialState "StartQuizSettled (Inr exampleQuestion)"]
      step_intervals [OF inv0, of 0 "StartQuizSettled (Inr exampleQuestion)"]
    by (simp_all add: initialState_def)
  have t: "elapsedTime (step 0 questionState (Tick 1)) = 1"
    using single_timer [OF reachable_questionState, of 0 BackToSetup] q
    by (simp add: questionState_fields)
  have b': "intervals (step 0 questionState BackToSetup) = []"
    using single_timer [OF reachable_questionState, of 0 BackToSetup] o b by blast
  have n': "elapsedTime (step 0 initialState (StartQuizSettled (Inr exampleQuestion))) = 0"
    using single_timer [OF reachable.init, of 0 "StartQuizSettled (Inr exampleQuestion)"] o i n
    by blast
  have f': "\<exists>h. intervals (step 0 questionState (FinishExamSettled (Inr (JBool False))))
      = [(h, 1000)]"
    using single_timer [OF reachable_questionState, of 0 "FinishExamSettled (Inr (JBool False))"]
      o q f
    by simp
  have z: "sameValue (examResult questionState) JNull"
    by (simp add: questionState_fields)
  have z': "intervals (step 0 questionState (FinishExamSettled (Inr JNull))) = []"
    using single_timer [OF reachable_questionState, where v = JNull and now = 0] z by blast
  from reachable_questionState reachable.init q o i b r f n t b' n' f' z z' show ?thesis
    by blast
qed

text \<open>
  C5 as stated fails. \<open>gradeExam\<close> returns what \<^verbatim>\<open>JSON.parse\<close> returns, and for the
  response text \<^verbatim>\<open>null\<close> that is \<^verbatim>\<open>null\<close>. When the grading issued from a running quiz
  settles with it, \<^verbatim>\<open>setExamResult(null)\<close> changes nothing, so no effect runs, and the
  \<^verbatim>\<open>clearInterval\<close> of the next line stops the timer: a question is active, no exam
  result exists, no timer is active and the timer that was does not count any more.
\<close>

theorem null_grade_stops_timer:
  "map_option (snd \<circ> perform nullEnv) (issued (step 0 questionState FinishExam) FinishExam)
     = Some (Inr JNull)
   \<and> reachable stalledState
   \<and> question stalledState = Some exampleQuestion \<and> examResult stalledState = JNull
   \<and> \<not> truthy (examResult stalledState)
   \<and> intervals questionState = [(1, 1000)]
   \<and> intervals stalledState = []
   \<and> elapsedTime (step 0 stalledState (Tick 1)) = elapsedTime stalledState"
proof -
  have f: "question (handleFinishExam questionState) = Some exampleQuestion"
    "examResult (handleFinishExam questionState) = JNull"
    "timerRef (handleFinishExam questionState) = Some 1"
    "intervals (handleFinishExam questionState) = [(1, 1000)]"
    "elapsedTime (handleFinishExam questionState) = 0"
    by (simp_all add: handleFinishExam_def questionState_fields)
  have 1: "map_option (snd \<circ> perform nullEnv) (issued (step 0 questionState FinishExam) FinishExam)
     = Some (Inr JNull)"
    by (simp add: f perform_unfold awaitText_def getClient_def nullEnv_def exampleEnv_def)
  have g: "question stalledState = Some exampleQuestion" "examResult stalledState = JNull"
    "intervals stalledState = []" "elapsedTime stalledState = 0"
    by (simp_all add: stalledState_def handleFinishExam_settled_def rerender_def clearTimer_def f)
  have r: "reachable stalledState"
    unfolding stalledState_def
    by (intro reachable.step reachable_questionState)
       (simp_all add: screenOf_def finishDisabled_def questionState_fields)
  have t: "elapsedTime (step 0 stalledState (Tick 1)) = elapsedTime stalledState"
    by (simp add: tick_def g)
  from 1 g r t questionState_fields(3) show ?thesis
    by simp
qed

text \<open>
  C1, as the code has it. From setup only the settled \<open>handleStartQuiz\<close> installs a
  question. With a question and no exam result the quiz screen is shown, the editor is
  writable and Reset is available; Run is available unless a simulation is in flight, and
  Finish and Grade unless a grading is. Once \<open>handleFinishExam\<close> has stored an exam result,
  the editor is read-only and Run, Reset and Finish and Grade are disabled for as long as
  it is present; only a new quiz, the return to setup or the review button remove it, or
  a grading that settles with a value that is no exam result. An exam result is present
  when \<open>examResult\<close> counts as true, which is how the render reads it.
\<close>

theorem quiz_lifecycle:
  assumes "reachable s"
  shows "(question s = None \<and> question (step now s ev) \<noteq> None
            \<longrightarrow> (\<exists>q. ev = StartQuizSettled (Inr q) \<and> question (step now s ev) = Some q))
     \<and> (question s \<noteq> None \<and> \<not> truthy (examResult s) \<longrightarrow>
          screenOf s = QuizScreen \<and> \<not> editorReadOnly s
          \<and> \<not> resetDisabled s \<and> offered s Reset
          \<and> (runDisabled s \<longleftrightarrow> isSimulating s) \<and> (offered s RunCode \<longleftrightarrow> \<not> isSimulating s)
          \<and> (finishDisabled s \<longleftrightarrow> isGrading s) \<and> (offered s FinishExam \<longleftrightarrow> \<not> isGrading s))
     \<and> examResult (handleFinishExam_settled (Inr r) now s) = r
     \<and> (truthy r \<longrightarrow>
          editorReadOnly (handleFinishExam_settled (Inr r) now s)
          \<and> runDisabled (handleFinishExam_settled (Inr r) now s)
          \<and> resetDisabled (handleFinishExam_settled (Inr r) now s)
          \<and> finishDisabled (handleFinishExam_settled (Inr r) now s))
     \<and> (truthy (examResult s) \<longrightarrow>
          editorReadOnly s \<and> runDisabled s \<and> resetDisabled s \<and> finishDisabled s
          \<and> \<not> offered s (CodeChange newCode) \<and> \<not> offered s RunCode \<and> \<not> offered s Reset
          \<and> \<not> offered s FinishExam)
     \<and> (truthy (examResult s) \<and> \<not> truthy (examResult (step now s ev))
          \<longrightarrow> ev = StartQuiz \<or> ev = BackToSetup \<or> ev = ReviewCode
              \<or> (\<exists>v. ev = FinishExamSettled (Inr v) \<and> \<not> truthy v))"
proof -
  have inv: "timerInv s" using assms by (rule reachable_timerInv)
  have 1: "question s = None \<and> question (step now s ev) \<noteq> None
            \<longrightarrow> (\<exists>q. ev = StartQuizSettled (Inr q) \<and> question (step now s ev) = Some q)"
    using step_question [of now s ev] by (cases ev) (auto split: sum.splits)
  have 2: "question s \<noteq> None \<and> \<not> truthy (examResult s) \<longrightarrow>
          screenOf s = QuizScreen \<and> \<not> editorReadOnly s
          \<and> \<not> resetDisabled s \<and> offered s Reset
          \<and> (runDisabled s \<longleftrightarrow> isSimulating s) \<and> (offered s RunCode \<longleftrightarrow> \<not> isSimulating s)
          \<and> (finishDisabled s \<longleftrightarrow> isGrading s) \<and> (offered s FinishExam \<longleftrightarrow> \<not> isGrading s)"
    using inv
    by (auto simp: timerInv_def screenOf_def editorReadOnly_def resetDisabled_def runDisabled_def
        finishDisabled_def)
  have 3: "examResult (handleFinishExam_settled (Inr r) now s) = r"
    by (simp add: handleFinishExam_settled_def)
  have r3: "truthy r \<longrightarrow>
          editorReadOnly (handleFinishExam_settled (Inr r) now s)
          \<and> runDisabled (handleFinishExam_settled (Inr r) now s)
          \<and> resetDisabled (handleFinishExam_settled (Inr r) now s)
          \<and> finishDisabled (handleFinishExam_settled (Inr r) now s)"
    using 3 by (simp add: editorReadOnly_def resetDisabled_def runDisabled_def finishDisabled_def)
  have 4: "truthy (examResult s) \<longrightarrow>
          editorReadOnly s \<and> runDisabled s \<and> resetDisabled s \<and> finishDisabled s
          \<and> \<not> offered s (CodeChange newCode) \<and> \<not> offered s RunCode \<and> \<not> offered s Reset
          \<and> \<not> offered s FinishExam"
    by (auto simp: editorReadOnly_def resetDisabled_def runDisabled_def finishDisabled_def)
  have 5: "truthy (examResult s) \<and> \<not> truthy (examResult (step now s ev))
          \<longrightarrow> ev = StartQuiz \<or> ev = BackToSetup \<or> ev = ReviewCode
              \<or> (\<exists>v. ev = FinishExamSettled (Inr v) \<and> \<not> truthy v)"
    using step_examResult [of now s ev] by (cases ev) (auto split: sum.splits)
  from 1 2 3 r3 4 5 show ?thesis by blast
qed

lemma gradedState_fields:
  "question gradedState = Some exampleQuestion" "examResult gradedState = exampleExam"
  "intervals gradedState = []"
  by (simp_all add: gradedState_def questionState_fields handleFinishExam_def
      handleFinishExam_settled_def exampleExam_def rerender_def timerEffect_def clearTimer_def)

lemma reachable_gradedState: "reachable gradedState"
  unfolding gradedState_def
  by (intro reachable.step reachable_questionState)
     (simp_all add: screenOf_def finishDisabled_def questionState_fields)

lemma reachable_finishing: "reachable (step 0 questionState FinishExam)"
  by (intro reachable.step reachable_questionState)
     (simp_all add: screenOf_def finishDisabled_def questionState_fields)

lemma runningState_eq: "runningState = step 0 questionState RunCode"
  by (simp add: runningState_def questionState_def)

lemma runningState_fields:
  "question runningState = Some exampleQuestion" "examResult runningState = JNull"
  "isSimulating runningState = True"
  by (simp_all add: runningState_eq questionState_fields handleRunCode_def)

lemma reachable_runningState: "reachable runningState"
  unfolding runningState_eq
  by (intro reachable.step reachable_questionState)
     (simp_all add: screenOf_def runDisabled_def questionState_fields)

theorem quiz_lifecycle_witness:
  "reachable initialState \<and> question initialState = None
   \<and> question (step 0 initialState (StartQuizSettled (Inr exampleQuestion))) = Some exampleQuestion
   \<and> reachable questionState \<and> question questionState \<noteq> None
   \<and> \<not> truthy (examResult questionState)
   \<and> offered questionState Reset \<and> offered questionState RunCode
   \<and> truthy exampleExam
   \<and> editorReadOnly (handleFinishExam_settled (Inr exampleExam) 0 (step 0 questionState FinishExam))
   \<and> reachable gradedState \<and> examResult gradedState = exampleExam
   \<and> truthy (examResult gradedState)
   \<and> editorReadOnly gradedState \<and> runDisabled gradedState \<and> resetDisabled gradedState
   \<and> finishDisabled gradedState
   \<and> \<not> truthy (examResult (step 0 gradedState ReviewCode))"
  using quiz_lifecycle [OF reachable.init, of 0 "StartQuizSettled (Inr exampleQuestion)"]
    quiz_lifecycle [OF reachable_questionState, of 0 Reset]
    quiz_lifecycle [OF reachable_gradedState, of 0 ReviewCode]
    quiz_lifecycle [OF reachable_finishing, where r = exampleExam and now = 0]
    reachable.init reachable_questionState reachable_gradedState
    questionState_fields gradedState_fields
    step_question [of 0 initialState "StartQuizSettled (Inr exampleQuestion)"]
    step_examResult [of 0 gradedState ReviewCode]
  by (simp add: initialState_def exampleExam_def)

text \<open>
  C1 as stated fails: after a click on Run, until the simulation settles, a question is
  active, no exam result exists, and Run is disabled.
\<close>

theorem run_disabled_while_simulating:
  "reachable runningState \<and> question runningState = Some exampleQuestion
   \<and> examResult runningState = JNull
   \<and> runDisabled runningState \<and> \<not> offered runningState RunCode"
  using reachable_runningState runningState_fields
  by (simp add: runDisabled_def)

text \<open>
  C9. With a question active, \<open>handleReset\<close> sets \<open>userCode\<close> to the question's
  \<open>initialCode\<close>, clears \<open>simulationResult\<close> and adds exactly 1 to \<open>attempts\<close>; nothing
  else changes, in particular not \<open>question\<close>, \<open>examResult\<close>, \<open>elapsedTime\<close> and
  \<open>config\<close>, and no effect runs. Without a question it changes no state at all.
\<close>

theorem handleReset_frame:
  "(question s = Some q \<longrightarrow>
      handleReset s = s\<lparr>userCode := initialCode q, simulationResult := None,
        attempts := attempts s + 1\<rparr>
      \<and> step now s Reset = handleReset s
      \<and> userCode (handleReset s) = initialCode q
      \<and> simulationResult (handleReset s) = None
      \<and> attempts (handleReset s) = attempts s + 1
      \<and> question (handleReset s) = question s
      \<and> examResult (handleReset s) = examResult s
      \<and> elapsedTime (handleReset s) = elapsedTime s
      \<and> config (handleReset s) = config s)
   \<and> (question s = None \<longrightarrow> handleReset s = s \<and> step now s Reset = s)"
  by (simp add: handleReset_def)

theorem handleReset_frame_witness:
  "question (initialState\<lparr>question := Some exampleQuestion\<rparr>) = Some exampleQuestion
   \<and> userCode (handleReset (initialState\<lparr>question := Some exampleQuestion\<rparr>))
       = js ''int x = ____;''
   \<and> attempts (handleReset (initialState\<lparr>question := Some exampleQuestion\<rparr>)) = 1
   \<and> question initialState = None
   \<and> handleReset initialState = initialState"
  using handleReset_frame [of "initialState\<lparr>question := Some exampleQuestion\<rparr>" exampleQuestion 0]
    handleReset_frame [of initialState exampleQuestion 0]
  by (simp add: initialState_def exampleQuestion_def)

section \<open>Properties of cleanCode\<close>

subsection \<open>Line comments\<close>

lemma removeLineComments_other:
  "d \<noteq> slash \<Longrightarrow> removeLineComments (d # cs) = d # removeLineComments cs"
  by (cases cs) simp_all

lemma hasLineComment_Cons: "hasLineComment cs \<Longrightarrow> hasLineComment (c # cs)"
  by (cases cs) simp_all

lemma hasLineComment_dropWhile: "hasLineComment (dropWhile P s) \<Longrightarrow> hasLineComment s"
  by (induction s) (auto simp: hasLineComment_Cons split: if_splits)

lemma removeLineComments_clean: "\<not> hasLineComment (removeLineComments s)"
proof (induction s rule: removeLineComments.induct)
  case (3 c d cs)
  show ?case
  proof (cases "c = slash \<and> d = slash")
    case True
    with 3 show ?thesis by simp
  next
    case False
    with 3 have ih: "\<not> hasLineComment (removeLineComments (d # cs))" by simp
    show ?thesis
    proof (cases "d = slash")
      case True
      with False have "c \<noteq> slash" by simp
      with ih False show ?thesis
        by (cases "removeLineComments (d # cs)") simp_all
    next
      case d: False
      with ih have "\<not> hasLineComment (d # removeLineComments cs)"
        by (simp add: removeLineComments_other)
      with d False show ?thesis by (simp add: removeLineComments_other)
    qed
  qed
qed simp_all

lemma removeLineComments_id: "\<not> hasLineComment s \<Longrightarrow> removeLineComments s = s"
  by (induction s rule: removeLineComments.induct) auto

subsection \<open>Block comments\<close>

lemma findClose_Cons: "findClose cs = Some r \<Longrightarrow> findClose (c # cs) \<noteq> None"
  by (cases cs) auto

lemma findClose_none_tl: "findClose (c # cs) = None \<Longrightarrow> findClose cs = None"
  using findClose_Cons by (cases "findClose cs") auto

lemma findClose_rest:
  "findClose s = Some rest \<Longrightarrow> \<not> hasLineComment s \<Longrightarrow>
   \<not> hasLineComment rest \<and> (\<forall>r. rest \<noteq> slash # r)"
proof (induction s rule: findClose.induct)
  case (1 c d cs)
  show ?case
  proof (cases "c = star \<and> d = slash")
    case True
    with 1 have "rest = cs" and "\<not> hasLineComment (d # cs)" by auto
    with True show ?thesis by (cases cs) auto
  next
    case False
    with 1 show ?thesis by auto
  qed
qed simp_all

lemma removeBlockComments_other:
  "d \<noteq> slash \<Longrightarrow> removeBlockComments (d # cs) = d # removeBlockComments cs"
  by (cases cs) simp_all

lemma removeBlockComments_head:
  "removeBlockComments v = slash # r \<Longrightarrow> \<exists>v'. v = slash # v'"
  by (cases v rule: removeBlockComments.cases) (auto split: if_splits option.splits)

lemma removeBlockComments_noclose: "findClose v = None \<Longrightarrow> removeBlockComments v = v"
proof (induction v rule: removeBlockComments.induct)
  case (3 c d cs)
  from "3.prems" have a: "findClose (d # cs) = None" by (rule findClose_none_tl)
  then have b: "findClose cs = None" by (rule findClose_none_tl)
  show ?case
  proof (cases "c = slash \<and> d = star")
    case True
    with a b "3.IH"(1) show ?thesis by simp
  next
    case False
    with a "3.IH"(3) show ?thesis by auto
  qed
qed simp_all

lemma removeBlockComments_no_line:
  "\<not> hasLineComment u \<Longrightarrow> \<not> hasLineComment (removeBlockComments u)"
proof (induction u rule: removeBlockComments.induct)
  case (3 c d cs)
  from "3.prems" have nl: "\<not> hasLineComment (d # cs)" and cd: "\<not> (c = slash \<and> d = slash)"
    by auto
  from nl have nl': "\<not> hasLineComment cs" using hasLineComment_Cons by blast
  show ?case
  proof (cases "c = slash \<and> d = star \<and> findClose cs \<noteq> None")
    case True
    then obtain rest where r: "findClose cs = Some rest" by auto
    with findClose_rest nl' have "\<not> hasLineComment rest" by blast
    with "3.IH"(2) True r show ?thesis by simp
  next
    case False
    then have eq: "removeBlockComments (c # d # cs) = c # removeBlockComments (d # cs)"
      by (auto split: option.splits)
    from False "3.IH"(1,3) nl have ih: "\<not> hasLineComment (removeBlockComments (d # cs))"
      by (cases "c = slash \<and> d = star") auto
    show ?thesis
    proof (cases "removeBlockComments (d # cs)")
      case Nil
      with eq show ?thesis by simp
    next
      case (Cons x r)
      have "\<not> (c = slash \<and> x = slash)"
      proof
        assume "c = slash \<and> x = slash"
        with Cons removeBlockComments_head have "d = slash" by blast
        with \<open>c = slash \<and> x = slash\<close> cd show False by simp
      qed
      with Cons ih eq show ?thesis by simp
    qed
  qed
qed simp_all

lemma removeBlockComments_clean:
  "\<not> hasLineComment u \<Longrightarrow> \<not> hasBlockComment (removeBlockComments u)"
proof (induction u rule: removeBlockComments.induct)
  case (3 c d cs)
  from "3.prems" have nl: "\<not> hasLineComment (d # cs)" and cd: "\<not> (c = slash \<and> d = slash)"
    by auto
  from nl have nl': "\<not> hasLineComment cs" using hasLineComment_Cons by blast
  show ?case
  proof (cases "c = slash \<and> d = star \<and> findClose cs \<noteq> None")
    case True
    then obtain rest where r: "findClose cs = Some rest" by auto
    with findClose_rest nl' have "\<not> hasLineComment rest" by blast
    with "3.IH"(2) True r show ?thesis by simp
  next
    case False
    then have eq: "removeBlockComments (c # d # cs) = c # removeBlockComments (d # cs)"
      by (auto split: option.splits)
    from False "3.IH"(1,3) nl have ih: "\<not> hasBlockComment (removeBlockComments (d # cs))"
      by (cases "c = slash \<and> d = star") auto
    show ?thesis
    proof (cases "removeBlockComments (d # cs)")
      case Nil
      with eq show ?thesis by simp
    next
      case (Cons x r)
      have "\<not> (c = slash \<and> x = star \<and> findClose r \<noteq> None)"
      proof
        assume a: "c = slash \<and> x = star \<and> findClose r \<noteq> None"
        show False
        proof (cases "d = slash")
          case True
          with a cd show False by simp
        next
          case d: False
          with Cons have "x = d" and "r = removeBlockComments cs"
            by (simp_all add: removeBlockComments_other)
          with a False have "findClose cs = None" by simp
          then have "removeBlockComments cs = cs" by (rule removeBlockComments_noclose)
          with \<open>r = removeBlockComments cs\<close> \<open>findClose cs = None\<close> a show False by simp
        qed
      qed
      with Cons ih eq show ?thesis by simp
    qed
  qed
qed simp_all

lemma removeBlockComments_id: "\<not> hasBlockComment s \<Longrightarrow> removeBlockComments s = s"
  by (induction s rule: removeBlockComments.induct) (auto split: option.splits)

subsection \<open>Blank lines\<close>

lemma takeWhile_dropWhile_Nil: "takeWhile P (dropWhile P xs) = []"
  by (induction xs) auto

lemma takeWhile_stop: "\<not> P x \<Longrightarrow> takeWhile P (u @ x # v) = takeWhile P u"
  by (induction u) auto

lemma dropWhile_stop: "\<not> P x \<Longrightarrow> dropWhile P (u @ x # v) = dropWhile P u @ x # v"
  by (induction u) auto

lemma matchBlank_None_iff:
  "matchBlank s = None \<longleftrightarrow> (\<forall>x \<in> set (takeWhile isSpace s). \<not> isCRLF x)"
  by (auto simp: matchBlank_def Let_def list_ex_iff)

lemma matchBlank_Some:
  assumes "matchBlank s = Some rest"
  shows "\<exists>pre. s = pre @ rest \<and> pre \<noteq> [] \<and> (\<forall>x \<in> set pre. isSpace x)
           \<and> (\<forall>x \<in> set (takeWhile isSpace rest). \<not> isCRLF x)"
proof -
  let ?run = "takeWhile isSpace s" and ?D = "dropWhile isSpace s"
  let ?B = "rev (takeWhile (\<lambda>c. \<not> isCRLF c) (rev ?run))"
  let ?A = "rev (dropWhile (\<lambda>c. \<not> isCRLF c) (rev ?run))"
  from assms have ex: "\<exists>c \<in> set ?run. isCRLF c" and rest: "rest = ?B @ ?D"
    by (auto simp: matchBlank_def Let_def list_ex_iff split: if_splits)
  have "rev ?run = rev ?B @ rev ?A" by simp
  then have run: "?run = ?A @ ?B" by (metis rev_append rev_rev_ident)
  have "s = (?A @ ?B) @ ?D" using run by (metis takeWhile_dropWhile_id)
  then have s: "s = ?A @ rest" by (simp only: rest append_assoc)
  have A_ne: "?A \<noteq> []" using ex by (auto simp: dropWhile_eq_Nil_conv)
  have run_sp: "\<forall>x \<in> set ?run. isSpace x" by (auto dest: set_takeWhileD)
  with run have A_sp: "\<forall>x \<in> set ?A. isSpace x" and B_sp: "\<forall>x \<in> set ?B. isSpace x"
    by (metis Un_iff set_append)+
  have B_no: "\<forall>x \<in> set ?B. \<not> isCRLF x" by (auto dest: set_takeWhileD)
  from B_sp have "takeWhile isSpace rest = ?B @ takeWhile isSpace ?D"
    unfolding rest by (intro takeWhile_append2) auto
  then have "takeWhile isSpace rest = ?B" by (simp add: takeWhile_dropWhile_Nil)
  with B_no have "\<forall>x \<in> set (takeWhile isSpace rest). \<not> isCRLF x" by simp
  with s A_ne A_sp show ?thesis by blast
qed

lemma matchBlank_LF:
  assumes "\<forall>x \<in> set (takeWhile isSpace v). \<not> isCRLF x"
  shows "matchBlank (LF # v) = Some v"
proof -
  let ?run = "takeWhile isSpace v"
  have "takeWhile (\<lambda>c. \<not> isCRLF c) (rev ?run @ [LF]) = rev ?run"
    using assms by (subst takeWhile_append2) auto
  then show ?thesis by (simp add: matchBlank_def)
qed

lemma matchBlank_stop:
  "\<not> isSpace x \<Longrightarrow> matchBlank (u @ x # v) = map_option (\<lambda>r. r @ x # v) (matchBlank u)"
  by (simp add: matchBlank_def Let_def takeWhile_stop dropWhile_stop)

lemma collapseBlankLines_stop:
  "\<not> isSpace x \<Longrightarrow>
   collapseBlankLines b (u @ x # v) = collapseBlankLines b u @ x # collapseBlankLines False v"
proof (induction b u rule: collapseBlankLines.induct)
  case (1 atStart)
  then have "matchBlank (x # v) = None" by (simp add: matchBlank_def)
  moreover from 1 have "\<not> isLineTerminator x" using LT_space by blast
  ultimately show ?case by simp
next
  case (2 atStart c cs)
  show ?case
  proof (cases atStart)
    case False
    with 2 show ?thesis by simp
  next
    case True
    show ?thesis
    proof (cases "matchBlank (c # cs)")
      case None
      with 2 True matchBlank_stop [of x "c # cs" v] show ?thesis by simp
    next
      case (Some rest)
      with 2 True matchBlank_stop [of x "c # cs" v] show ?thesis by simp
    qed
  qed
qed

lemma collapseBlankLines_run:
  "\<forall>x \<in> set (takeWhile isSpace s). \<not> isCRLF x \<Longrightarrow>
   takeWhile isSpace (collapseBlankLines b s) = takeWhile isSpace s"
proof (induction s arbitrary: b)
  case Nil
  show ?case by simp
next
  case (Cons c cs)
  from Cons.prems have n: "matchBlank (c # cs) = None" by (simp add: matchBlank_None_iff)
  then have eq: "collapseBlankLines b (c # cs) = c # collapseBlankLines (isLineTerminator c) cs"
    by simp
  show ?case
  proof (cases "isSpace c")
    case True
    with Cons.prems have "\<forall>x \<in> set (takeWhile isSpace cs). \<not> isCRLF x" by simp
    from Cons.IH [OF this] True eq show ?thesis by simp
  next
    case False
    with eq show ?thesis by simp
  qed
qed

lemma collapseBlankLines_idem:
  "collapseBlankLines b (collapseBlankLines b s) = collapseBlankLines b s"
proof (induction b s rule: collapseBlankLines.induct)
  case (1 atStart)
  show ?case by simp
next
  case (2 atStart c cs)
  show ?case
  proof (cases "atStart \<and> matchBlank (c # cs) \<noteq> None")
    case True
    then obtain rest where r: "matchBlank (c # cs) = Some rest" by auto
    with matchBlank_Some obtain pre where
      "\<forall>x \<in> set (takeWhile isSpace rest). \<not> isCRLF x" by blast
    then have "\<forall>x \<in> set (takeWhile isSpace (collapseBlankLines True rest)). \<not> isCRLF x"
      by (simp add: collapseBlankLines_run)
    then have "matchBlank (LF # collapseBlankLines True rest) = Some (collapseBlankLines True rest)"
      by (rule matchBlank_LF)
    with True r "2.IH"(2) show ?thesis by simp
  next
    case False
    let ?v = "collapseBlankLines (isLineTerminator c) cs"
    from False have eq: "collapseBlankLines atStart (c # cs) = c # ?v"
      by (auto split: option.splits)
    from False "2.IH"(1,3) have ih: "collapseBlankLines (isLineTerminator c) ?v = ?v"
      by (cases atStart) auto
    show ?thesis
    proof (cases atStart)
      case False
      with eq ih show ?thesis by simp
    next
      case True
      with False have n: "matchBlank (c # cs) = None" by simp
      then have "\<forall>x \<in> set (takeWhile isSpace (c # cs)). \<not> isCRLF x"
        by (simp only: matchBlank_None_iff)
      then have "takeWhile isSpace (collapseBlankLines atStart (c # cs)) = takeWhile isSpace (c # cs)"
        by (rule collapseBlankLines_run)
      with eq n have "matchBlank (c # ?v) = None"
        by (simp only: matchBlank_None_iff)
      with eq ih True show ?thesis by simp
    qed
  qed
qed

lemma collapseBlankLines_space:
  "\<forall>x \<in> set s. isSpace x \<Longrightarrow> \<forall>x \<in> set (collapseBlankLines b s). isSpace x"
proof (induction b s rule: collapseBlankLines.induct)
  case (1 atStart)
  show ?case by simp
next
  case (2 atStart c cs)
  show ?case
  proof (cases "atStart \<and> matchBlank (c # cs) \<noteq> None")
    case True
    then obtain rest where r: "matchBlank (c # cs) = Some rest" by auto
    with matchBlank_Some obtain pre where "c # cs = pre @ rest" by blast
    with "2.prems" have "\<forall>x \<in> set rest. isSpace x" by (metis Un_iff set_append)
    with True r "2.IH"(2) show ?thesis by simp
  next
    case False
    with "2.IH"(1,3) "2.prems" show ?thesis
      by (cases atStart) (auto split: option.splits)
  qed
qed

subsection \<open>Edits of white space\<close>

lemma wsEdit_Cons:
  "wsEdit s (d # t) \<Longrightarrow> \<not> isSpace d \<Longrightarrow> \<exists>s'. s = d # s' \<and> wsEdit s' t"
  by (erule wsEdit.cases) auto

lemma wsEdit_line: "wsEdit s t \<Longrightarrow> hasLineComment t \<Longrightarrow> hasLineComment s"
proof (induction rule: wsEdit.induct)
  case (Keep s t c)
  show ?case
  proof (cases t)
    case Nil
    with Keep.prems show ?thesis by simp
  next
    case (Cons d t')
    show ?thesis
    proof (cases "c = slash \<and> d = slash")
      case True
      with Keep.hyps Cons wsEdit_Cons [of s d t'] obtain s' where "s = d # s'" by auto
      with True show ?thesis by simp
    next
      case False
      with Keep.prems Cons have "hasLineComment t" by simp
      with Keep.IH show ?thesis by (simp add: hasLineComment_Cons)
    qed
  qed
next
  case (Subst c d s t)
  from Subst.hyps(2) have "d \<noteq> slash" by auto
  with Subst.prems have "hasLineComment t" by (cases t) auto
  with Subst.IH show ?case by (simp add: hasLineComment_Cons)
next
  case (Del c s d t)
  then show ?case by (simp add: hasLineComment_Cons)
qed simp

lemma wsEdit_close: "wsEdit s t \<Longrightarrow> findClose t \<noteq> None \<Longrightarrow> findClose s \<noteq> None"
proof (induction rule: wsEdit.induct)
  case (Keep s t c)
  show ?case
  proof (cases t)
    case Nil
    with Keep.prems show ?thesis by simp
  next
    case (Cons d t')
    show ?thesis
    proof (cases "c = star \<and> d = slash")
      case True
      with Keep.hyps Cons wsEdit_Cons [of s d t'] obtain s' where "s = d # s'" by auto
      with True show ?thesis by simp
    next
      case False
      with Keep.prems Cons have "findClose t \<noteq> None" by auto
      with Keep.IH obtain r where "findClose s = Some r" by auto
      then show ?thesis by (rule findClose_Cons)
    qed
  qed
next
  case (Subst c d s t)
  from Subst.hyps(2) have "d \<noteq> star" by auto
  with Subst.prems have "findClose t \<noteq> None" by (cases t) auto
  with Subst.IH obtain r where "findClose s = Some r" by auto
  then show ?case by (rule findClose_Cons)
next
  case (Del c s d t)
  then obtain r where "findClose s = Some r" by auto
  then show ?case by (rule findClose_Cons)
qed simp

lemma hasBlockComment_Cons: "hasBlockComment cs \<Longrightarrow> hasBlockComment (c # cs)"
  by (cases cs) simp_all

lemma wsEdit_block: "wsEdit s t \<Longrightarrow> hasBlockComment t \<Longrightarrow> hasBlockComment s"
proof (induction rule: wsEdit.induct)
  case (Keep s t c)
  show ?case
  proof (cases t)
    case Nil
    with Keep.prems show ?thesis by simp
  next
    case (Cons d t')
    show ?thesis
    proof (cases "c = slash \<and> d = star \<and> findClose t' \<noteq> None")
      case True
      with Keep.hyps Cons wsEdit_Cons [of s d t'] obtain s' where
        s: "s = d # s'" and e: "wsEdit s' t'" by auto
      from e True have "findClose s' \<noteq> None" by (auto dest: wsEdit_close)
      with True s show ?thesis by simp
    next
      case False
      with Keep.prems Cons have "hasBlockComment t" by auto
      with Keep.IH show ?thesis by (simp add: hasBlockComment_Cons)
    qed
  qed
next
  case (Subst c d s t)
  from Subst.hyps(2) have "d \<noteq> slash" by auto
  with Subst.prems have "hasBlockComment t" by (cases t) auto
  with Subst.IH show ?case by (simp add: hasBlockComment_Cons)
next
  case (Del c s d t)
  then show ?case by (simp add: hasBlockComment_Cons)
qed simp

lemma wsEdit_match:
  "\<forall>x \<in> set pre. isSpace x \<Longrightarrow> pre \<noteq> [] \<Longrightarrow> wsEdit rest t \<Longrightarrow> wsEdit (pre @ rest) (LF # t)"
proof (induction pre)
  case Nil
  then show ?case by simp
next
  case (Cons x pre)
  show ?case
  proof (cases "pre = []")
    case True
    with Cons.prems show ?thesis by (simp add: wsEdit.Subst)
  next
    case False
    with Cons have "wsEdit (pre @ rest) (LF # t)" by simp
    with Cons.prems(1) show ?thesis by (simp add: wsEdit.Del)
  qed
qed

lemma wsEdit_collapseBlankLines: "wsEdit s (collapseBlankLines b s)"
proof (induction b s rule: collapseBlankLines.induct)
  case (1 atStart)
  show ?case by (simp add: wsEdit.Nil)
next
  case (2 atStart c cs)
  show ?case
  proof (cases "atStart \<and> matchBlank (c # cs) \<noteq> None")
    case True
    then obtain rest where r: "matchBlank (c # cs) = Some rest" by auto
    with matchBlank_Some obtain pre where
      p: "c # cs = pre @ rest" "pre \<noteq> []" "\<forall>x \<in> set pre. isSpace x" by blast
    from True r "2.IH"(2) have "wsEdit rest (collapseBlankLines True rest)" by simp
    with p have "wsEdit (pre @ rest) (LF # collapseBlankLines True rest)"
      by (intro wsEdit_match)
    then have "wsEdit (c # cs) (LF # collapseBlankLines True rest)"
      by (simp only: p(1))
    moreover from True r have
      "collapseBlankLines atStart (c # cs) = LF # collapseBlankLines True rest" by simp
    ultimately show ?thesis by simp
  next
    case False
    with "2.IH"(1,3) have "wsEdit cs (collapseBlankLines (isLineTerminator c) cs)"
      by (cases atStart) auto
    with False show ?thesis by (auto split: option.splits intro: wsEdit.Keep)
  qed
qed

subsection \<open>Runs of newlines\<close>

lemma hasTriple_Cons: "hasTriple cs \<Longrightarrow> hasTriple (c # cs)"
  by (cases cs rule: hasTriple.cases) simp_all

lemma takeWhile_triple: "3 \<le> length (takeWhile (\<lambda>x. x = LF) s) \<Longrightarrow> hasTriple s"
  by (cases s rule: hasTriple.cases) (auto split: if_splits)

lemma collapseNewlines_id: "\<not> hasTriple s \<Longrightarrow> collapseNewlines s = s"
proof (induction s rule: collapseNewlines.induct)
  case 1
  show ?case by simp
next
  case (2 c cs)
  from "2.prems" takeWhile_triple have n: "\<not> 3 \<le> length (takeWhile (\<lambda>x. x = LF) (c # cs))"
    by blast
  from "2.prems" hasTriple_Cons have "\<not> hasTriple cs" by blast
  with n "2.IH"(2) show ?case by simp
qed

lemma collapseBlankLines_head:
  "collapseBlankLines True s \<noteq> LF # LF # v"
proof
  assume a: "collapseBlankLines True s = LF # LF # v"
  then obtain c cs where s: "s = c # cs" by (cases s) auto
  show False
  proof (cases "matchBlank s")
    case None
    with a s have "c = LF" by simp
    with s have "LF \<in> set (takeWhile isSpace s)" by simp
    with None show False by (auto simp: matchBlank_None_iff)
  next
    case (Some rest)
    with a s have r: "collapseBlankLines True rest = LF # v" by simp
    from Some matchBlank_Some obtain pre where
      "\<forall>x \<in> set (takeWhile isSpace rest). \<not> isCRLF x" by blast
    then have "\<forall>x \<in> set (takeWhile isSpace (collapseBlankLines True rest)). \<not> isCRLF x"
      by (simp add: collapseBlankLines_run)
    with r show False by simp
  qed
qed

lemma collapseBlankLines_no_triple: "\<not> hasTriple (collapseBlankLines b s)"
proof (induction b s rule: collapseBlankLines.induct)
  case (1 atStart)
  show ?case by simp
next
  case (2 atStart c cs)
  show ?case
  proof (cases "atStart \<and> matchBlank (c # cs) \<noteq> None")
    case True
    then obtain rest where r: "matchBlank (c # cs) = Some rest" by auto
    with True "2.IH"(2) have ih: "\<not> hasTriple (collapseBlankLines True rest)" by simp
    have "\<not> hasTriple (LF # collapseBlankLines True rest)"
      using ih collapseBlankLines_head [of rest]
      by (cases "collapseBlankLines True rest" rule: hasTriple.cases) auto
    with True r show ?thesis by simp
  next
    case False
    let ?v = "collapseBlankLines (isLineTerminator c) cs"
    from False "2.IH"(1,3) have ih: "\<not> hasTriple ?v" by (cases atStart) auto
    have "\<not> hasTriple (c # ?v)"
    proof (cases "c = LF")
      case True
      with ih collapseBlankLines_head [of cs] show ?thesis
        by (cases "collapseBlankLines True cs" rule: hasTriple.cases) auto
    next
      case False
      with ih show ?thesis by (cases ?v rule: hasTriple.cases) auto
    qed
    with False show ?thesis by (auto split: option.splits)
  qed
qed

subsection \<open>Trimming\<close>

lemma trim_space:
  assumes "\<forall>c \<in> set s. isSpace c"
  shows "trim s = []"
proof -
  from assms have d: "dropWhile isSpace s = []" by (simp add: dropWhile_eq_Nil_conv)
  show ?thesis unfolding trim_def d by simp
qed

lemma trim_core:
  assumes "\<forall>c \<in> set a. isSpace c" and "\<forall>c \<in> set b. isSpace c"
    and "k \<noteq> []" and "\<not> isSpace (hd k)" and "\<not> isSpace (last k)"
  shows "trim (a @ k @ b) = k"
proof -
  from assms(3) obtain x k' where k: "k = x # k'" by (cases k) auto
  with assms(4) have x: "\<not> isSpace x" by simp
  from assms(1) have "dropWhile isSpace (a @ k @ b) = dropWhile isSpace (k @ b)"
    by (intro dropWhile_append2) auto
  with k x have 1: "dropWhile isSpace (a @ k @ b) = k @ b" by simp
  from assms(3) have "rev k \<noteq> []" by simp
  then obtain y r where r: "rev k = y # r" by (cases "rev k") auto
  with assms(3) have "y = last k" by (metis last_rev list.sel(1) rev_rev_ident hd_rev)
  with assms(5) have y: "\<not> isSpace y" by simp
  from assms(2) have "dropWhile isSpace (rev b @ rev k) = dropWhile isSpace (rev k)"
    by (intro dropWhile_append2) auto
  with r y have "dropWhile isSpace (rev (k @ b)) = rev k" by simp
  with 1 show ?thesis by (simp add: trim_def)
qed

lemma trim_cases:
  obtains (space) "\<forall>c \<in> set s. isSpace c"
  | (core) a k b where "s = a @ k @ b" "\<forall>c \<in> set a. isSpace c" "\<forall>c \<in> set b. isSpace c"
      "k \<noteq> []" "\<not> isSpace (hd k)" "\<not> isSpace (last k)"
proof (cases "dropWhile isSpace s = []")
  case True
  then have "\<forall>c \<in> set s. isSpace c" by (simp add: dropWhile_eq_Nil_conv)
  then show ?thesis by (rule space)
next
  case False
  let ?a = "takeWhile isSpace s" and ?r = "dropWhile isSpace s"
  let ?k = "rev (dropWhile isSpace (rev ?r))" and ?b = "rev (takeWhile isSpace (rev ?r))"
  have "rev ?r = rev ?b @ rev ?k" by simp
  then have r: "?r = ?k @ ?b" by (metis rev_append rev_rev_ident)
  have "s = ?a @ ?r" by simp
  with r have s: "s = ?a @ ?k @ ?b" by metis
  have a: "\<forall>c \<in> set ?a. isSpace c" by (auto dest: set_takeWhileD)
  have b: "\<forall>c \<in> set ?b. isSpace c" by (auto dest: set_takeWhileD)
  from False have h: "\<not> isSpace (hd ?r)" by (rule hd_dropWhile)
  have k: "?k \<noteq> []"
  proof
    assume "?k = []"
    with r have "?r = ?b" by simp
    with b False have "isSpace (hd ?r)" by (metis hd_in_set)
    with h show False by simp
  qed
  with r have hk: "hd ?k = hd ?r" by (metis hd_append2)
  from k have "dropWhile isSpace (rev ?r) \<noteq> []" by simp
  then have "\<not> isSpace (hd (dropWhile isSpace (rev ?r)))" by (rule hd_dropWhile)
  with k have l: "\<not> isSpace (last ?k)" by (simp add: last_rev)
  from s a b k h hk l show ?thesis by (intro core [of ?a ?k ?b]) simp_all
qed

lemma trim_infix: "\<exists>a b. s = a @ trim s @ b"
proof (cases s rule: trim_cases)
  case space
  then have "trim s = []" by (rule trim_space)
  then have "s = s @ trim s @ []" by simp
  then show ?thesis by blast
next
  case (core a k b)
  then have "trim s = k" by (simp add: trim_core)
  with core(1) have "s = a @ trim s @ b" by simp
  then show ?thesis by blast
qed

lemma trim_idem: "trim (trim s) = trim s"
proof (cases s rule: trim_cases)
  case space
  then have "trim s = []" by (rule trim_space)
  then show ?thesis by (simp add: trim_space)
next
  case (core a k b)
  then have "trim s = k" by (simp add: trim_core)
  moreover from core have "trim ([] @ k @ []) = k" by (intro trim_core) simp_all
  ultimately show ?thesis by simp
qed

lemma hasLineComment_append: "hasLineComment s \<Longrightarrow> hasLineComment (s @ b)"
  by (induction s rule: hasLineComment.induct) auto

lemma hasLineComment_prepend: "hasLineComment s \<Longrightarrow> hasLineComment (a @ s)"
  by (induction a) (auto simp: hasLineComment_Cons)

lemma findClose_append: "findClose s \<noteq> None \<Longrightarrow> findClose (s @ b) \<noteq> None"
  by (induction s rule: findClose.induct) auto

lemma hasBlockComment_append: "hasBlockComment s \<Longrightarrow> hasBlockComment (s @ b)"
proof (induction s rule: hasBlockComment.induct)
  case (1 c d cs)
  show ?case
  proof (cases "c = slash \<and> d = star \<and> findClose cs \<noteq> None")
    case True
    then have "findClose (cs @ b) \<noteq> None" by (simp add: findClose_append)
    with True show ?thesis by simp
  next
    case False
    with "1.prems" have "hasBlockComment (d # cs)" by auto
    with "1.IH" have "hasBlockComment ((d # cs) @ b)" by simp
    then show ?thesis by simp
  qed
qed simp_all

lemma hasBlockComment_prepend: "hasBlockComment s \<Longrightarrow> hasBlockComment (a @ s)"
  by (induction a) (auto simp: hasBlockComment_Cons)

lemma hasTriple_append: "hasTriple s \<Longrightarrow> hasTriple (s @ b)"
  by (induction s rule: hasTriple.induct) auto

lemma hasTriple_prepend: "hasTriple s \<Longrightarrow> hasTriple (a @ s)"
  by (induction a) (auto simp: hasTriple_Cons)

lemma trim_keeps:
  "hasLineComment (trim s) \<Longrightarrow> hasLineComment s"
  "hasBlockComment (trim s) \<Longrightarrow> hasBlockComment s"
  "hasTriple (trim s) \<Longrightarrow> hasTriple s"
proof -
  obtain a b where s: "s = a @ trim s @ b" using trim_infix by blast
  show "hasLineComment (trim s) \<Longrightarrow> hasLineComment s"
    by (subst s) (simp add: hasLineComment_append hasLineComment_prepend)
  show "hasBlockComment (trim s) \<Longrightarrow> hasBlockComment s"
    by (subst s) (simp add: hasBlockComment_append hasBlockComment_prepend)
  show "hasTriple (trim s) \<Longrightarrow> hasTriple s"
    by (subst s) (simp add: hasTriple_append hasTriple_prepend)
qed

lemma collapseBlankLines_trim:
  "collapseBlankLines True (trim (collapseBlankLines True t)) = trim (collapseBlankLines True t)"
proof (cases t rule: trim_cases)
  case space
  then have "\<forall>c \<in> set (collapseBlankLines True t). isSpace c"
    by (rule collapseBlankLines_space)
  then have "trim (collapseBlankLines True t) = []" by (rule trim_space)
  then show ?thesis by simp
next
  case (core a k b)
  from core(4) obtain x k' where k: "k = x # k'" by (cases k) auto
  with core(5) have x: "\<not> isSpace x" by simp
  let ?a = "collapseBlankLines True a" and ?b = "collapseBlankLines False b"
  have sa: "\<forall>c \<in> set ?a. isSpace c" using core(2) by (rule collapseBlankLines_space)
  have sb: "\<forall>c \<in> set ?b. isSpace c" using core(3) by (rule collapseBlankLines_space)
  have one: "collapseBlankLines True [x] = [x]"
    using x by (simp add: matchBlank_def)
  show ?thesis
  proof (cases "k' = []")
    case True
    with core(1) k x have "collapseBlankLines True t = ?a @ [x] @ ?b"
      by (simp add: collapseBlankLines_stop)
    moreover from sa sb x have "trim (?a @ [x] @ ?b) = [x]" by (intro trim_core) simp_all
    ultimately show ?thesis using one by simp
  next
    case False
    then obtain n y where n: "k' = n @ [y]" by (metis append_butlast_last_id)
    with k core(6) have y: "\<not> isSpace y" by simp
    let ?n = "collapseBlankLines False n"
    from core(1) k n have "t = a @ x # (n @ y # b)" by simp
    then have "collapseBlankLines True t = ?a @ x # collapseBlankLines False (n @ y # b)"
      by (simp only: collapseBlankLines_stop [OF x, of True a "n @ y # b"])
    also have "collapseBlankLines False (n @ y # b) = ?n @ y # ?b"
      using y by (rule collapseBlankLines_stop)
    finally have t: "collapseBlankLines True t = ?a @ (x # ?n @ [y]) @ ?b" by simp
    from sa sb x y have "trim (?a @ (x # ?n @ [y]) @ ?b) = x # ?n @ [y]"
      by (intro trim_core) simp_all
    with t have tr: "trim (collapseBlankLines True t) = x # ?n @ [y]" by simp
    have "collapseBlankLines True ([] @ x # (?n @ y # [])) =
        collapseBlankLines True [] @ x # collapseBlankLines False (?n @ y # [])"
      using x by (rule collapseBlankLines_stop)
    also have "collapseBlankLines False (?n @ y # []) =
        collapseBlankLines False ?n @ y # collapseBlankLines False []"
      using y by (rule collapseBlankLines_stop)
    finally have "collapseBlankLines True (x # ?n @ [y]) = x # ?n @ [y]"
      by (simp add: collapseBlankLines_idem)
    with tr show ?thesis by simp
  qed
qed

text \<open>
  C10. \<open>cleanCode\<close> is idempotent: for every string \<open>s\<close>, cleaning the cleaned string
  gives the cleaned string. The cleaned string has no line comment and no closed block
  comment left, its blank lines are collapsed, it has no three newlines in a row and it
  is trimmed, so each of the five steps leaves it as it is.
\<close>

theorem cleanCode_idempotent: "cleanCode (cleanCode s) = cleanCode s"
proof -
  let ?t = "removeBlockComments (removeLineComments s)"
  let ?y = "collapseBlankLines True ?t"
  let ?e = "trim ?y"
  have ny: "\<not> hasTriple ?y" by (rule collapseBlankLines_no_triple)
  then have cy: "collapseNewlines ?y = ?y" by (rule collapseNewlines_id)
  then have e: "cleanCode s = ?e" by (simp add: cleanCode_scan)
  have t1: "\<not> hasLineComment ?t"
    by (intro removeBlockComments_no_line removeLineComments_clean)
  have t2: "\<not> hasBlockComment ?t"
    by (intro removeBlockComments_clean removeLineComments_clean)
  have w: "wsEdit ?t ?y" by (rule wsEdit_collapseBlankLines)
  from w t1 have "\<not> hasLineComment ?y" using wsEdit_line by blast
  then have e1: "\<not> hasLineComment ?e" using trim_keeps(1) by blast
  from w t2 have "\<not> hasBlockComment ?y" using wsEdit_block by blast
  then have e2: "\<not> hasBlockComment ?e" using trim_keeps(2) by blast
  from ny have e3: "\<not> hasTriple ?e" using trim_keeps(3) by blast
  from e1 have 1: "removeLineComments ?e = ?e" by (rule removeLineComments_id)
  from e2 have 2: "removeBlockComments ?e = ?e" by (rule removeBlockComments_id)
  have 3: "collapseBlankLines True ?e = ?e" by (rule collapseBlankLines_trim)
  from e3 have 4: "collapseNewlines ?e = ?e" by (rule collapseNewlines_id)
  have 5: "trim ?e = ?e" by (rule trim_idem)
  have "cleanCode ?e = ?e"
    unfolding cleanCode_scan by (simp only: 1 2 3 4 5)
  with e show ?thesis by simp
qed

theorem cleanCode_idempotent_witness:
  "cleanCode (js ''x; // f'') = js ''x;'' \<and> cleanCode (cleanCode (js ''x; // f'')) = js ''x;''"
proof -
  have "cleanCode (js ''x; // f'') = js ''x;''"
    by (simp add: cleanCode_eval)
  with cleanCode_idempotent [of "js ''x; // f''"] show ?thesis by simp
qed

end
